(* ===== verification/Prelude.thy ===== *)
theory Prelude
  imports "HOL-Library.Word"
begin

text \<open>
  What every component shares: the machine integers of the source, byte strings, the
  theorem collections the components add to, and generic lemmas on lists and options.

  An \<open>i64\<close> of the source is an \<^typ>\<open>int\<close> whose arithmetic goes through
  \<open>wrap_i64\<close> (the release profile of \<open>Cargo.toml\<close> leaves overflow checks off,
  so arithmetic wraps); an \<open>u64\<close> is a \<^typ>\<open>64 word\<close>. A \<open>usize\<close> that only counts
  (lengths, limits) is a \<^typ>\<open>nat\<close>.
\<close>

unbundle bit_operations_syntax

named_theorems sql_defs "the definitions of the SQL statements"
named_theorems str_defs "the definitions of the string helpers of the standard library"
named_theorems act_defs "the definitions of the atomic operations on the application state"

section \<open>Machine integers\<close>

type_synonym u8 = "8 word"
type_synonym u64 = "64 word"
type_synonym i64 = int
type_synonym bytes = "u8 list"

text \<open>The value an \<open>i64\<close> operation leaves in the register.\<close>

definition wrap_i64 :: "int \<Rightarrow> i64" where
  "wrap_i64 x = (x + 2 ^ 63) mod 2 ^ 64 - 2 ^ 63"

text \<open>Rust's \<open>as\<close> casts between the two 64-bit types.\<close>

definition u64_as_i64 :: "u64 \<Rightarrow> i64" where
  "u64_as_i64 w = sint w"

definition i64_as_u64 :: "i64 \<Rightarrow> u64" where
  "i64_as_u64 i = word_of_int i"

definition is_i64 :: "int \<Rightarrow> bool" where
  "is_i64 x \<longleftrightarrow> - (2 ^ 63) \<le> x \<and> x < 2 ^ 63"

lemma wrap_i64_id: "is_i64 x \<Longrightarrow> wrap_i64 x = x"
  by (simp add: is_i64_def wrap_i64_def)

lemma wrap_i64_is_i64: "is_i64 (wrap_i64 x)"
  by (simp add: is_i64_def wrap_i64_def pos_mod_bound [of "2 ^ 64", simplified])

lemma wrap_i64_cong: "wrap_i64 x mod 2 ^ 64 = x mod 2 ^ 64"
proof -
  have "wrap_i64 x mod 2 ^ 64 = ((x + 2 ^ 63) - 2 ^ 63) mod 2 ^ 64"
    unfolding wrap_i64_def by (rule mod_diff_left_eq)
  then show ?thesis by simp
qed

lemma u64_as_i64_is_i64: "is_i64 (u64_as_i64 w)"
proof -
  have "- (2 ^ 63) \<le> sint w" "sint w < 2 ^ 63"
    using sint_ge [of w] sint_lt [of w] by simp_all
  then show ?thesis by (simp add: is_i64_def u64_as_i64_def)
qed

lemma u64_as_i64_cong: "u64_as_i64 w mod 2 ^ 64 = uint w"
  by (simp add: u64_as_i64_def uint_sint take_bit_eq_mod)

lemma u64_as_i64_small: "uint w < 2 ^ 63 \<Longrightarrow> u64_as_i64 w = uint w"
  by (simp add: u64_as_i64_def sint_uint signed_take_bit_eq_take_bit_shift take_bit_eq_mod)

section \<open>Lists and options\<close>

lemma dropWhile_dropWhile_same: "dropWhile P (dropWhile P xs) = dropWhile P xs"
  by (induction xs) auto

text \<open>The first element of a list that satisfies a predicate, when at most one does.\<close>

lemma find_eq_SomeI:
  assumes "x \<in> set xs" and "P x" and "\<And>y. y \<in> set xs \<Longrightarrow> P y \<Longrightarrow> y = x"
  shows "List.find P xs = Some x"
proof (cases "List.find P xs")
  case None
  with assms(1,2) show ?thesis by (auto simp: find_None_iff)
next
  case (Some y)
  then have "y \<in> set xs" "P y" by (auto simp: find_Some_iff)
  then have "y = x" by (rule assms(3))
  with Some show ?thesis by simp
qed

lemma find_SomeD: "List.find P xs = Some x \<Longrightarrow> x \<in> set xs \<and> P x"
  by (auto simp: find_Some_iff)

lemma find_NoneD: "List.find P xs = None \<Longrightarrow> x \<in> set xs \<Longrightarrow> \<not> P x"
  by (auto simp: find_None_iff)

lemma filter_single:
  assumes "distinct xs" and "x \<in> set xs" and "P x" and "\<And>y. y \<in> set xs \<Longrightarrow> P y \<Longrightarrow> y = x"
  shows "filter P xs = [x]"
  using assms
proof (induction xs)
  case (Cons a xs)
  show ?case
  proof (cases "P a")
    case True
    then have a: "a = x" using Cons.prems(4) [of a] by simp
    have "\<not> P y" if "y \<in> set xs" for y
      using Cons.prems(1) Cons.prems(4) [of y] that a by auto
    then have "filter P xs = []" by (simp add: filter_empty_conv)
    then show ?thesis using True a by simp
  next
    case False
    then have "x \<in> set xs" using Cons.prems(2,3) by auto
    moreover have "distinct xs" using Cons.prems(1) by simp
    ultimately have "filter P xs = [x]"
      using Cons.prems(3,4) by (intro Cons.IH) (blast intro: list.set_intros(2))+
    then show ?thesis using False by simp
  qed
qed simp

text \<open>Keys of a list of rows.\<close>

lemma distinct_map_eqD:
  "distinct (map f xs) \<Longrightarrow> x \<in> set xs \<Longrightarrow> y \<in> set xs \<Longrightarrow> f x = f y \<Longrightarrow> x = y"
  by (auto simp: distinct_map dest: inj_onD)

text \<open>Maps that hold the same pairs are equal.\<close>

lemma map_eqI: "(\<And>a b. m a = Some b \<longleftrightarrow> m' a = Some b) \<Longrightarrow> m = m'"
  by (metis ext not_None_eq)

end
