(* ===== verification/Rust_Str.thy ===== *)
theory Rust_Str
  imports Prelude
begin

text \<open>
  The parts of Rust's \<open>str\<close> the source uses. A \<open>str\<close> is its UTF-8 bytes, one
  \<^typ>\<open>char\<close> of HOL for each byte, so \<open>len()\<close> is \<^const>\<open>length\<close> and
  \<open>bytes()\<close> is the list itself; \<open>chars().count()\<close> counts the bytes that are not
  UTF-8 continuation bytes. \<open>to_lowercase\<close> is exact on ASCII strings; on a string with a
  non-ASCII byte it is Unicode's case table, which the standard library carries as data
  and the model takes as the argument \<open>ul\<close>.
\<close>

section \<open>ASCII classes\<close>

abbreviation code :: "char \<Rightarrow> nat" where
  "code c \<equiv> of_char c"

definition is_ascii :: "char \<Rightarrow> bool" where
  "is_ascii c \<longleftrightarrow> code c < 128"

definition is_ascii_lowercase :: "char \<Rightarrow> bool" where
  "is_ascii_lowercase c \<longleftrightarrow> 97 \<le> code c \<and> code c \<le> 122"

definition is_ascii_uppercase :: "char \<Rightarrow> bool" where
  "is_ascii_uppercase c \<longleftrightarrow> 65 \<le> code c \<and> code c \<le> 90"

definition is_ascii_digit :: "char \<Rightarrow> bool" where
  "is_ascii_digit c \<longleftrightarrow> 48 \<le> code c \<and> code c \<le> 57"

definition is_ascii_hexdigit :: "char \<Rightarrow> bool" where
  "is_ascii_hexdigit c \<longleftrightarrow>
     is_ascii_digit c \<or> (97 \<le> code c \<and> code c \<le> 102) \<or> (65 \<le> code c \<and> code c \<le> 70)"

lemmas ascii_class_defs [str_defs] =
  is_ascii_def is_ascii_lowercase_def is_ascii_uppercase_def is_ascii_digit_def
  is_ascii_hexdigit_def

definition to_ascii_lowercase :: "char \<Rightarrow> char" where
  "to_ascii_lowercase c = (if is_ascii_uppercase c then char_of (code c + 32) else c)"

lemmas char_eval = char_of_def bit_Suc_0_iff

definition eq_ignore_ascii_case :: "string \<Rightarrow> string \<Rightarrow> bool" where
  "eq_ignore_ascii_case a b \<longleftrightarrow> map to_ascii_lowercase a = map to_ascii_lowercase b"

definition to_lowercase :: "(string \<Rightarrow> string) \<Rightarrow> string \<Rightarrow> string" where
  "to_lowercase ul s = (if list_all is_ascii s then map to_ascii_lowercase s else ul s)"

text \<open>\<open>chars().count()\<close>: the bytes that start a character.\<close>

definition is_cont_byte :: "char \<Rightarrow> bool" where
  "is_cont_byte c \<longleftrightarrow> 128 \<le> code c \<and> code c < 192"

definition char_count :: "string \<Rightarrow> nat" where
  "char_count s = length (filter (\<lambda>c. \<not> is_cont_byte c) s)"

section \<open>Prefixes, trimming, splitting\<close>

definition strip_prefix :: "string \<Rightarrow> string \<Rightarrow> string option" where
  "strip_prefix p s = (if take (length p) s = p then Some (drop (length p) s) else None)"

text \<open>The first non-empty pattern of the list that starts the string, taken off.\<close>

fun strip_any :: "string list \<Rightarrow> string \<Rightarrow> string option" where
  "strip_any [] s = None"
| "strip_any (p # ps) s =
     (if p \<noteq> [] \<and> take (length p) s = p then Some (drop (length p) s) else strip_any ps s)"

lemma strip_any_shorter: "strip_any ps s = Some t \<Longrightarrow> length t < length s"
proof (induction ps)
  case (Cons p ps)
  show ?case
  proof (cases "p \<noteq> [] \<and> take (length p) s = p")
    case True
    then have "s \<noteq> []" by auto
    with True Cons.prems show ?thesis by auto
  next
    case False
    with Cons show ?thesis by auto
  qed
qed simp

function trim_left :: "string list \<Rightarrow> string \<Rightarrow> string" where
  "trim_left ps s = (case strip_any ps s of None \<Rightarrow> s | Some t \<Rightarrow> trim_left ps t)"
  by pat_completeness auto
termination
  by (relation "measure (\<lambda>(ps, s). length s)") (auto dest: strip_any_shorter)

declare trim_left.simps [simp del]

text \<open>Unicode's \<open>White_Space\<close> characters, each as its UTF-8 bytes.\<close>

definition white_space :: "string list" where
  "white_space =
     [[CHR 0x20], [CHR 0x09], [CHR 0x0A], [CHR 0x0B], [CHR 0x0C], [CHR 0x0D],
      [CHR 0xC2, CHR 0x85], [CHR 0xC2, CHR 0xA0], [CHR 0xE1, CHR 0x9A, CHR 0x80],
      [CHR 0xE2, CHR 0x80, CHR 0x80], [CHR 0xE2, CHR 0x80, CHR 0x81],
      [CHR 0xE2, CHR 0x80, CHR 0x82], [CHR 0xE2, CHR 0x80, CHR 0x83],
      [CHR 0xE2, CHR 0x80, CHR 0x84], [CHR 0xE2, CHR 0x80, CHR 0x85],
      [CHR 0xE2, CHR 0x80, CHR 0x86], [CHR 0xE2, CHR 0x80, CHR 0x87],
      [CHR 0xE2, CHR 0x80, CHR 0x88], [CHR 0xE2, CHR 0x80, CHR 0x89],
      [CHR 0xE2, CHR 0x80, CHR 0x8A], [CHR 0xE2, CHR 0x80, CHR 0xA8],
      [CHR 0xE2, CHR 0x80, CHR 0xA9], [CHR 0xE2, CHR 0x80, CHR 0xAF],
      [CHR 0xE2, CHR 0x81, CHR 0x9F], [CHR 0xE3, CHR 0x80, CHR 0x80]]"

definition trim_start :: "string \<Rightarrow> string" where
  "trim_start s = trim_left white_space s"

definition trim_end :: "string \<Rightarrow> string" where
  "trim_end s = rev (trim_left (map rev white_space) (rev s))"

definition trim :: "string \<Rightarrow> string" where
  "trim s = trim_end (trim_start s)"

definition trim_end_matches :: "char \<Rightarrow> string \<Rightarrow> string" where
  "trim_end_matches c s = rev (dropWhile (\<lambda>x. x = c) (rev s))"

text \<open>\<open>split\<close> on the characters that satisfy a predicate: never the empty list.\<close>

fun split_by :: "(char \<Rightarrow> bool) \<Rightarrow> string \<Rightarrow> string list" where
  "split_by P [] = [[]]"
| "split_by P (c # cs) =
     (if P c then [] # split_by P cs
      else (case split_by P cs of [] \<Rightarrow> [[c]] | w # ws \<Rightarrow> (c # w) # ws))"

text \<open>\<open>lines()\<close>: a line ends at a line feed, with a carriage return before it dropped;
  nothing after the last line feed is no line.\<close>

definition strip_cr :: "string \<Rightarrow> string" where
  "strip_cr s = (if s \<noteq> [] \<and> last s = CHR 0x0D then butlast s else s)"

definition str_lines :: "string \<Rightarrow> string list" where
  "str_lines s =
     (let ps = split_by (\<lambda>c. c = CHR 0x0A) s
      in map strip_cr (butlast ps) @ (if last ps = [] then [] else [last ps]))"

section \<open>Numbers as text\<close>

definition digits_val :: "string \<Rightarrow> nat option" where
  "digits_val s =
     (if s \<noteq> [] \<and> list_all is_ascii_digit s
      then Some (foldl (\<lambda>a c. a * 10 + (code c - 48)) 0 s) else None)"

text \<open>\<open>str::parse\<close> for the unsigned 64-bit types: an optional plus sign, then digits.\<close>

definition parse_usize :: "string \<Rightarrow> nat option" where
  "parse_usize s =
     (case digits_val (case strip_prefix ''+'' s of None \<Rightarrow> s | Some t \<Rightarrow> t) of
        None \<Rightarrow> None
      | Some n \<Rightarrow> if n < 2 ^ 64 then Some n else None)"

definition parse_u64 :: "string \<Rightarrow> u64 option" where
  "parse_u64 s = map_option of_nat (parse_usize s)"

definition parse_i64 :: "string \<Rightarrow> i64 option" where
  "parse_i64 s =
     (case strip_prefix ''-'' s of
        Some t \<Rightarrow> (case digits_val t of
            None \<Rightarrow> None | Some n \<Rightarrow> if n \<le> 2 ^ 63 then Some (- int n) else None)
      | None \<Rightarrow> (case digits_val (case strip_prefix ''+'' s of None \<Rightarrow> s | Some t \<Rightarrow> t) of
            None \<Rightarrow> None | Some n \<Rightarrow> if n < 2 ^ 63 then Some (int n) else None))"

text \<open>The decimal text of a number, as \<open>Display\<close> prints it.\<close>

fun show_nat :: "nat \<Rightarrow> string" where
  "show_nat n =
     (if n < 10 then [char_of (48 + n)] else show_nat (n div 10) @ [char_of (48 + n mod 10)])"

declare show_nat.simps [simp del]

definition show_int :: "int \<Rightarrow> string" where
  "show_int i = (if i < 0 then ''-'' @ show_nat (nat (- i)) else show_nat (nat i))"

section \<open>Lemmas\<close>

lemma to_ascii_lowercase_id: "\<not> is_ascii_uppercase c \<Longrightarrow> to_ascii_lowercase c = c"
  by (simp add: to_ascii_lowercase_def)

lemma map_to_ascii_lowercase_id:
  "list_all (\<lambda>c. \<not> is_ascii_uppercase c) s \<Longrightarrow> map to_ascii_lowercase s = s"
  by (induction s) (auto simp: to_ascii_lowercase_id)

lemma code_to_ascii_lowercase:
  "code (to_ascii_lowercase c) = (if is_ascii_uppercase c then code c + 32 else code c)"
  by (auto simp: to_ascii_lowercase_def is_ascii_uppercase_def of_char_of take_bit_eq_mod)

lemma to_ascii_lowercase_not_upper [simp]: "\<not> is_ascii_uppercase (to_ascii_lowercase c)"
  by (auto simp: is_ascii_uppercase_def code_to_ascii_lowercase)

lemma to_ascii_lowercase_idem [simp]:
  "to_ascii_lowercase (to_ascii_lowercase c) = to_ascii_lowercase c"
  by (simp add: to_ascii_lowercase_id)

lemma is_ascii_to_ascii_lowercase [simp]: "is_ascii (to_ascii_lowercase c) = is_ascii c"
  by (auto simp: is_ascii_def code_to_ascii_lowercase is_ascii_uppercase_def)

lemma to_lowercase_ascii: "list_all is_ascii s \<Longrightarrow> to_lowercase ul s = map to_ascii_lowercase s"
  by (simp add: to_lowercase_def)

lemma to_lowercase_idem:
  "list_all is_ascii s \<Longrightarrow> to_lowercase ul (to_lowercase ul s) = to_lowercase ul s"
  by (simp add: to_lowercase_def list_all_iff)

text \<open>ASCII strings: one byte for each character.\<close>

lemma char_count_ascii: "list_all is_ascii s \<Longrightarrow> char_count s = length s"
  unfolding char_count_def
  by (induction s) (auto simp: is_cont_byte_def is_ascii_def)

text \<open>Trimming leaves a string of visible ASCII characters alone.\<close>

definition is_graphic :: "char \<Rightarrow> bool" where
  "is_graphic c \<longleftrightarrow> 33 \<le> code c \<and> code c \<le> 126"

lemma strip_any_None:
  assumes "\<forall>p \<in> set ps. p \<noteq> [] \<longrightarrow> \<not> list_all P p" and "list_all P s"
  shows "strip_any ps s = None"
  using assms(1)
proof (induction ps)
  case (Cons p ps)
  have "take (length p) s = p \<Longrightarrow> list_all P p"
    using assms(2) by (metis list_all_iff in_set_takeD)
  with Cons show ?case by auto
qed simp

lemma trim_left_id: "strip_any ps s = None \<Longrightarrow> trim_left ps s = s"
  by (simp add: trim_left.simps)

lemma white_space_not_graphic:
  "\<forall>p \<in> set white_space. p \<noteq> [] \<longrightarrow> \<not> list_all is_graphic p"
  by (simp add: white_space_def is_graphic_def)

lemma trim_start_graphic: "list_all is_graphic s \<Longrightarrow> trim_start s = s"
  unfolding trim_start_def
  by (intro trim_left_id strip_any_None [OF white_space_not_graphic])

lemma trim_end_graphic:
  assumes "list_all is_graphic s"
  shows "trim_end s = s"
proof -
  have "\<forall>p \<in> set (map rev white_space). p \<noteq> [] \<longrightarrow> \<not> list_all is_graphic p"
    using white_space_not_graphic by (auto simp: list_all_iff)
  then have "strip_any (map rev white_space) (rev s) = None"
    using assms by (intro strip_any_None) auto
  then show ?thesis by (simp add: trim_end_def trim_left_id)
qed

lemma trim_graphic: "list_all is_graphic s \<Longrightarrow> trim s = s"
  by (simp add: trim_def trim_start_graphic trim_end_graphic)

text \<open>Splitting inverts joining.\<close>

fun join :: "char \<Rightarrow> string list \<Rightarrow> string" where
  "join c [] = []"
| "join c [w] = w"
| "join c (w # ws) = w @ c # join c ws"

lemma split_by_not_Nil [simp]: "split_by P s \<noteq> []"
  by (induction s) (auto split: list.splits)

lemma hd_split_by: "hd (split_by P s) = takeWhile (\<lambda>c. \<not> P c) s"
  by (induction s) (auto split: list.split)

lemma split_by_word: "list_all (\<lambda>x. \<not> P x) w \<Longrightarrow> split_by P w = [w]"
  by (induction w) auto

lemma split_by_append:
  "list_all (\<lambda>x. \<not> P x) w \<Longrightarrow> P c \<Longrightarrow> split_by P (w @ c # s) = w # split_by P s"
  by (induction w) auto

lemma split_by_join:
  assumes "ws \<noteq> []" and "\<forall>w \<in> set ws. c \<notin> set w"
  shows "split_by (\<lambda>x. x = c) (join c ws) = ws"
  using assms
proof (induction c ws rule: join.induct)
  case (2 c w)
  then show ?case by (auto intro!: split_by_word simp: list_all_iff)
next
  case (3 c w v vs)
  then show ?case by (subst join.simps, subst split_by_append) (auto simp: list_all_iff)
qed simp

lemma trim_end_matches_id: "s = [] \<or> last s \<noteq> c \<Longrightarrow> trim_end_matches c s = s"
  by (cases s rule: rev_cases) (auto simp: trim_end_matches_def)

lemma trim_end_matches_idem [simp]:
  "trim_end_matches c (trim_end_matches c s) = trim_end_matches c s"
  by (simp add: trim_end_matches_def dropWhile_dropWhile_same)

text \<open>A stripped prefix is the prefix of the string.\<close>

lemma strip_prefix_Some [simp]: "strip_prefix p s = Some t \<longleftrightarrow> s = p @ t"
  by (auto simp: strip_prefix_def) (metis append_take_drop_id)

lemma strip_prefix_append: "strip_prefix p (p @ t) = Some t"
  by simp

lemma eq_ignore_ascii_case_refl [simp]: "eq_ignore_ascii_case s s"
  by (simp add: eq_ignore_ascii_case_def)

lemma eq_ignore_ascii_case_sym: "eq_ignore_ascii_case a b \<Longrightarrow> eq_ignore_ascii_case b a"
  by (simp add: eq_ignore_ascii_case_def)

lemma eq_ignore_ascii_case_trans:
  "eq_ignore_ascii_case a b \<Longrightarrow> eq_ignore_ascii_case b c \<Longrightarrow> eq_ignore_ascii_case a c"
  by (simp add: eq_ignore_ascii_case_def)

section \<open>Printing and parsing numbers\<close>

lemma show_nat_not_Nil [simp]: "show_nat n \<noteq> []"
  by (subst show_nat.simps) simp

lemma code_digit: "d < 10 \<Longrightarrow> code (char_of (48 + d)) = 48 + d"
  by (simp add: take_bit_eq_mod of_char_of)

lemma show_nat_digits: "list_all is_ascii_digit (show_nat n)"
proof (induction n rule: show_nat.induct)
  case (1 n)
  have "is_ascii_digit (char_of (48 + n mod 10))"
    using code_digit [of "n mod 10"] by (simp add: is_ascii_digit_def)
  moreover have "n < 10 \<Longrightarrow> is_ascii_digit (char_of (48 + n))"
    using code_digit [of n] by (simp add: is_ascii_digit_def)
  ultimately show ?case using 1 by (subst show_nat.simps) simp
qed

lemma show_nat_graphic: "list_all is_graphic (show_nat n)"
  using show_nat_digits [of n] by (auto simp: list_all_iff is_graphic_def is_ascii_digit_def)

lemma digits_val_show_nat: "digits_val (show_nat n) = Some n"
proof -
  have "foldl (\<lambda>a c. a * 10 + (code c - 48)) 0 (show_nat n) = n"
  proof (induction n rule: show_nat.induct)
    case (1 n)
    then show ?case
      using code_digit [of "n mod 10"] code_digit [of n] by (subst show_nat.simps) simp
  qed
  then show ?thesis by (simp add: digits_val_def show_nat_digits)
qed

lemma parse_usize_show_nat:
  assumes "n < 2 ^ 64"
  shows "parse_usize (show_nat n) = Some n"
proof -
  have "show_nat n \<noteq> CHR ''+'' # t" for t
    using show_nat_digits [of n] by (auto simp: str_defs)
  then have "strip_prefix ''+'' (show_nat n) = None"
    by (cases "strip_prefix ''+'' (show_nat n)") auto
  then show ?thesis using assms by (simp add: parse_usize_def digits_val_show_nat)
qed

end
