(* ===== verification/Names.thy ===== *)
theory Names
  imports Rust_Str
begin

text \<open>
  Name and public-key rules, \<open>src/src/names.rs\<close>: the built-in reserved list, the
  syntax of a name, look-alike folding, the reserved check, the labels an operator's own
  domain reserves, and the syntax of a public key. All functions are pure. The lemmas show
  the README's grammar of a name, that the reserved check is membership up to folding, and
  what an operator's domain protects.
\<close>

section \<open>Definitions\<close>

definition RESERVED :: "string list" where
  "RESERVED =
    [''admin'', ''administrator'', ''root'', ''support'', ''help'', ''info'', ''mail'',
     ''email'', ''www'', ''relay'', ''nostr'', ''pay'', ''payment'', ''payments'', ''wallet'',
     ''official'', ''security'', ''abuse'', ''postmaster'', ''hostmaster'', ''webmaster'',
     ''contact'', ''team'', ''staff'', ''mod'', ''moderator'', ''moderators'', ''system'',
     ''bot'', ''api'', ''app'', ''dev'', ''developer'', ''test'', ''testing'', ''anonymous'',
     ''anon'', ''null'', ''void'', ''owner'', ''ceo'', ''register'', ''registration'',
     ''account'', ''accounts'', ''verify'', ''verified'', ''billing'', ''donate'', ''treasury'',
     ''faucet'', ''exchange'', ''swap'', ''bank'', ''money'', ''cash'', ''fees'', ''fee'',
     ''node'', ''miner'', ''mining'', ''explorer'', ''status'', ''blog'', ''news'', ''docs'',
     ''wiki'', ''store'', ''shop'']"

definition ok_char :: "char \<Rightarrow> bool" where
  "ok_char c \<longleftrightarrow>
     is_ascii_lowercase c \<or> is_ascii_digit c \<or> c = CHR ''.'' \<or> c = CHR ''_'' \<or> c = CHR ''-''"

text \<open>
  \<open>valid_name\<close> indexes \<open>bytes[0]\<close>, which panics on an empty name; \<open>None\<close> is
  that panic. \<open>name_min = 0\<close> would let an empty name through to it, which
  \<open>Config::validate\<close> refuses at startup.
\<close>

definition valid_name_checked :: "string \<Rightarrow> nat \<Rightarrow> nat \<Rightarrow> bool option" where
  "valid_name_checked name name_min name_max =
     (let len = char_count name in
      if \<not> (name_min \<le> len \<and> len \<le> name_max) then Some False
      else if \<not> list_all ok_char name then Some False
      else if name = [] then None
      else
        (let first = hd name; last_char = last name in
         Some ((is_ascii_lowercase first \<or> is_ascii_digit first) \<and>
               (is_ascii_lowercase last_char \<or> is_ascii_digit last_char))))"

definition valid_name :: "string \<Rightarrow> nat \<Rightarrow> nat \<Rightarrow> bool" where
  "valid_name name name_min name_max \<longleftrightarrow>
     valid_name_checked name name_min name_max = Some True"

text \<open>One character of \<open>fold_lookalike\<close>'s \<open>filter_map\<close>; the bytes of a
  non-ASCII character stay.\<close>

definition fold_char :: "char \<Rightarrow> char option" where
  "fold_char c =
     (if c = CHR ''.'' \<or> c = CHR ''_'' \<or> c = CHR ''-'' then None
      else if c = CHR ''0'' then Some (CHR ''o'')
      else if c = CHR ''1'' then Some (CHR ''i'')
      else if c = CHR ''3'' then Some (CHR ''e'')
      else if c = CHR ''4'' then Some (CHR ''a'')
      else if c = CHR ''5'' then Some (CHR ''s'')
      else if c = CHR ''7'' then Some (CHR ''t'')
      else if c = CHR ''8'' then Some (CHR ''b'')
      else if c = CHR ''9'' then Some (CHR ''g'')
      else Some c)"

definition fold_lookalike :: "string \<Rightarrow> string" where
  "fold_lookalike name = List.map_filter fold_char name"

definition is_reserved :: "string \<Rightarrow> string list \<Rightarrow> bool" where
  "is_reserved name extra \<longleftrightarrow>
     (if name \<in> set RESERVED \<or> list_ex (\<lambda>r. r = name) extra then True
      else
        (let folded = fold_lookalike name in
         list_ex (\<lambda>r. fold_lookalike r = folded) RESERVED \<or>
         list_ex (\<lambda>r. fold_lookalike r = folded) extra))"

definition domain_reserved :: "(string \<Rightarrow> string) \<Rightarrow> string \<Rightarrow> string list" where
  "domain_reserved ul domain =
     (let labels = filter (\<lambda>l. l \<noteq> [])
            (split_by (\<lambda>c. c = CHR ''.'') (trim_end_matches (CHR ''.'') (trim domain)));
          keep = (if length labels > 1 then take (length labels - 1) labels else labels)
      in map (to_lowercase ul) keep)"

definition valid_pubkey_hex :: "string \<Rightarrow> bool" where
  "valid_pubkey_hex pk \<longleftrightarrow>
     length pk = 64 \<and> list_all (\<lambda>c. is_ascii_hexdigit c \<and> \<not> is_ascii_uppercase c) pk"

section \<open>The syntax of a name\<close>

definition is_ascii_lower_alnum :: "char \<Rightarrow> bool" where
  "is_ascii_lower_alnum c \<longleftrightarrow> is_ascii_lowercase c \<or> is_ascii_digit c"

lemma ok_char_is_ascii: "ok_char c \<Longrightarrow> is_ascii c"
  by (auto simp: ok_char_def str_defs)

lemma ok_char_not_upper: "ok_char c \<Longrightarrow> \<not> is_ascii_uppercase c"
  by (auto simp: ok_char_def str_defs)

lemma ok_name_ascii: "list_all ok_char s \<Longrightarrow> list_all is_ascii s"
  by (auto simp: list_all_iff ok_char_is_ascii)

lemma valid_name_checked_total:
  "1 \<le> name_min \<Longrightarrow> valid_name_checked name name_min name_max \<noteq> None"
  by (auto simp: valid_name_checked_def Let_def char_count_def)

text \<open>The README's grammar \<open>[a-z0-9._-]{min,max}\<close>, starting and ending alphanumeric:
  the length that counts characters is the number of bytes.\<close>

lemma valid_name_iff:
  assumes "1 \<le> name_min"
  shows "valid_name name name_min name_max \<longleftrightarrow>
    name_min \<le> length name \<and> length name \<le> name_max \<and> list_all ok_char name \<and>
    is_ascii_lower_alnum (hd name) \<and> is_ascii_lower_alnum (last name)"
proof (cases "list_all ok_char name")
  case True
  then have "char_count name = length name"
    by (intro char_count_ascii ok_name_ascii)
  with assms True show ?thesis
    by (auto simp: valid_name_def valid_name_checked_def Let_def is_ascii_lower_alnum_def)
qed (simp add: valid_name_def valid_name_checked_def Let_def)

lemma valid_name_lowercase:
  assumes "valid_name name name_min name_max"
  shows "to_lowercase ul name = name"
proof -
  have "list_all ok_char name"
    using assms by (auto simp: valid_name_def valid_name_checked_def Let_def split: if_splits)
  then have "list_all is_ascii name" "list_all (\<lambda>c. \<not> is_ascii_uppercase c) name"
    by (auto simp: list_all_iff ok_char_is_ascii ok_char_not_upper)
  then show ?thesis by (simp add: to_lowercase_ascii map_to_ascii_lowercase_id)
qed

lemma valid_pubkey_hex_lowercase:
  assumes "valid_pubkey_hex pk"
  shows "to_lowercase ul pk = pk"
proof -
  have "list_all is_ascii pk" "list_all (\<lambda>c. \<not> is_ascii_uppercase c) pk"
    using assms by (auto simp: valid_pubkey_hex_def list_all_iff str_defs)
  then show ?thesis by (simp add: to_lowercase_ascii map_to_ascii_lowercase_id)
qed

section \<open>Folding and the reserved check\<close>

lemma fold_lookalike_Nil [simp]: "fold_lookalike [] = []"
  by (simp add: fold_lookalike_def)

lemma fold_lookalike_Cons:
  "fold_lookalike (c # cs) = (case fold_char c of None \<Rightarrow> [] | Some d \<Rightarrow> [d]) @ fold_lookalike cs"
  by (simp add: fold_lookalike_def map_filter_simps split: option.splits)

lemma fold_lookalike_append [simp]:
  "fold_lookalike (a @ b) = fold_lookalike a @ fold_lookalike b"
  by (induction a) (auto simp: fold_lookalike_Cons split: option.splits)

lemma fold_char_idem:
  assumes "fold_char c = Some d"
  shows "fold_char d = Some d"
proof -
  have "d = c \<or> d \<in> set ''oieastbg''"
    using assms unfolding fold_char_def
    by (simp only: split: if_split_asm) simp_all
  moreover have "list_all (\<lambda>x. fold_char x = Some x) ''oieastbg''"
    by (simp add: fold_char_def)
  ultimately show ?thesis using assms by (auto simp: list_all_iff)
qed

lemma fold_lookalike_idem: "fold_lookalike (fold_lookalike s) = fold_lookalike s"
  by (induction s) (auto simp: fold_lookalike_Cons fold_char_idem split: option.splits)

text \<open>The two-stage check is membership of the folded name in the folded list: the
  literal test is only a shortcut.\<close>

lemma is_reserved_iff:
  "is_reserved name extra \<longleftrightarrow>
     fold_lookalike name \<in> fold_lookalike ` (set RESERVED \<union> set extra)"
proof -
  have "fold_lookalike name \<in> fold_lookalike ` S \<longleftrightarrow>
      (\<exists>r \<in> S. fold_lookalike r = fold_lookalike name)" for S
    by (metis imageE imageI)
  then show ?thesis by (auto simp: is_reserved_def Let_def list_ex_iff)
qed

lemma is_reserved_mono: "is_reserved name extra \<Longrightarrow> set extra \<subseteq> set extra' \<Longrightarrow> is_reserved name extra'"
  by (auto simp: is_reserved_iff)

section \<open>The operator's domain\<close>

text \<open>A character a label of a host name may hold, the dot left out.\<close>

definition label_char :: "char \<Rightarrow> bool" where
  "label_char c \<longleftrightarrow> is_graphic c \<and> c \<noteq> CHR ''.''"

definition is_label :: "string \<Rightarrow> bool" where
  "is_label l \<longleftrightarrow> l \<noteq> [] \<and> list_all label_char l"

lemma is_label_char: "is_label l \<Longrightarrow> c \<in> set l \<Longrightarrow> is_graphic c \<and> c \<noteq> CHR ''.''"
  by (simp add: is_label_def label_char_def list_all_iff)

lemma is_label_not_Nil: "is_label l \<Longrightarrow> l \<noteq> []"
  by (simp add: is_label_def)

lemma list_all_join:
  "list_all (list_all P) ls \<Longrightarrow> P c \<Longrightarrow> list_all P (join c ls)"
  by (induction c ls rule: join.induct) auto

lemma last_join:
  "ls \<noteq> [] \<Longrightarrow> list_all (\<lambda>l. l \<noteq> []) ls \<Longrightarrow> join c ls \<noteq> [] \<and> last (join c ls) = last (last ls)"
  by (induction c ls rule: join.induct) auto

lemma join_labels_graphic:
  assumes "list_all is_label ls"
  shows "list_all is_graphic (join (CHR ''.'') ls)"
proof (rule list_all_join)
  show "list_all (list_all is_graphic) ls"
    using assms by (auto simp: list_all_iff dest: is_label_char)
qed (simp add: is_graphic_def)

lemma join_labels_last:
  assumes "ls \<noteq> []" and "list_all is_label ls"
  shows "last (join (CHR ''.'') ls) \<noteq> CHR ''.''"
proof -
  have l: "is_label (last ls)" "list_all (\<lambda>l. l \<noteq> []) ls"
    using assms by (auto simp: list_all_iff is_label_not_Nil)
  then have "last (last ls) \<in> set (last ls)"
    by (simp add: is_label_not_Nil)
  with l(1) have "last (last ls) \<noteq> CHR ''.''" by (simp add: is_label_char)
  with last_join [OF assms(1) l(2)] show ?thesis by simp
qed

lemma domain_reserved_join:
  assumes "ls \<noteq> []" and "list_all is_label ls"
  shows "domain_reserved ul (join (CHR ''.'') ls) =
    map (map to_ascii_lowercase) (if length ls > 1 then butlast ls else ls)"
proof -
  have "trim (join (CHR ''.'') ls) = join (CHR ''.'') ls"
    using assms(2) by (intro trim_graphic join_labels_graphic)
  moreover have "trim_end_matches (CHR ''.'') (join (CHR ''.'') ls) = join (CHR ''.'') ls"
    using join_labels_last [OF assms] by (simp add: trim_end_matches_id)
  moreover have "split_by (\<lambda>c. c = CHR ''.'') (join (CHR ''.'') ls) = ls"
    using assms by (intro split_by_join) (auto simp: list_all_iff dest: is_label_char)
  moreover have "filter (\<lambda>l. l \<noteq> []) ls = ls"
    using assms(2) by (auto simp: is_label_not_Nil list_all_iff intro!: filter_True)
  moreover have "to_lowercase ul l = map to_ascii_lowercase l" if "l \<in> set ls" for l
    using assms(2) that
    by (intro to_lowercase_ascii)
       (auto simp: list_all_iff is_graphic_def is_ascii_def dest!: bspec is_label_char)
  ultimately show ?thesis
    by (auto simp: domain_reserved_def Let_def butlast_conv_take intro!: map_cong dest: in_set_takeD)
qed

end
