(* ===== verification/Externals.thy ===== *)
theory Externals
  imports Rust_Str
begin

text \<open>
  What the source calls and does not contain. The data it exchanges with the libraries
  (\<open>serde_json::Value\<close>, \<open>nostr::Event\<close>, HTTP headers and responses) are
  datatypes and records here; the library functions (base64, hex, SHA-256, bech32,
  ed25519, event parsing and Schnorr verification, JSON parsing and printing, Unicode's
  case table) are the fields of the record \<open>libs\<close>, which every definition that uses
  them takes as an argument. Nothing is assumed of them here; a property that relies on
  one states what it relies on.
\<close>

section \<open>JSON values\<close>

datatype json_number = PosInt u64 | NegInt i64 | Float string

datatype json =
    JNull
  | JBool bool
  | JNumber json_number
  | JString string
  | JArray "json list"
  | JObject "(string \<times> json) list"

fun as_u64 :: "json \<Rightarrow> u64 option" where
  "as_u64 (JNumber (PosInt w)) = Some w"
| "as_u64 _ = None"

fun as_str :: "json \<Rightarrow> string option" where
  "as_str (JString s) = Some s"
| "as_str _ = None"

fun as_object :: "json \<Rightarrow> (string \<times> json) list option" where
  "as_object (JObject kvs) = Some kvs"
| "as_object _ = None"

text \<open>\<open>Value::get\<close> with a key and with an index.\<close>

fun json_get :: "string \<Rightarrow> json \<Rightarrow> json option" where
  "json_get k (JObject kvs) = map_of kvs k"
| "json_get k _ = None"

fun json_at :: "nat \<Rightarrow> json \<Rightarrow> json option" where
  "json_at i (JArray xs) = (if i < length xs then Some (xs ! i) else None)"
| "json_at i _ = None"

section \<open>Nostr events\<close>

record event =
  ev_id :: string
  ev_pubkey :: string
  ev_created_at :: u64
  ev_kind :: nat
  ev_tags :: "string list list"
  ev_content :: string
  ev_sig :: string

section \<open>Library functions\<close>

type_synonym u5 = "5 word"

record libs =
  unicode_lower :: "string \<Rightarrow> string"
  base64_decode :: "string \<Rightarrow> bytes option"
  hex_encode :: "bytes \<Rightarrow> string"
  hex_decode :: "string \<Rightarrow> bytes option"
  sha256_digest :: "bytes \<Rightarrow> bytes"
  event_from_json :: "bytes \<Rightarrow> event option"
  event_verify :: "event \<Rightarrow> bool"
  event_as_json :: "event \<Rightarrow> string"
  json_from_slice :: "bytes \<Rightarrow> json option"
  json_to_string :: "json \<Rightarrow> string"
  register_body_from_slice :: "bytes \<Rightarrow> (string \<times> string) option"
  bech32_encode :: "string \<Rightarrow> u5 list \<Rightarrow> string option"
  bech32_decode :: "string \<Rightarrow> (string \<times> u5 list) option"
  to_base32 :: "bytes \<Rightarrow> u5 list"
  from_base32 :: "u5 list \<Rightarrow> bytes option"
  ed25519_key_ok :: "bytes \<Rightarrow> bool"
  ed25519_verify :: "bytes \<Rightarrow> bytes \<Rightarrow> bytes \<Rightarrow> bool"

text \<open>A string seen as bytes, for the library calls that take \<open>AsRef<[u8]>\<close>.\<close>

definition as_bytes :: "string \<Rightarrow> bytes" where
  "as_bytes s = map of_char s"

section \<open>Requests and responses\<close>

text \<open>
  A header's value is \<open>None\<close> when it is not visible ASCII (\<open>to_str\<close> fails);
  \<open>HeaderMap::get\<close> returns the first value of a name.
\<close>

type_synonym headers = "(string \<times> string option) list"

definition header_str :: "headers \<Rightarrow> string \<Rightarrow> string option" where
  "header_str hs name = (case map_of hs name of Some (Some v) \<Rightarrow> Some v | _ \<Rightarrow> None)"

datatype payload = Json json | Text string | HtmlPage string

record response =
  status :: nat
  resp_headers :: "(string \<times> string) list"
  resp_body :: payload

abbreviation OK :: nat where "OK \<equiv> 200"
abbreviation CREATED :: nat where "CREATED \<equiv> 201"
abbreviation BAD_REQUEST :: nat where "BAD_REQUEST \<equiv> 400"
abbreviation UNAUTHORIZED :: nat where "UNAUTHORIZED \<equiv> 401"
abbreviation FORBIDDEN :: nat where "FORBIDDEN \<equiv> 403"
abbreviation NOT_FOUND :: nat where "NOT_FOUND \<equiv> 404"
abbreviation CONFLICT :: nat where "CONFLICT \<equiv> 409"
abbreviation GONE :: nat where "GONE \<equiv> 410"
abbreviation TOO_MANY_REQUESTS :: nat where "TOO_MANY_REQUESTS \<equiv> 429"
abbreviation INTERNAL_SERVER_ERROR :: nat where "INTERNAL_SERVER_ERROR \<equiv> 500"

definition json_response :: "nat \<Rightarrow> (string \<times> json) list \<Rightarrow> response" where
  "json_response c kvs = \<lparr>status = c, resp_headers = [], resp_body = Json (JObject kvs)\<rparr>"

text \<open>\<open>transfer::err\<close>, and the same expression written out in the other handlers.\<close>

definition err :: "nat \<Rightarrow> string \<Rightarrow> response" where
  "err c msg = json_response c [(''error'', JString msg)]"

lemma status_json_response [simp]: "status (json_response c kvs) = c"
  by (simp add: json_response_def)

lemma status_err [simp]: "status (err c msg) = c"
  by (simp add: err_def)

text \<open>\<open>util::client_ip\<close>.\<close>

definition client_ip :: "headers \<Rightarrow> string" where
  "client_ip hs = (case header_str hs ''x-real-ip'' of Some v \<Rightarrow> v | None \<Rightarrow> ''unknown'')"

end
