(* ===== verification/Config.thy ===== *)
theory Config
  imports Names Externals
begin

text \<open>
  Runtime configuration, \<open>src/src/config.rs\<close>: reading the environment, the startup
  checks, the node endpoints, the optional reserved file and the startup log line. The environment is a
  function from variable names to values (\<open>None\<close>: unset or not Unicode), the file
  system a function from paths to an error text or the file's contents.
\<close>

section \<open>Durations\<close>

text \<open>\<open>Duration\<close> and the differences of \<open>Instant\<close>s, in nanoseconds.\<close>

type_synonym duration = nat

definition from_secs :: "nat \<Rightarrow> duration" where
  "from_secs s = s * 1000000000"

section \<open>Definitions\<close>

record config =
  cfg_domain :: string
  cfg_base_url :: string
  cfg_relays :: "string list"
  cfg_bind_addr :: string
  cfg_db_path :: string
  cfg_name_change_cooldown :: duration
  cfg_auth_max_age_secs :: i64
  cfg_name_min :: nat
  cfg_name_max :: nat
  cfg_read_rate_max :: nat
  cfg_read_rate_window :: duration
  cfg_write_rate_max :: nat
  cfg_write_rate_window :: duration
  cfg_extra_reserved :: "string list"
  cfg_allow_transfers :: bool
  cfg_grin_node_url :: "string option"
  cfg_transfer_min_conf :: u64
  cfg_transfer_max_offer_ttl :: i64
  cfg_transfer_claim_grace :: i64

type_synonym env = "string \<Rightarrow> string option"
type_synonym files = "string \<Rightarrow> string + string"

definition env_bool :: "libs \<Rightarrow> env \<Rightarrow> string \<Rightarrow> bool \<Rightarrow> bool" where
  "env_bool L E key dflt =
     (case E key of
        Some v \<Rightarrow> to_lowercase (unicode_lower L) (trim v) \<in> {''1'', ''true'', ''yes'', ''on''}
      | None \<Rightarrow> dflt)"

definition env_string :: "env \<Rightarrow> string \<Rightarrow> string \<Rightarrow> string" where
  "env_string E key dflt = (case E key of Some v \<Rightarrow> v | None \<Rightarrow> dflt)"

definition env_parse :: "(string \<Rightarrow> 'a option) \<Rightarrow> env \<Rightarrow> string \<Rightarrow> 'a \<Rightarrow> 'a" where
  "env_parse parse E key dflt =
     (case E key of
        Some v \<Rightarrow> (case parse v of Some x \<Rightarrow> x | None \<Rightarrow> dflt)
      | None \<Rightarrow> dflt)"

definition load_reserved_file :: "libs \<Rightarrow> files \<Rightarrow> string \<Rightarrow> string + string list" where
  "load_reserved_file L F path =
     (case F path of
        Inl e \<Rightarrow> Inl (''GOBLIN_RESERVED_FILE `'' @ path @ ''` unreadable: '' @ e)
      | Inr txt \<Rightarrow>
          Inr (map (to_lowercase (unicode_lower L))
                (filter (\<lambda>l. l \<noteq> [] \<and> strip_prefix ''#'' l = None)
                  (map trim (str_lines txt)))))"

text \<open>\<open>Config::validate\<close>: the first check that fails gives the error text.\<close>

definition validate :: "config \<Rightarrow> string + unit" where
  "validate cfg =
     (if cfg_domain cfg = [] then Inl ''GOBLIN_DOMAIN must not be empty''
      else case strip_prefix ''https://'' (cfg_base_url cfg) of
        None \<Rightarrow> Inl (''GOBLIN_BASE_URL must start with https:// (got `'' @ cfg_base_url cfg @ ''`)'')
      | Some host \<Rightarrow>
          if host = [] then Inl ''GOBLIN_BASE_URL has no host''
          else
            (let host_no_port = hd (split_by (\<lambda>c. c = CHR ''/'') host);
                 host_bare = hd (split_by (\<lambda>c. c = CHR '':'') host_no_port)
             in
             if host_bare \<noteq> cfg_domain cfg
             then Inl (''GOBLIN_BASE_URL host `'' @ host_bare @
                       ''` does not match GOBLIN_DOMAIN `'' @ cfg_domain cfg @ ''`'')
             else if cfg_name_min cfg = 0 \<or> cfg_name_min cfg > cfg_name_max cfg
             then Inl (''invalid name length bounds: min='' @ show_nat (cfg_name_min cfg) @
                       '' max='' @ show_nat (cfg_name_max cfg))
             else if cfg_allow_transfers cfg \<and> cfg_grin_node_url cfg = None
             then Inl (''GOBLIN_ALLOW_TRANSFERS is set but GOBLIN_GRIN_NODE_URL is empty '' @
                       ''(a Grin node foreign API is required to confirm payment kernels)'')
             else Inr ()))"

text \<open>
  \<open>Config::from_env\<close>: the part that reads the variables (the value the source builds
  before it validates), then the check.
\<close>

definition read_env :: "libs \<Rightarrow> env \<Rightarrow> files \<Rightarrow> string + config" where
  "read_env L E F =
     (let domain = env_string E ''GOBLIN_DOMAIN'' ''goblin.st'';
          extra = domain_reserved (unicode_lower L) domain;
          reserved =
            (case E ''GOBLIN_RESERVED_FILE'' of
               Some path \<Rightarrow>
                 if path \<noteq> [] then map_sum id (\<lambda>more. extra @ more) (load_reserved_file L F path)
                 else Inr extra
             | None \<Rightarrow> Inr extra)
      in case reserved of
           Inl e \<Rightarrow> Inl e
         | Inr extra_reserved \<Rightarrow> Inr
      \<lparr>cfg_domain = domain,
       cfg_base_url = env_string E ''GOBLIN_BASE_URL'' ''https://goblin.st'',
       cfg_relays = filter (\<lambda>s. s \<noteq> [])
         (map trim (split_by (\<lambda>c. c = CHR '','')
           (env_string E ''GOBLIN_RELAYS'' ''wss://relay.floonet.dev''))),
       cfg_bind_addr = env_string E ''NIP05_BIND'' ''127.0.0.1:8191'',
       cfg_db_path = env_string E ''NIP05_DB'' ''/opt/goblin/nip05d/nip05.db'',
       cfg_name_change_cooldown =
         from_secs (env_parse parse_usize E ''GOBLIN_NAME_CHANGE_COOLDOWN_SECS'' 600),
       cfg_auth_max_age_secs = env_parse parse_i64 E ''GOBLIN_AUTH_MAX_AGE_SECS'' 60,
       cfg_name_min = env_parse parse_usize E ''GOBLIN_NAME_MIN'' 3,
       cfg_name_max = env_parse parse_usize E ''GOBLIN_NAME_MAX'' 20,
       cfg_read_rate_max = env_parse parse_usize E ''GOBLIN_READ_RATE_MAX'' 120,
       cfg_read_rate_window =
         from_secs (env_parse parse_usize E ''GOBLIN_READ_RATE_WINDOW_SECS'' 60),
       cfg_write_rate_max = env_parse parse_usize E ''GOBLIN_WRITE_RATE_MAX'' 10,
       cfg_write_rate_window =
         from_secs (env_parse parse_usize E ''GOBLIN_WRITE_RATE_WINDOW_SECS'' 3600),
       cfg_extra_reserved = extra_reserved,
       cfg_allow_transfers = env_bool L E ''GOBLIN_ALLOW_TRANSFERS'' False,
       cfg_grin_node_url =
         (case map_option trim (E ''GOBLIN_GRIN_NODE_URL'') of
            Some s \<Rightarrow> if s \<noteq> [] then Some s else None | None \<Rightarrow> None),
       cfg_transfer_min_conf = env_parse parse_u64 E ''GOBLIN_TRANSFER_MIN_CONF'' 10,
       cfg_transfer_max_offer_ttl = env_parse parse_i64 E ''GOBLIN_TRANSFER_MAX_OFFER_TTL'' 2592000,
       cfg_transfer_claim_grace = env_parse parse_i64 E ''GOBLIN_TRANSFER_CLAIM_GRACE'' 86400\<rparr>)"

definition from_env :: "libs \<Rightarrow> env \<Rightarrow> files \<Rightarrow> string + config" where
  "from_env L E F =
     (case read_env L E F of
        Inl e \<Rightarrow> Inl e
      | Inr cfg \<Rightarrow> (case validate cfg of Inl e \<Rightarrow> Inl e | Inr _ \<Rightarrow> Inr cfg))"

definition grin_node_endpoints :: "config \<Rightarrow> string list" where
  "grin_node_endpoints cfg =
     filter (\<lambda>s. s \<noteq> [])
       (map trim
         (split_by (\<lambda>c. c \<in> {CHR '','', CHR '' '', CHR 0x09, CHR 0x0A})
           (case cfg_grin_node_url cfg of Some s \<Rightarrow> s | None \<Rightarrow> [])))"

definition config_for_test :: "libs \<Rightarrow> config" where
  "config_for_test L =
     \<lparr>cfg_domain = ''goblin.st'',
      cfg_base_url = ''https://goblin.st'',
      cfg_relays = [''wss://relay.floonet.dev''],
      cfg_bind_addr = ''127.0.0.1:0'',
      cfg_db_path = '':memory:'',
      cfg_name_change_cooldown = from_secs 600,
      cfg_auth_max_age_secs = 60,
      cfg_name_min = 3,
      cfg_name_max = 20,
      cfg_read_rate_max = 100000,
      cfg_read_rate_window = from_secs 60,
      cfg_write_rate_max = 100000,
      cfg_write_rate_window = from_secs 3600,
      cfg_extra_reserved = domain_reserved (unicode_lower L) ''goblin.st'',
      cfg_allow_transfers = False,
      cfg_grin_node_url = None,
      cfg_transfer_min_conf = 10,
      cfg_transfer_max_offer_ttl = 2592000,
      cfg_transfer_claim_grace = 86400\<rparr>"

section \<open>The startup log line\<close>

text \<open>
  \<open>Config::summary\<close>. Strings are printed as they are, but for the relays, which are printed
  with \<open>{:?}\<close>: quoted and escaped. On ASCII strings the escaping is exact; for others it
  depends on Unicode tables of the standard library, and \<open>dbg\<close> stands for it.
\<close>

definition hex_digit :: "nat \<Rightarrow> char" where
  "hex_digit d = char_of (if d < 10 then 48 + d else 87 + d)"

definition escape_debug :: "char \<Rightarrow> string" where
  "escape_debug c =
     (if c = CHR 0x00 then [CHR 0x5C, CHR ''0'']
      else if c = CHR 0x09 then [CHR 0x5C, CHR ''t'']
      else if c = CHR 0x0D then [CHR 0x5C, CHR ''r'']
      else if c = CHR 0x0A then [CHR 0x5C, CHR ''n'']
      else if c = CHR 0x22 \<or> c = CHR 0x5C then [CHR 0x5C, c]
      else if code c < 16 then [CHR 0x5C, CHR ''u'', CHR ''{'', hex_digit (code c), CHR ''}'']
      else if code c < 32 \<or> code c = 127
      then [CHR 0x5C, CHR ''u'', CHR ''{'', hex_digit (code c div 16), hex_digit (code c mod 16), CHR ''}'']
      else [c])"

definition debug_str :: "(string \<Rightarrow> string) \<Rightarrow> string \<Rightarrow> string" where
  "debug_str dbg s =
     (if list_all is_ascii s then CHR 0x22 # concat (map escape_debug s) @ [CHR 0x22] else dbg s)"

fun debug_items :: "(string \<Rightarrow> string) \<Rightarrow> string list \<Rightarrow> string" where
  "debug_items dbg [] = []"
| "debug_items dbg [s] = debug_str dbg s"
| "debug_items dbg (s # ss) = debug_str dbg s @ '', '' @ debug_items dbg ss"

definition show_i64 :: "i64 \<Rightarrow> string" where
  "show_i64 i = (if i < 0 then CHR ''-'' # show_nat (nat (- i)) else show_nat (nat i))"

definition as_secs :: "duration \<Rightarrow> nat" where
  "as_secs d = d div 1000000000"

definition summary :: "(string \<Rightarrow> string) \<Rightarrow> config \<Rightarrow> string" where
  "summary dbg cfg = concat
     [''domain='', cfg_domain cfg, '' base_url='', cfg_base_url cfg,
      '' relays=['', debug_items dbg (cfg_relays cfg), '']'',
      '' bind='', cfg_bind_addr cfg, '' db='', cfg_db_path cfg, '' name_len='', show_nat (cfg_name_min cfg),
      ''..='', show_nat (cfg_name_max cfg), '' cooldown='', show_nat (as_secs (cfg_name_change_cooldown cfg)),
      ''s auth_max_age='', show_i64 (cfg_auth_max_age_secs cfg),
      ''s read='', show_nat (cfg_read_rate_max cfg), ''req/'', show_nat (as_secs (cfg_read_rate_window cfg)),
      ''s write='', show_nat (cfg_write_rate_max cfg), ''req/'', show_nat (as_secs (cfg_write_rate_window cfg)),
      ''s reserved_extra='', show_nat (length (cfg_extra_reserved cfg)), '' transfers='',
      (if cfg_allow_transfers cfg
       then concat
         [''on(node='', (case cfg_grin_node_url cfg of Some url \<Rightarrow> url | None \<Rightarrow> ''-''),
          '' min_conf='', show_nat (unat (cfg_transfer_min_conf cfg)),
          '' max_ttl='', show_i64 (cfg_transfer_max_offer_ttl cfg),
          ''s grace='', show_i64 (cfg_transfer_claim_grace cfg), ''s)'']
       else ''off'')]"

text \<open>A relay cannot break the line or forge a field behind its closing quote.\<close>

lemma escape_debug_visible:
  assumes "is_ascii c"
  shows "list_all (\<lambda>x. 32 \<le> code x \<and> code x < 127) (escape_debug c)"
proof -
  have "list_all (\<lambda>c. is_ascii c \<longrightarrow> list_all (\<lambda>x. 32 \<le> code x \<and> code x < 127) (escape_debug c)) Enum.enum"
    by code_simp
  then show ?thesis using assms by (simp add: list_all_iff enum_UNIV)
qed

lemma debug_str_visible:
  assumes "list_all is_ascii s"
  shows "list_all (\<lambda>x. 32 \<le> code x \<and> code x < 127) (debug_str dbg s)"
proof -
  have "list_all (\<lambda>x. 32 \<le> code x \<and> code x < 127) (concat (map escape_debug s))"
    using assms by (induction s) (simp_all add: escape_debug_visible)
  then show ?thesis using assms by (simp add: debug_str_def)
qed

end
