(* ===== verification/Name_Store_Spec.thy ===== *)
theory Name_Store_Spec
  imports Prelude
begin

text \<open>
  What the name table promises its clients. The abstract registry maps an active name to
  the one key that owns it, and no key owns two names. Three operations change it:
  registering a free name for a key that has none, releasing a name, and transferring a
  name from its owner to a key that has none. The locale \<open>name_store\<close> is the interface
  of an implementation (the SQL statements of \<open>src/src/handlers\<close> on the table of
  \<open>src/src/db.rs\<close>): its operations either fail and change nothing or do what the
  registry does.
\<close>

section \<open>The abstract registry\<close>

type_synonym registry = "string \<rightharpoonup> string"

definition one_name_per_key :: "registry \<Rightarrow> bool" where
  "one_name_per_key m \<longleftrightarrow> inj_on m (dom m)"

lemma one_name_per_keyD: "one_name_per_key m \<Longrightarrow> m a = Some k \<Longrightarrow> m b = Some k \<Longrightarrow> a = b"
  unfolding one_name_per_key_def by (metis domI inj_onD)

lemma one_name_per_keyI: "(\<And>a b k. m a = Some k \<Longrightarrow> m b = Some k \<Longrightarrow> a = b) \<Longrightarrow> one_name_per_key m"
  by (auto simp: one_name_per_key_def inj_on_def)

inductive registry_step :: "registry \<Rightarrow> registry \<Rightarrow> bool" where
  register: "m name = None \<Longrightarrow> key \<notin> ran m \<Longrightarrow> registry_step m (m(name \<mapsto> key))"
| release: "registry_step m (m(name := None))"
| transfer: "m name = Some seller \<Longrightarrow> buyer \<notin> ran m \<or> buyer = seller \<Longrightarrow>
     registry_step m (m(name \<mapsto> buyer))"
| stay: "registry_step m m"

lemma registry_step_one_name:
  assumes "registry_step m m'" and "one_name_per_key m"
  shows "one_name_per_key m'"
  using assms
proof (induction rule: registry_step.induct)
  case (register m name key)
  then show ?case
    by (intro one_name_per_keyI) (auto simp: ran_def dest: one_name_per_keyD split: if_splits)
next
  case (release m name)
  then show ?case
    by (intro one_name_per_keyI) (auto dest: one_name_per_keyD split: if_splits)
next
  case (transfer m name seller buyer)
  then show ?case
    by (intro one_name_per_keyI) (auto simp: ran_def dest: one_name_per_keyD split: if_splits)
qed

text \<open>An owner is only replaced by releasing the name or by a transfer from that owner.\<close>

lemma registry_step_owner:
  "registry_step m m' \<Longrightarrow> m name = Some k \<Longrightarrow> m' name = Some k' \<Longrightarrow> k' \<noteq> k \<Longrightarrow>
   m' = m(name \<mapsto> k') \<and> k' \<notin> ran m"
  by (induction rule: registry_step.induct) (auto split: if_splits)

abbreviation registry_steps :: "registry \<Rightarrow> registry \<Rightarrow> bool" where
  "registry_steps \<equiv> registry_step\<^sup>*\<^sup>*"

lemma registry_steps_one_name:
  "registry_steps m m' \<Longrightarrow> one_name_per_key m \<Longrightarrow> one_name_per_key m'"
  by (induction rule: rtranclp_induct) (auto intro: registry_step_one_name)

section \<open>The interface\<close>

locale name_store =
  fixes invar :: "'s \<Rightarrow> bool"
    and owned :: "'s \<Rightarrow> registry"
    and register :: "string \<Rightarrow> string \<Rightarrow> i64 \<Rightarrow> 's \<Rightarrow> ('e + nat) \<times> 's"
    and release :: "string \<Rightarrow> i64 \<Rightarrow> 's \<Rightarrow> ('e + nat) \<times> 's"
  assumes owned_inj: "invar s \<Longrightarrow> one_name_per_key (owned s)"
    and register_invar: "invar s \<Longrightarrow> invar (snd (register a k t s))"
    and register_done: "invar s \<Longrightarrow> fst (register a k t s) = Inr 1 \<Longrightarrow>
      owned s a = None \<and> k \<notin> ran (owned s) \<and> owned (snd (register a k t s)) = (owned s)(a \<mapsto> k)"
    and register_not_done: "fst (register a k t s) \<noteq> Inr 1 \<Longrightarrow> snd (register a k t s) = s"
    and release_invar: "invar s \<Longrightarrow> invar (snd (release a t s))"
    and release_done: "invar s \<Longrightarrow> fst (release a t s) = Inr n \<Longrightarrow>
      owned (snd (release a t s)) = (owned s)(a := None)"
    and release_failed: "fst (release a t s) = Inl e \<Longrightarrow> snd (release a t s) = s"
begin

lemma register_refines:
  "invar s \<Longrightarrow> registry_step (owned s) (owned (snd (register a k t s)))"
  using register_done register_not_done registry_step.register registry_step.stay by metis

lemma release_refines:
  "invar s \<Longrightarrow> registry_step (owned s) (owned (snd (release a t s)))"
  using release_done release_failed registry_step.release registry_step.stay
  by (metis sum.exhaust)

text \<open>A released name can be registered at once by any key that has none.\<close>

lemma register_after_release:
  assumes "invar s" and "fst (release a t s) = Inr n"
    and "fst (register a k t' (snd (release a t s))) = Inr 1"
  shows "owned (snd (register a k t' (snd (release a t s)))) = (owned s)(a \<mapsto> k)"
  using assms register_done [OF release_invar [OF assms(1)] assms(3)] release_done [OF assms(1,2)]
  by simp

end

text \<open>The interface with transfers: an order names the name, its seller and its buyer.\<close>

locale transfer_store = name_store invar owned register release
  for invar :: "'s \<Rightarrow> bool"
    and owned :: "'s \<Rightarrow> registry"
    and register :: "string \<Rightarrow> string \<Rightarrow> i64 \<Rightarrow> 's \<Rightarrow> ('e + nat) \<times> 's"
    and release :: "string \<Rightarrow> i64 \<Rightarrow> 's \<Rightarrow> ('e + nat) \<times> 's" +
  fixes order_name :: "'o \<Rightarrow> string"
    and order_seller :: "'o \<Rightarrow> string"
    and order_buyer :: "'o \<Rightarrow> string"
    and transfer :: "'o \<Rightarrow> 's \<Rightarrow> ('x + unit) \<times> 's"
  assumes transfer_invar: "invar s \<Longrightarrow> invar (snd (transfer ord s))"
    and transfer_done: "invar s \<Longrightarrow> fst (transfer ord s) = Inr () \<Longrightarrow>
      owned s (order_name ord) = Some (order_seller ord) \<and>
      (order_buyer ord \<notin> ran (owned s) \<or> order_buyer ord = order_seller ord) \<and>
      owned (snd (transfer ord s)) = (owned s)(order_name ord \<mapsto> order_buyer ord)"
    and transfer_failed: "fst (transfer ord s) = Inl x \<Longrightarrow> snd (transfer ord s) = s"
begin

lemma transfer_refines:
  "invar s \<Longrightarrow> registry_step (owned s) (owned (snd (transfer ord s)))"
proof (cases "fst (transfer ord s)")
  case (Inr u)
  assume "invar s"
  with Inr show ?thesis
    using transfer_done [of s ord] registry_step.transfer by fastforce
qed (simp add: transfer_failed registry_step.stay)

text \<open>A transferred name has left its seller: the same order cannot be executed twice
  unless the seller is its own buyer.\<close>

lemma transfer_once:
  assumes "invar s" and "fst (transfer ord s) = Inr ()" and "order_buyer ord \<noteq> order_seller ord"
  shows "fst (transfer ord (snd (transfer ord s))) \<noteq> Inr ()"
  using transfer_done [OF assms(1,2)] transfer_done [OF transfer_invar [OF assms(1)]] assms(3)
  by fastforce

end

end
