(* ===== verification/Database.thy ===== *)
theory Database
  imports Name_Store_Spec
begin

text \<open>
  The SQLite layer: the tables of \<open>SCHEMA\<close> (\<open>src/src/db.rs\<close>), the queries and
  statements of \<open>db.rs\<close>, and the statements the handlers of
  \<open>src/src/handlers/registry.rs\<close> and \<open>src/src/handlers/transfer.rs\<close> execute
  themselves. A table is the list of its rows in rowid order; no statement deletes a row.
  A statement is one atomic step under the connection's mutex. The keys and unique indexes
  of the schema are checked by the statement that would break them
  (\<open>ConstraintViolation\<close>); any other failure of SQLite (disk, lock) is the
  environment's choice: \<open>io_err c k\<close> says that the \<open>k\<close>-th statement from here
  fails.
\<close>

section \<open>Tables\<close>

record name_row =
  n_name :: string
  n_pubkey :: string
  n_created_at :: i64
  n_released_at :: "i64 option"

text \<open>\<open>OfferRow\<close>, the columns of \<open>offers\<close>; \<open>status\<close> is text, as in the schema.\<close>

record offer_row =
  o_offer_id :: string
  o_event_json :: string
  o_name :: string
  o_seller_pubkey :: string
  o_buyer_pubkey :: string
  o_price_nanogrin :: i64
  o_proof_address :: string
  o_expiration :: i64
  o_status :: string
  o_end_height :: "i64 option"
  o_state_changed_at :: "i64 option"
  o_created_at :: i64

record transfer_row =
  t_offer_id :: string
  t_name :: string
  t_seller_pubkey :: string
  t_buyer_pubkey :: string
  t_price_nanogrin :: i64
  t_kernel_excess :: string
  t_kernel_height :: "i64 option"
  t_claimed_at :: i64

record conn =
  tb_names :: "name_row list"
  tb_offers :: "offer_row list"
  tb_transfers :: "transfer_row list"
  io_err :: "nat \<Rightarrow> bool"

text \<open>An empty database, as \<open>App::open\<close> leaves it with a fresh file.\<close>

definition empty_conn :: conn where
  "empty_conn = \<lparr>tb_names = [], tb_offers = [], tb_transfers = [], io_err = (\<lambda>_. False)\<rparr>"

datatype sql_error = ConstraintViolation | OtherFailure

text \<open>\<open>released_at IS NULL\<close>.\<close>

definition active :: "name_row \<Rightarrow> bool" where
  "active r \<longleftrightarrow> n_released_at r = None"

lemma active_updates [simp]:
  "active (r\<lparr>n_released_at := x\<rparr>) \<longleftrightarrow> x = None"
  "active (r\<lparr>n_pubkey := k\<rparr>) \<longleftrightarrow> active r"
  "active (r\<lparr>n_created_at := t\<rparr>) \<longleftrightarrow> active r"
  "active \<lparr>n_name = name, n_pubkey = k, n_created_at = t, n_released_at = x\<rparr> \<longleftrightarrow> x = None"
  by (simp_all add: active_def)

section \<open>Queries\<close>

text \<open>\<open>query_row(...).ok()\<close>: the first row, if the query does not fail.\<close>

definition query_row :: "(conn \<Rightarrow> 'r list) \<Rightarrow> ('r \<Rightarrow> bool) \<Rightarrow> conn \<Rightarrow> 'r option" where
  "query_row tb P c = (if io_err c 0 then None else List.find P (tb c))"

definition lookup :: "string \<Rightarrow> conn \<Rightarrow> string option" where
  "lookup name c = map_option n_pubkey (query_row tb_names (\<lambda>r. n_name r = name \<and> active r) c)"

definition name_of :: "string \<Rightarrow> conn \<Rightarrow> string option" where
  "name_of pubkey c = map_option n_name (query_row tb_names (\<lambda>r. n_pubkey r = pubkey \<and> active r) c)"

text \<open>A row of \<open>offers\<close> is read column by column; a column of another type is an error, which
  \<open>.ok()\<close> turns into no row.\<close>

datatype sql_value = SqlNull | SqlInteger i64 | SqlText string

fun text_column :: "sql_value \<Rightarrow> string option" where
  "text_column (SqlText s) = Some s"
| "text_column _ = None"

fun integer_column :: "sql_value \<Rightarrow> i64 option" where
  "integer_column (SqlInteger i) = Some i"
| "integer_column _ = None"

fun optional_column :: "sql_value \<Rightarrow> i64 option option" where
  "optional_column SqlNull = Some None"
| "optional_column (SqlInteger i) = Some (Some i)"
| "optional_column (SqlText _) = None"

definition sql_optional :: "i64 option \<Rightarrow> sql_value" where
  "sql_optional x = (case x of None \<Rightarrow> SqlNull | Some i \<Rightarrow> SqlInteger i)"

definition offer_columns :: "offer_row \<Rightarrow> sql_value list" where
  "offer_columns r =
     [SqlText (o_offer_id r), SqlText (o_event_json r), SqlText (o_name r),
      SqlText (o_seller_pubkey r), SqlText (o_buyer_pubkey r), SqlInteger (o_price_nanogrin r),
      SqlText (o_proof_address r), SqlInteger (o_expiration r), SqlText (o_status r),
      sql_optional (o_end_height r), sql_optional (o_state_changed_at r), SqlInteger (o_created_at r)]"

definition map_offer :: "sql_value list \<Rightarrow> offer_row option" where
  "map_offer r =
     Option.bind (text_column (r ! 0)) (\<lambda>offer_id.
     Option.bind (text_column (r ! 1)) (\<lambda>event_json.
     Option.bind (text_column (r ! 2)) (\<lambda>name.
     Option.bind (text_column (r ! 3)) (\<lambda>seller_pubkey.
     Option.bind (text_column (r ! 4)) (\<lambda>buyer_pubkey.
     Option.bind (integer_column (r ! 5)) (\<lambda>price_nanogrin.
     Option.bind (text_column (r ! 6)) (\<lambda>proof_address.
     Option.bind (integer_column (r ! 7)) (\<lambda>expiration.
     Option.bind (text_column (r ! 8)) (\<lambda>status.
     Option.bind (optional_column (r ! 9)) (\<lambda>end_height.
     Option.bind (optional_column (r ! 10)) (\<lambda>state_changed_at.
     Option.bind (integer_column (r ! 11)) (\<lambda>created_at.
     Some \<lparr>o_offer_id = offer_id, o_event_json = event_json, o_name = name,
       o_seller_pubkey = seller_pubkey, o_buyer_pubkey = buyer_pubkey,
       o_price_nanogrin = price_nanogrin, o_proof_address = proof_address,
       o_expiration = expiration, o_status = status, o_end_height = end_height,
       o_state_changed_at = state_changed_at, o_created_at = created_at\<rparr>))))))))))))"

definition get_offer :: "string \<Rightarrow> conn \<Rightarrow> offer_row option" where
  "get_offer offer_id c =
     Option.bind (query_row tb_offers (\<lambda>r. o_offer_id r = offer_id) c)
       (\<lambda>row. map_offer (offer_columns row))"

lemma optional_column_sql [simp]: "optional_column (sql_optional x) = Some x"
  by (cases x) (simp_all add: sql_optional_def)

lemma map_offer_columns [simp]: "map_offer (offer_columns r) = Some r"
  by (simp add: map_offer_def offer_columns_def)

lemma get_offer_row: "get_offer offer_id c = query_row tb_offers (\<lambda>r. o_offer_id r = offer_id) c"
  unfolding get_offer_def map_offer_columns by (cases "query_row tb_offers (\<lambda>r. o_offer_id r = offer_id) c") simp_all

definition live_offer_for_name :: "string \<Rightarrow> i64 \<Rightarrow> conn \<Rightarrow> bool" where
  "live_offer_for_name name now c \<longleftrightarrow>
     query_row tb_offers (\<lambda>r. o_name r = name \<and> o_status r = ''live'' \<and> o_expiration r \<ge> now) c
       \<noteq> None"

definition live_offer_binding :: "string \<Rightarrow> i64 \<Rightarrow> conn \<Rightarrow> bool" where
  "live_offer_binding proof_address now c \<longleftrightarrow>
     query_row tb_offers
       (\<lambda>r. o_proof_address r = proof_address \<and> o_status r = ''live'' \<and> o_expiration r \<ge> now) c
       \<noteq> None"

definition transfer_for_offer :: "string \<Rightarrow> conn \<Rightarrow> (string \<times> string \<times> string) option" where
  "transfer_for_offer offer_id c =
     map_option (\<lambda>t. (t_kernel_excess t, t_name t, t_buyer_pubkey t))
       (query_row tb_transfers (\<lambda>t. t_offer_id t = offer_id) c)"

definition excess_used :: "string \<Rightarrow> conn \<Rightarrow> bool" where
  "excess_used excess_hex c \<longleftrightarrow>
     query_row tb_transfers (\<lambda>t. t_kernel_excess t = excess_hex) c \<noteq> None"

section \<open>Statements\<close>

definition update_rows :: "('r \<Rightarrow> bool) \<Rightarrow> ('r \<Rightarrow> 'r) \<Rightarrow> 'r list \<Rightarrow> 'r list" where
  "update_rows P f rows = map (\<lambda>r. if P r then f r else r) rows"

text \<open>A row of another name holds the key: what the partial unique index
  \<open>idx_active_pubkey\<close> refuses to an active row of \<open>name\<close>.\<close>

definition pubkey_active_elsewhere :: "string \<Rightarrow> string \<Rightarrow> name_row list \<Rightarrow> bool" where
  "pubkey_active_elsewhere pubkey name rows \<longleftrightarrow>
     list_ex (\<lambda>r. active r \<and> n_pubkey r = pubkey \<and> n_name r \<noteq> name) rows"

text \<open>
  The upsert of \<open>registry::register\<close>. SQLite checks the upsert's conflict target (the
  primary key \<open>name\<close>) first: a conflicting row is updated when its \<open>released_at\<close>
  is set and left alone otherwise; the insert or the update then meets the partial index.
\<close>

definition register_name :: "string \<Rightarrow> string \<Rightarrow> i64 \<Rightarrow> conn \<Rightarrow> (sql_error + nat) \<times> conn" where
  "register_name name pubkey now c =
     (if io_err c 0 then (Inl OtherFailure, c)
      else case List.find (\<lambda>r. n_name r = name) (tb_names c) of
        Some r \<Rightarrow>
          if active r then (Inr 0, c)
          else if pubkey_active_elsewhere pubkey name (tb_names c)
          then (Inl ConstraintViolation, c)
          else (Inr 1, c\<lparr>tb_names := update_rows (\<lambda>r. n_name r = name)
                 (\<lambda>r. r\<lparr>n_pubkey := pubkey, n_created_at := now, n_released_at := None\<rparr>)
                 (tb_names c)\<rparr>)
      | None \<Rightarrow>
          if pubkey_active_elsewhere pubkey name (tb_names c)
          then (Inl ConstraintViolation, c)
          else (Inr 1, c\<lparr>tb_names := tb_names c @
                 [\<lparr>n_name = name, n_pubkey = pubkey, n_created_at = now, n_released_at = None\<rparr>]\<rparr>))"

text \<open>The update of \<open>registry::unregister\<close>.\<close>

definition release_name :: "string \<Rightarrow> i64 \<Rightarrow> conn \<Rightarrow> (sql_error + nat) \<times> conn" where
  "release_name name now c =
     (if io_err c 0 then (Inl OtherFailure, c)
      else (Inr (length (filter (\<lambda>r. n_name r = name \<and> active r) (tb_names c))),
            c\<lparr>tb_names := update_rows (\<lambda>r. n_name r = name \<and> active r)
                (\<lambda>r. r\<lparr>n_released_at := Some now\<rparr>) (tb_names c)\<rparr>))"

definition insert_offer ::
  "string \<Rightarrow> string \<Rightarrow> string \<Rightarrow> string \<Rightarrow> string \<Rightarrow> i64 \<Rightarrow> string \<Rightarrow> i64 \<Rightarrow> i64 \<Rightarrow> conn \<Rightarrow>
   (sql_error + nat) \<times> conn" where
  "insert_offer offer_id event_json name seller_pubkey buyer_pubkey price_nanogrin proof_address
     expiration created_at c =
     (if io_err c 0 then (Inl OtherFailure, c)
      else if list_ex (\<lambda>r. o_offer_id r = offer_id) (tb_offers c)
      then (Inl ConstraintViolation, c)
      else (Inr 1, c\<lparr>tb_offers := tb_offers c @
             [\<lparr>o_offer_id = offer_id, o_event_json = event_json, o_name = name,
               o_seller_pubkey = seller_pubkey, o_buyer_pubkey = buyer_pubkey,
               o_price_nanogrin = price_nanogrin, o_proof_address = proof_address,
               o_expiration = expiration, o_status = ''live'', o_end_height = None,
               o_state_changed_at = None, o_created_at = created_at\<rparr>]\<rparr>))"

definition mark_offer_dead ::
  "string \<Rightarrow> string \<Rightarrow> i64 option \<Rightarrow> i64 \<Rightarrow> conn \<Rightarrow> (sql_error + nat) \<times> conn" where
  "mark_offer_dead offer_id status end_height state_changed_at c =
     (if io_err c 0 then (Inl OtherFailure, c)
      else (Inr (length (filter (\<lambda>r. o_offer_id r = offer_id \<and> o_status r = ''live'') (tb_offers c))),
            c\<lparr>tb_offers := update_rows (\<lambda>r. o_offer_id r = offer_id \<and> o_status r = ''live'')
                (\<lambda>r. r\<lparr>o_status := status, o_end_height := end_height,
                        o_state_changed_at := Some state_changed_at\<rparr>) (tb_offers c)\<rparr>))"

text \<open>The update \<open>transfer::revoke_offer\<close> does on an offer it has read as no longer live.\<close>

definition flip_to_revoked :: "string \<Rightarrow> conn \<Rightarrow> (sql_error + nat) \<times> conn" where
  "flip_to_revoked offer_id c =
     (if io_err c 0 then (Inl OtherFailure, c)
      else (Inr (length (filter (\<lambda>r. o_offer_id r = offer_id) (tb_offers c))),
            c\<lparr>tb_offers := update_rows (\<lambda>r. o_offer_id r = offer_id)
                (\<lambda>r. r\<lparr>o_status := ''revoked''\<rparr>) (tb_offers c)\<rparr>))"

section \<open>The claim transaction\<close>

text \<open>\<open>transfer::run_claim_txn\<close> and its three statements, on the transaction's working
  copy; an error leaves the connection as it was before the transaction.\<close>

datatype tx_err = OwnerChanged | BuyerHasName | Reused | TxDb

definition reassign_name :: "offer_row \<Rightarrow> i64 \<Rightarrow> conn \<Rightarrow> sql_error + (nat \<times> conn)" where
  "reassign_name offer now c =
     (let hit = (\<lambda>r. n_name r = o_name offer \<and> n_pubkey r = o_seller_pubkey offer \<and> active r);
          n = length (filter hit (tb_names c))
      in if n \<noteq> 0 \<and> pubkey_active_elsewhere (o_buyer_pubkey offer) (o_name offer) (tb_names c)
         then Inl ConstraintViolation
         else Inr (n, c\<lparr>tb_names := update_rows hit
                (\<lambda>r. r\<lparr>n_pubkey := o_buyer_pubkey offer, n_created_at := now\<rparr>) (tb_names c)\<rparr>))"

definition insert_transfer ::
  "offer_row \<Rightarrow> string \<Rightarrow> i64 option \<Rightarrow> i64 \<Rightarrow> conn \<Rightarrow> sql_error + conn" where
  "insert_transfer offer excess_hex kernel_height now c =
     (if list_ex (\<lambda>t. t_offer_id t = o_offer_id offer \<or> t_kernel_excess t = excess_hex) (tb_transfers c)
      then Inl ConstraintViolation
      else Inr (c\<lparr>tb_transfers := tb_transfers c @
             [\<lparr>t_offer_id = o_offer_id offer, t_name = o_name offer,
               t_seller_pubkey = o_seller_pubkey offer, t_buyer_pubkey = o_buyer_pubkey offer,
               t_price_nanogrin = o_price_nanogrin offer, t_kernel_excess = excess_hex,
               t_kernel_height = kernel_height, t_claimed_at = now\<rparr>]\<rparr>))"

definition consume_offer :: "offer_row \<Rightarrow> conn \<Rightarrow> conn" where
  "consume_offer offer c =
     c\<lparr>tb_offers := update_rows (\<lambda>r. o_offer_id r = o_offer_id offer)
        (\<lambda>r. r\<lparr>o_status := ''consumed''\<rparr>) (tb_offers c)\<rparr>"

definition run_claim_txn ::
  "offer_row \<Rightarrow> string \<Rightarrow> i64 option \<Rightarrow> i64 \<Rightarrow> conn \<Rightarrow> (tx_err + unit) \<times> conn" where
  "run_claim_txn offer excess_hex kernel_height now c =
     (if io_err c 0 then (Inl TxDb, c)
      else case (if io_err c 1 then Inl OtherFailure else reassign_name offer now c) of
        Inl ConstraintViolation \<Rightarrow> (Inl BuyerHasName, c)
      | Inl OtherFailure \<Rightarrow> (Inl TxDb, c)
      | Inr (updated, c1) \<Rightarrow>
          if updated \<noteq> 1 then (Inl OwnerChanged, c)
          else case (if io_err c 2 then Inl OtherFailure
                     else insert_transfer offer excess_hex kernel_height now c1) of
            Inl ConstraintViolation \<Rightarrow> (Inl Reused, c)
          | Inl OtherFailure \<Rightarrow> (Inl TxDb, c)
          | Inr c2 \<Rightarrow>
              if io_err c 3 then (Inl TxDb, c)
              else if io_err c 4 then (Inl TxDb, c)
              else (Inr (), consume_offer offer c2))"

lemmas query_defs [sql_defs] =
  query_row_def lookup_def name_of_def get_offer_row live_offer_for_name_def
  live_offer_binding_def transfer_for_offer_def excess_used_def

lemmas statement_defs [sql_defs] =
  register_name_def release_name_def insert_offer_def mark_offer_dead_def flip_to_revoked_def

lemmas txn_defs =
  reassign_name_def insert_transfer_def consume_offer_def run_claim_txn_def

section \<open>The names table\<close>

text \<open>What the schema enforces of \<open>names\<close>: the primary key and the partial unique
  index on the keys of the active rows.\<close>

definition names_inv :: "name_row list \<Rightarrow> bool" where
  "names_inv rows \<longleftrightarrow>
     distinct (map n_name rows) \<and> distinct (map n_pubkey (filter active rows))"

lemma names_inv_iff:
  "names_inv rows \<longleftrightarrow> distinct (map n_name rows) \<and>
     (\<forall>r \<in> set rows. \<forall>r' \<in> set rows.
        active r \<longrightarrow> active r' \<longrightarrow> n_pubkey r = n_pubkey r' \<longrightarrow> n_name r = n_name r')"
    (is "_ \<longleftrightarrow> ?d \<and> ?u")
proof (cases ?d)
  case True
  then have inj: "r = r'" if "r \<in> set rows" "r' \<in> set rows" "n_name r = n_name r'" for r r'
    using that by (rule distinct_map_eqD)
  have "distinct (filter active rows)" using True by (simp add: distinct_map)
  then have "distinct (map n_pubkey (filter active rows)) \<longleftrightarrow> ?u"
    using inj by (fastforce simp: distinct_map inj_on_def)
  with True show ?thesis by (simp add: names_inv_def)
qed (simp add: names_inv_def)

lemma names_invI:
  assumes "distinct (map n_name rows)"
    and "\<And>r r'. r \<in> set rows \<Longrightarrow> r' \<in> set rows \<Longrightarrow> active r \<Longrightarrow> active r' \<Longrightarrow>
      n_pubkey r = n_pubkey r' \<Longrightarrow> n_name r = n_name r'"
  shows "names_inv rows"
  unfolding names_inv_iff using assms by blast

lemma names_inv_distinct: "names_inv rows \<Longrightarrow> distinct (map n_name rows)"
  by (simp add: names_inv_def)

lemma names_inv_unique:
  "names_inv rows \<Longrightarrow> r \<in> set rows \<Longrightarrow> r' \<in> set rows \<Longrightarrow> active r \<Longrightarrow> active r' \<Longrightarrow>
   n_pubkey r = n_pubkey r' \<Longrightarrow> n_name r = n_name r'"
  unfolding names_inv_iff by blast

lemma names_inv_row:
  "names_inv rows \<Longrightarrow> r \<in> set rows \<Longrightarrow> r' \<in> set rows \<Longrightarrow> n_name r = n_name r' \<Longrightarrow> r = r'"
  by (rule distinct_map_eqD [OF names_inv_distinct])

text \<open>The registry a table stands for.\<close>

definition owner_of :: "name_row list \<Rightarrow> registry" where
  "owner_of rows name =
     map_option n_pubkey (List.find (\<lambda>r. n_name r = name \<and> active r) rows)"

definition owned :: "conn \<Rightarrow> registry" where
  "owned c = owner_of (tb_names c)"

lemma owner_of_Some:
  assumes "names_inv rows"
  shows "owner_of rows name = Some k \<longleftrightarrow>
    (\<exists>r \<in> set rows. n_name r = name \<and> active r \<and> n_pubkey r = k)"
proof
  assume "\<exists>r \<in> set rows. n_name r = name \<and> active r \<and> n_pubkey r = k"
  then obtain r where r: "r \<in> set rows" "n_name r = name" "active r" "n_pubkey r = k" by blast
  have "List.find (\<lambda>r. n_name r = name \<and> active r) rows = Some r"
    using assms r by (intro find_eq_SomeI) (auto simp: names_inv_def intro: distinct_map_eqD)
  with r show "owner_of rows name = Some k" by (simp add: owner_of_def)
qed (auto simp: owner_of_def dest: find_SomeD)

lemma owner_of_None:
  "owner_of rows name = None \<longleftrightarrow> (\<forall>r \<in> set rows. n_name r = name \<longrightarrow> \<not> active r)"
  by (auto simp: owner_of_def find_None_iff)

lemma owner_of_one_name: "names_inv rows \<Longrightarrow> one_name_per_key (owner_of rows)"
  by (intro one_name_per_keyI) (metis names_inv_unique owner_of_Some)

lemma ran_owner_of:
  "names_inv rows \<Longrightarrow> k \<in> ran (owner_of rows) \<longleftrightarrow> (\<exists>r \<in> set rows. active r \<and> n_pubkey r = k)"
  by (auto simp: ran_def owner_of_Some)

text \<open>Reads that do not fail see the registry.\<close>

lemma lookup_owned: "lookup name c = (if io_err c 0 then None else owned c name)"
  by (simp add: lookup_def query_row_def owned_def owner_of_def)

lemma lookup_SomeD: "lookup name c = Some k \<Longrightarrow> owned c name = Some k"
  by (simp add: lookup_owned split: if_splits)

lemma name_of_SomeD:
  assumes "names_inv (tb_names c)" and "name_of k c = Some name"
  shows "owned c name = Some k"
  using assms
  by (auto simp: name_of_def query_row_def owned_def owner_of_Some split: if_splits dest!: find_SomeD)

lemma name_of_None:
  assumes "names_inv (tb_names c)" and "\<not> io_err c 0"
  shows "name_of k c = None \<longleftrightarrow> k \<notin> ran (owned c)"
  using assms
  by (auto simp: name_of_def query_row_def owned_def ran_owner_of find_None_iff)

lemma name_of_owned:
  assumes "names_inv (tb_names c)" and "\<not> io_err c 0" and "owned c name = Some k"
  shows "name_of k c = Some name"
proof -
  have "k \<in> ran (owned c)" using assms(3) by (rule ranI)
  then obtain n where "name_of k c = Some n"
    using name_of_None [OF assms(1,2), of k] by (cases "name_of k c") auto
  moreover from this have "owned c n = Some k" by (rule name_of_SomeD [OF assms(1)])
  moreover have "n = name" if "owned c n = Some k"
    by (rule inj_onD [OF owner_of_one_name [OF assms(1), unfolded one_name_per_key_def]])
       (use that assms(3) in \<open>auto simp: owned_def\<close>)
  ultimately show ?thesis by simp
qed

section \<open>Updates of rows\<close>

lemma map_update_rows: "(\<And>r. P r \<Longrightarrow> g (f r) = g r) \<Longrightarrow> map g (update_rows P f rows) = map g rows"
  by (simp add: update_rows_def)

lemma set_update_rows:
  "r' \<in> set (update_rows P f rows) \<longleftrightarrow>
     (\<exists>r \<in> set rows. (P r \<and> r' = f r) \<or> (\<not> P r \<and> r' = r))"
  by (auto simp: update_rows_def)

lemma update_rows_none: "(\<And>r. r \<in> set rows \<Longrightarrow> \<not> P r) \<Longrightarrow> update_rows P f rows = rows"
  by (simp add: update_rows_def map_idI)

text \<open>
  The three changes of \<open>names\<close>: a row is appended, one row is given an owner, a row is
  released. Each keeps the invariant, and the registry changes at that name only.
\<close>

lemma names_inv_append:
  assumes "names_inv rows" and "\<forall>r \<in> set rows. n_name r \<noteq> name"
    and "\<not> pubkey_active_elsewhere k name rows"
    and "n_name new = name" and "n_pubkey new = k" and "active new"
  shows "names_inv (rows @ [new])" and "owner_of (rows @ [new]) = (owner_of rows)(name \<mapsto> k)"
proof -
  have elsewhere: "\<not> (active r \<and> n_pubkey r = k)" if "r \<in> set rows" for r
    using assms(2,3) that by (auto simp: pubkey_active_elsewhere_def list_ex_iff)
  show inv: "names_inv (rows @ [new])"
  proof (rule names_invI)
    show "distinct (map n_name (rows @ [new]))"
      using names_inv_distinct [OF assms(1)] assms(2,4) by auto
  next
    fix r r' assume *: "r \<in> set (rows @ [new])" "r' \<in> set (rows @ [new])" "active r" "active r'"
      "n_pubkey r = n_pubkey r'"
    consider "r = new" "r' = new" | "r = new" "r' \<in> set rows" | "r \<in> set rows" "r' = new"
      | "r \<in> set rows" "r' \<in> set rows"
      using *(1,2) by auto
    then show "n_name r = n_name r'"
    proof cases
      case 2
      then show ?thesis using elsewhere [of r'] *(4,5) assms(5) by simp
    next
      case 3
      then show ?thesis using elsewhere [of r] *(3,5) assms(5) by simp
    next
      case 4
      then show ?thesis using *(3-5) by (rule names_inv_unique [OF assms(1)])
    qed simp
  qed
  show "owner_of (rows @ [new]) = (owner_of rows)(name \<mapsto> k)"
  proof (rule map_eqI)
    fix a b
    show "owner_of (rows @ [new]) a = Some b \<longleftrightarrow> ((owner_of rows)(name \<mapsto> k)) a = Some b"
      using assms by (auto simp: owner_of_Some [OF inv] owner_of_Some [OF assms(1)])
  qed
qed

text \<open>One row of a name is rewritten: the other rows stay, this one changes.\<close>

lemma set_owner_rows:
  assumes "names_inv rows" and "r0 \<in> set rows" and "hit r0" and "n_name r0 = name"
    and "\<And>r. hit r \<Longrightarrow> n_name r = name"
  shows "r' \<in> set (update_rows hit f rows) \<longleftrightarrow> r' = f r0 \<or> (r' \<in> set rows \<and> n_name r' \<noteq> name)"
proof
  have only: "r = r0" if "r \<in> set rows" "n_name r = name" for r
    using names_inv_row [OF assms(1) that(1) assms(2)] assms(4) that(2) by simp
  assume "r' \<in> set (update_rows hit f rows)"
  then obtain r where r: "r \<in> set rows" "(hit r \<and> r' = f r) \<or> (\<not> hit r \<and> r' = r)"
    unfolding set_update_rows by blast
  show "r' = f r0 \<or> (r' \<in> set rows \<and> n_name r' \<noteq> name)"
  proof (cases "n_name r = name")
    case True
    with r only have "r = r0" by blast
    with r(2) assms(3) show ?thesis by simp
  next
    case False
    with r assms(5) show ?thesis by blast
  qed
next
  assume "r' = f r0 \<or> (r' \<in> set rows \<and> n_name r' \<noteq> name)"
  then show "r' \<in> set (update_rows hit f rows)"
    using assms(2,3,5) unfolding set_update_rows by blast
qed

lemma names_inv_set_owner:
  assumes "names_inv rows" and "r0 \<in> set rows" and "hit r0" and "n_name r0 = name"
    and "\<And>r. hit r \<Longrightarrow> n_name r = name"
    and "\<And>r. n_name (f r) = n_name r" and "\<And>r. hit r \<Longrightarrow> n_pubkey (f r) = k \<and> active (f r)"
    and "\<not> pubkey_active_elsewhere k name rows"
  shows "names_inv (update_rows hit f rows)"
    and "owner_of (update_rows hit f rows) = (owner_of rows)(name \<mapsto> k)"
proof -
  have names: "map n_name (update_rows hit f rows) = map n_name rows"
    using assms(6) by (intro map_update_rows)
  have elsewhere: "\<not> (active r \<and> n_pubkey r = k)" if "r \<in> set rows" "n_name r \<noteq> name" for r
    using assms(8) that by (auto simp: pubkey_active_elsewhere_def list_ex_iff)
  have mem: "r' \<in> set (update_rows hit f rows) \<longleftrightarrow> r' = f r0 \<or> (r' \<in> set rows \<and> n_name r' \<noteq> name)" for r'
    by (rule set_owner_rows [where hit = hit]) (fact assms(1-5))+
  show inv: "names_inv (update_rows hit f rows)"
  proof (rule names_invI)
    show "distinct (map n_name (update_rows hit f rows))"
      using names_inv_distinct [OF assms(1)] by (simp add: names)
  next
    fix r r' assume *: "r \<in> set (update_rows hit f rows)" "r' \<in> set (update_rows hit f rows)"
      "active r" "active r'" "n_pubkey r = n_pubkey r'"
    have f: "n_pubkey (f r0) = k" using assms(7) [OF assms(3)] by simp
    consider "r = f r0" "r' = f r0" | "r = f r0" "r' \<in> set rows" "n_name r' \<noteq> name"
      | "r \<in> set rows" "n_name r \<noteq> name" "r' = f r0" | "r \<in> set rows" "r' \<in> set rows"
      using *(1,2) unfolding mem by blast
    then show "n_name r = n_name r'"
    proof cases
      case 2
      then show ?thesis using elsewhere [of r'] *(4,5) f by simp
    next
      case 3
      then show ?thesis using elsewhere [of r] *(3,5) f by simp
    next
      case 4
      then show ?thesis using *(3-5) by (rule names_inv_unique [OF assms(1)])
    qed simp
  qed
  show "owner_of (update_rows hit f rows) = (owner_of rows)(name \<mapsto> k)"
  proof (rule map_eqI)
    fix a b
    show "owner_of (update_rows hit f rows) a = Some b \<longleftrightarrow>
        ((owner_of rows)(name \<mapsto> k)) a = Some b"
      using assms(6) [of r0] assms(7) [OF assms(3)] assms(4)
      by (auto simp: owner_of_Some [OF inv] owner_of_Some [OF assms(1)] mem)
  qed
qed

lemma names_inv_release:
  fixes name :: string
  assumes "names_inv rows"
    and "\<And>r. n_name (f r) = n_name r" and "\<And>r. \<not> active (f r)"
  defines "rows' \<equiv> update_rows (\<lambda>r. n_name r = name \<and> active r) f rows"
  shows "names_inv rows'" and "owner_of rows' = (owner_of rows)(name := None)"
proof -
  have names: "map n_name rows' = map n_name rows"
    using assms(2) unfolding rows'_def by (intro map_update_rows)
  have mem: "r' \<in> set rows' \<and> active r' \<longleftrightarrow> r' \<in> set rows \<and> active r' \<and> n_name r' \<noteq> name" for r'
    using assms(3) unfolding rows'_def set_update_rows by blast
  show inv: "names_inv rows'"
  proof (rule names_invI)
    show "distinct (map n_name rows')"
      using names_inv_distinct [OF assms(1)] by (simp add: names)
  qed (use mem names_inv_unique [OF assms(1)] in blast)
  show "owner_of rows' = (owner_of rows)(name := None)"
  proof (rule map_eqI)
    fix a b
    show "owner_of rows' a = Some b \<longleftrightarrow> ((owner_of rows)(name := None)) a = Some b"
      using mem by (auto simp: owner_of_Some [OF inv] owner_of_Some [OF assms(1)])
  qed
qed

section \<open>The statements and the registry\<close>

lemma register_name_cases:
  assumes "fst (register_name name k t c) = Inr 1" and "names_inv (tb_names c)"
  shows "owned c name = None" and "k \<notin> ran (owned c)"
    and "names_inv (tb_names (snd (register_name name k t c)))"
    and "owned (snd (register_name name k t c)) = (owned c)(name \<mapsto> k)"
proof -
  let ?rows = "tb_names c" and ?c' = "snd (register_name name k t c)"
  have io: "\<not> io_err c 0" and free: "\<not> pubkey_active_elsewhere k name ?rows"
    and inactive: "\<forall>r \<in> set ?rows. n_name r = name \<longrightarrow> \<not> active r"
    using assms
    by (auto simp: register_name_def find_None_iff split: if_splits option.splits
             dest: names_inv_row dest!: find_SomeD)
  show none: "owned c name = None"
    using inactive by (simp add: owned_def owner_of_None)
  show "k \<notin> ran (owned c)"
    using free inactive
    by (auto simp: owned_def ran_owner_of [OF assms(2)] pubkey_active_elsewhere_def list_ex_iff)
  have "names_inv (tb_names ?c') \<and> owner_of (tb_names ?c') = (owner_of ?rows)(name \<mapsto> k)"
  proof (cases "List.find (\<lambda>r. n_name r = name) ?rows")
    case None
    then have "\<forall>r \<in> set ?rows. n_name r \<noteq> name" by (auto simp: find_None_iff)
    then show ?thesis
      using None io free names_inv_append [OF assms(2) _ free, of "\<lparr>n_name = name, n_pubkey = k,
        n_created_at = t, n_released_at = None\<rparr>"]
      by (simp add: register_name_def)
  next
    case (Some r0)
    then have "r0 \<in> set ?rows" "n_name r0 = name" by (auto dest: find_SomeD)
    moreover from this inactive have "\<not> active r0" by blast
    ultimately show ?thesis
      using Some io free inactive names_inv_set_owner [OF assms(2) \<open>r0 \<in> set ?rows\<close>
        , of "\<lambda>r. n_name r = name" name
          "\<lambda>r. r\<lparr>n_pubkey := k, n_created_at := t, n_released_at := None\<rparr>" k]
      by (simp add: register_name_def)
  qed
  then show "names_inv (tb_names ?c')" and "owned ?c' = (owned c)(name \<mapsto> k)"
    by (simp_all add: owned_def)
qed

lemma register_name_not_done: "fst (register_name name k t c) \<noteq> Inr 1 \<Longrightarrow> snd (register_name name k t c) = c"
  by (auto simp: register_name_def split: option.splits)

lemma release_name_names:
  assumes "names_inv (tb_names c)" and "fst (release_name name t c) = Inr n"
  shows "names_inv (tb_names (snd (release_name name t c)))"
    and "owned (snd (release_name name t c)) = (owned c)(name := None)"
  using assms names_inv_release [OF assms(1), of "\<lambda>r. r\<lparr>n_released_at := Some t\<rparr>" name]
  by (auto simp: release_name_def owned_def split: if_splits)

lemma release_name_failed: "fst (release_name name t c) = Inl e \<Longrightarrow> snd (release_name name t c) = c"
  by (auto simp: release_name_def split: if_splits)

text \<open>What a committed claim transaction has done, and that a failed one did nothing.\<close>

abbreviation sold_row :: "offer_row \<Rightarrow> name_row \<Rightarrow> bool" where
  "sold_row offer r \<equiv> n_name r = o_name offer \<and> n_pubkey r = o_seller_pubkey offer \<and> active r"

definition transfer_record :: "offer_row \<Rightarrow> string \<Rightarrow> i64 option \<Rightarrow> i64 \<Rightarrow> transfer_row" where
  "transfer_record offer excess_hex kernel_height now =
     \<lparr>t_offer_id = o_offer_id offer, t_name = o_name offer,
      t_seller_pubkey = o_seller_pubkey offer, t_buyer_pubkey = o_buyer_pubkey offer,
      t_price_nanogrin = o_price_nanogrin offer, t_kernel_excess = excess_hex,
      t_kernel_height = kernel_height, t_claimed_at = now\<rparr>"

lemma run_claim_txn_failed:
  "fst (run_claim_txn offer ex kh now c) = Inl e \<Longrightarrow> snd (run_claim_txn offer ex kh now c) = c"
  by (auto simp: run_claim_txn_def split: if_splits sum.splits sql_error.splits prod.splits)

lemma run_claim_txn_done:
  assumes "fst (run_claim_txn offer ex kh now c) = Inr ()"
  shows "length (filter (sold_row offer) (tb_names c)) = 1"
    and "\<not> pubkey_active_elsewhere (o_buyer_pubkey offer) (o_name offer) (tb_names c)"
    and "\<forall>t \<in> set (tb_transfers c). t_offer_id t \<noteq> o_offer_id offer \<and> t_kernel_excess t \<noteq> ex"
    and "snd (run_claim_txn offer ex kh now c) = c\<lparr>
      tb_names := update_rows (sold_row offer)
        (\<lambda>r. r\<lparr>n_pubkey := o_buyer_pubkey offer, n_created_at := now\<rparr>) (tb_names c),
      tb_offers := update_rows (\<lambda>r. o_offer_id r = o_offer_id offer)
        (\<lambda>r. r\<lparr>o_status := ''consumed''\<rparr>) (tb_offers c),
      tb_transfers := tb_transfers c @ [transfer_record offer ex kh now]\<rparr>"
  using assms
  by (auto simp: run_claim_txn_def reassign_name_def insert_transfer_def consume_offer_def
        transfer_record_def Let_def list_ex_iff
      split: if_splits sum.splits sql_error.splits prod.splits)

lemma run_claim_txn_names:
  assumes "fst (run_claim_txn offer ex kh now c) = Inr ()" and "names_inv (tb_names c)"
  shows "owned c (o_name offer) = Some (o_seller_pubkey offer)"
    and "o_buyer_pubkey offer \<notin> ran (owned c) \<or> o_buyer_pubkey offer = o_seller_pubkey offer"
    and "names_inv (tb_names (snd (run_claim_txn offer ex kh now c)))"
    and "owned (snd (run_claim_txn offer ex kh now c)) =
      (owned c)(o_name offer \<mapsto> o_buyer_pubkey offer)"
proof -
  note txn = run_claim_txn_done [OF assms(1)]
  have "filter (sold_row offer) (tb_names c) \<noteq> []"
    using txn(1) by (metis length_0_conv zero_neq_one)
  then obtain r0 where r0: "r0 \<in> set (tb_names c)" "sold_row offer r0"
    by (auto simp: filter_empty_conv)
  show owner: "owned c (o_name offer) = Some (o_seller_pubkey offer)"
    using r0 by (auto simp: owned_def owner_of_Some [OF assms(2)])
  show "o_buyer_pubkey offer \<notin> ran (owned c) \<or> o_buyer_pubkey offer = o_seller_pubkey offer"
  proof (cases "o_buyer_pubkey offer \<in> ran (owned c)")
    case True
    then obtain r where r: "r \<in> set (tb_names c)" "active r" "n_pubkey r = o_buyer_pubkey offer"
      by (auto simp: owned_def ran_owner_of [OF assms(2)])
    with txn(2) have "n_name r = o_name offer"
      by (auto simp: pubkey_active_elsewhere_def list_ex_iff)
    with r r0 have "r = r0" using names_inv_row [OF assms(2)] by simp
    with r r0 show ?thesis by simp
  qed simp
  have "names_inv (update_rows (sold_row offer)
        (\<lambda>r. r\<lparr>n_pubkey := o_buyer_pubkey offer, n_created_at := now\<rparr>) (tb_names c)) \<and>
      owner_of (update_rows (sold_row offer)
        (\<lambda>r. r\<lparr>n_pubkey := o_buyer_pubkey offer, n_created_at := now\<rparr>) (tb_names c)) =
      (owner_of (tb_names c))(o_name offer \<mapsto> o_buyer_pubkey offer)"
    using names_inv_set_owner [OF assms(2) r0(1), of "sold_row offer" "o_name offer"
        "\<lambda>r. r\<lparr>n_pubkey := o_buyer_pubkey offer, n_created_at := now\<rparr>" "o_buyer_pubkey offer"]
      r0(2) txn(2) by simp
  then show "names_inv (tb_names (snd (run_claim_txn offer ex kh now c)))"
    and "owned (snd (run_claim_txn offer ex kh now c)) =
      (owned c)(o_name offer \<mapsto> o_buyer_pubkey offer)"
    by (simp_all add: owned_def txn(4))
qed

section \<open>The invariant of the whole database\<close>

definition offer_statuses :: "string set" where
  "offer_statuses = {''live'', ''consumed'', ''revoked'', ''expired''}"

definition offers_inv :: "offer_row list \<Rightarrow> bool" where
  "offers_inv rows \<longleftrightarrow>
     distinct (map o_offer_id rows) \<and> list_all (\<lambda>r. o_status r \<in> offer_statuses) rows"

definition transfers_inv :: "transfer_row list \<Rightarrow> bool" where
  "transfers_inv rows \<longleftrightarrow> distinct (map t_offer_id rows) \<and> distinct (map t_kernel_excess rows)"

text \<open>A consumed offer has its transfer record.\<close>

definition consumed_recorded :: "conn \<Rightarrow> bool" where
  "consumed_recorded c \<longleftrightarrow>
     list_all (\<lambda>r. o_status r = ''consumed'' \<longrightarrow> o_offer_id r \<in> t_offer_id ` set (tb_transfers c))
       (tb_offers c)"

definition db_inv :: "conn \<Rightarrow> bool" where
  "db_inv c \<longleftrightarrow> names_inv (tb_names c) \<and> offers_inv (tb_offers c) \<and>
     transfers_inv (tb_transfers c) \<and> consumed_recorded c"

lemma db_inv_empty: "db_inv empty_conn"
  by (simp add: db_inv_def empty_conn_def names_inv_def offers_inv_def transfers_inv_def
      consumed_recorded_def)

lemma db_inv_names: "db_inv c \<Longrightarrow> names_inv (tb_names c)"
  by (simp add: db_inv_def)

text \<open>What no statement touches or takes back: rows stay, an offer keeps its terms, a dead
  offer stays dead with the death record it has, a transfer record stays as it is.\<close>

definition terms :: "offer_row \<Rightarrow> offer_row" where
  "terms r = r\<lparr>o_status := [], o_end_height := None, o_state_changed_at := None\<rparr>"

definition offer_le :: "offer_row \<Rightarrow> offer_row \<Rightarrow> bool" where
  "offer_le r r' \<longleftrightarrow> terms r = terms r' \<and>
     (o_status r \<noteq> ''live'' \<longrightarrow>
        o_status r' \<noteq> ''live'' \<and> o_end_height r' = o_end_height r \<and>
        o_state_changed_at r' = o_state_changed_at r)"

definition rows_le :: "('r \<Rightarrow> 'r \<Rightarrow> bool) \<Rightarrow> 'r list \<Rightarrow> 'r list \<Rightarrow> bool" where
  "rows_le le xs ys \<longleftrightarrow> length xs \<le> length ys \<and> (\<forall>i < length xs. le (xs ! i) (ys ! i))"

definition db_le :: "conn \<Rightarrow> conn \<Rightarrow> bool" where
  "db_le c c' \<longleftrightarrow>
     rows_le (\<lambda>r r'. n_name r = n_name r') (tb_names c) (tb_names c') \<and>
     rows_le offer_le (tb_offers c) (tb_offers c') \<and>
     rows_le (=) (tb_transfers c) (tb_transfers c')"

lemma offer_le_refl [simp]: "offer_le r r"
  by (simp add: offer_le_def)

lemma offer_le_trans: "offer_le r r' \<Longrightarrow> offer_le r' r'' \<Longrightarrow> offer_le r r''"
  by (auto simp: offer_le_def)

lemma rows_le_refl: "(\<And>r. le r r) \<Longrightarrow> rows_le le xs xs"
  by (simp add: rows_le_def)

lemma rows_le_trans:
  assumes "\<And>a b c. le a b \<Longrightarrow> le b c \<Longrightarrow> le a c" and "rows_le le xs ys" and "rows_le le ys zs"
  shows "rows_le le xs zs"
  using assms(2,3) assms(1) unfolding rows_le_def by (meson le_trans order_less_le_trans)

lemma rows_le_append: "(\<And>r. le r r) \<Longrightarrow> rows_le le xs (xs @ ys)"
  by (auto simp: rows_le_def nth_append)

lemma rows_le_update: "(\<And>r. le r r) \<Longrightarrow> (\<And>r. P r \<Longrightarrow> le r (f r)) \<Longrightarrow> rows_le le xs (update_rows P f xs)"
  by (auto simp: rows_le_def update_rows_def)

lemma rows_leD: "rows_le le xs ys \<Longrightarrow> r \<in> set xs \<Longrightarrow> \<exists>r' \<in> set ys. le r r'"
  unfolding rows_le_def by (metis in_set_conv_nth order_less_le_trans)

lemma db_le_refl [simp]: "db_le c c"
  by (simp add: db_le_def rows_le_refl)

lemma db_le_trans: "db_le c c' \<Longrightarrow> db_le c' c'' \<Longrightarrow> db_le c c''"
  unfolding db_le_def
  by (intro conjI; elim conjE; erule (1) rows_le_trans [rotated]; auto intro: offer_le_trans)

lemma db_le_transfers: "db_le c c' \<Longrightarrow> t \<in> set (tb_transfers c) \<Longrightarrow> t \<in> set (tb_transfers c')"
  unfolding db_le_def by (blast dest: rows_leD)

lemma db_le_offers:
  "db_le c c' \<Longrightarrow> r \<in> set (tb_offers c) \<Longrightarrow> \<exists>r' \<in> set (tb_offers c'). offer_le r r'"
  unfolding db_le_def by (blast dest: rows_leD)

section \<open>Every statement keeps the invariant\<close>

lemma offers_inv_update:
  "offers_inv rows \<Longrightarrow> (\<And>r. o_offer_id (f r) = o_offer_id r) \<Longrightarrow>
   (\<And>r. P r \<Longrightarrow> o_status (f r) \<in> offer_statuses) \<Longrightarrow> offers_inv (update_rows P f rows)"
  by (auto simp: offers_inv_def map_update_rows list_all_iff set_update_rows)

lemma register_name_frame:
  "tb_offers (snd (register_name name k t c)) = tb_offers c"
  "tb_transfers (snd (register_name name k t c)) = tb_transfers c"
  by (simp_all add: register_name_def split: option.splits)

lemma register_name_db_inv: "db_inv c \<Longrightarrow> db_inv (snd (register_name name k t c))"
  using register_name_cases(3) [of name k t c] register_name_not_done [of name k t c]
  by (cases "fst (register_name name k t c) = Inr 1")
     (simp_all add: db_inv_def consumed_recorded_def register_name_frame)

lemma register_name_db_le: "db_le c (snd (register_name name k t c))"
  by (auto simp: register_name_def db_le_def split: option.splits
      intro!: rows_le_refl rows_le_append rows_le_update)

lemma release_name_frame:
  "tb_offers (snd (release_name name t c)) = tb_offers c"
  "tb_transfers (snd (release_name name t c)) = tb_transfers c"
  by (simp_all add: release_name_def)

lemma release_name_db_inv: "db_inv c \<Longrightarrow> db_inv (snd (release_name name t c))"
  using release_name_names(1) [of c name t] release_name_failed [of name t c]
  by (cases "fst (release_name name t c)")
     (simp_all add: db_inv_def consumed_recorded_def release_name_frame)

lemma release_name_db_le: "db_le c (snd (release_name name t c))"
  by (auto simp: release_name_def db_le_def intro!: rows_le_refl rows_le_update)

lemma insert_offer_frame:
  "tb_names (snd (insert_offer i e n s b p a x t c)) = tb_names c"
  "tb_transfers (snd (insert_offer i e n s b p a x t c)) = tb_transfers c"
  by (simp_all add: insert_offer_def)

lemma insert_offer_db_inv: "db_inv c \<Longrightarrow> db_inv (snd (insert_offer i e n s b p a x t c))"
  by (auto simp: db_inv_def insert_offer_def offers_inv_def consumed_recorded_def list_ex_iff
      list_all_iff offer_statuses_def)

lemma insert_offer_db_le: "db_le c (snd (insert_offer i e n s b p a x t c))"
  by (auto simp: insert_offer_def db_le_def intro!: rows_le_refl rows_le_append)

lemma mark_offer_dead_frame:
  "tb_names (snd (mark_offer_dead i st h t c)) = tb_names c"
  "tb_transfers (snd (mark_offer_dead i st h t c)) = tb_transfers c"
  by (simp_all add: mark_offer_dead_def)

lemma mark_offer_dead_db_inv:
  "db_inv c \<Longrightarrow> st \<in> {''revoked'', ''expired''} \<Longrightarrow> db_inv (snd (mark_offer_dead i st h t c))"
  by (auto simp: db_inv_def mark_offer_dead_def consumed_recorded_def list_all_iff set_update_rows
      offer_statuses_def intro!: offers_inv_update)

lemma mark_offer_dead_db_le: "db_le c (snd (mark_offer_dead i st h t c))"
  by (auto simp: mark_offer_dead_def db_le_def offer_le_def terms_def
      intro!: rows_le_refl rows_le_update)

lemma flip_to_revoked_frame:
  "tb_names (snd (flip_to_revoked i c)) = tb_names c"
  "tb_transfers (snd (flip_to_revoked i c)) = tb_transfers c"
  by (simp_all add: flip_to_revoked_def)

lemma flip_to_revoked_db_inv: "db_inv c \<Longrightarrow> db_inv (snd (flip_to_revoked i c))"
  by (auto simp: db_inv_def flip_to_revoked_def consumed_recorded_def list_all_iff set_update_rows
      offer_statuses_def intro!: offers_inv_update)

lemma flip_to_revoked_db_le: "db_le c (snd (flip_to_revoked i c))"
  by (auto simp: flip_to_revoked_def db_le_def offer_le_def terms_def
      intro!: rows_le_refl rows_le_update)

lemma run_claim_txn_db_inv: "db_inv c \<Longrightarrow> db_inv (snd (run_claim_txn offer ex kh now c))"
proof (cases "fst (run_claim_txn offer ex kh now c)")
  case (Inr u)
  then have ok: "fst (run_claim_txn offer ex kh now c) = Inr ()" by simp
  assume inv: "db_inv c"
  note txn = run_claim_txn_done [OF ok]
  have "offers_inv (tb_offers (snd (run_claim_txn offer ex kh now c)))"
    using inv by (auto simp: txn(4) db_inv_def offer_statuses_def intro!: offers_inv_update)
  moreover have "transfers_inv (tb_transfers (snd (run_claim_txn offer ex kh now c)))"
    using inv txn(3) by (auto simp: txn(4) db_inv_def transfers_inv_def transfer_record_def)
  moreover have "consumed_recorded (snd (run_claim_txn offer ex kh now c))"
    using inv
    by (auto simp: txn(4) db_inv_def consumed_recorded_def list_all_iff set_update_rows
        transfer_record_def)
  ultimately show ?thesis
    using run_claim_txn_names(3) [OF ok] inv by (simp add: db_inv_def)
qed (simp add: run_claim_txn_failed)

lemma run_claim_txn_db_le:
  "db_le c (snd (run_claim_txn offer ex kh now c))"
proof (cases "fst (run_claim_txn offer ex kh now c)")
  case (Inr u)
  then have ok: "fst (run_claim_txn offer ex kh now c) = Inr ()" by simp
  show ?thesis
    unfolding run_claim_txn_done(4) [OF ok] db_le_def
    by (auto simp: offer_le_def terms_def intro!: rows_le_update rows_le_append)
qed (simp add: run_claim_txn_failed)

section \<open>The database implements the interfaces\<close>

text \<open>A transfer order: the offer, the excess and height of the paying kernel, the time.\<close>

type_synonym claim_order = "offer_row \<times> string \<times> i64 option \<times> i64"

definition order_offer :: "claim_order \<Rightarrow> offer_row" where
  "order_offer ord = fst ord"

definition execute_claim :: "claim_order \<Rightarrow> conn \<Rightarrow> (tx_err + unit) \<times> conn" where
  "execute_claim ord c = (case ord of (offer, ex, kh, now) \<Rightarrow> run_claim_txn offer ex kh now c)"

interpretation db: transfer_store db_inv owned register_name release_name
  "\<lambda>ord. o_name (order_offer ord)" "\<lambda>ord. o_seller_pubkey (order_offer ord)"
  "\<lambda>ord. o_buyer_pubkey (order_offer ord)" execute_claim
proof unfold_locales
  fix s :: conn and a k :: string and t :: i64
  assume inv: "db_inv s"
  show "one_name_per_key (owned s)"
    using inv by (simp add: owned_def owner_of_one_name db_inv_names)
  show "db_inv (snd (register_name a k t s))" using inv by (rule register_name_db_inv)
  show "db_inv (snd (release_name a t s))" using inv by (rule release_name_db_inv)
  show "owned s a = None \<and> k \<notin> ran (owned s) \<and>
      owned (snd (register_name a k t s)) = (owned s)(a \<mapsto> k)"
    if "fst (register_name a k t s) = Inr 1"
    using register_name_cases [OF that db_inv_names [OF inv]] by simp
  show "owned (snd (release_name a t s)) = (owned s)(a := None)"
    if "fst (release_name a t s) = Inr n" for n
    using release_name_names(2) [OF db_inv_names [OF inv] that] .
next
  fix s :: conn and ord :: claim_order
  assume inv: "db_inv s"
  obtain offer ex kh now where ord: "ord = (offer, ex, kh, now)" by (cases ord)
  show "db_inv (snd (execute_claim ord s))"
    using run_claim_txn_db_inv [OF inv] by (simp add: ord execute_claim_def)
  show "owned s (o_name (order_offer ord)) = Some (o_seller_pubkey (order_offer ord)) \<and>
      (o_buyer_pubkey (order_offer ord) \<notin> ran (owned s) \<or>
       o_buyer_pubkey (order_offer ord) = o_seller_pubkey (order_offer ord)) \<and>
      owned (snd (execute_claim ord s)) =
        (owned s)(o_name (order_offer ord) \<mapsto> o_buyer_pubkey (order_offer ord))"
    if "fst (execute_claim ord s) = Inr ()"
    using run_claim_txn_names [OF _ db_inv_names [OF inv]] that
    by (simp add: ord execute_claim_def order_offer_def)
qed (auto simp: register_name_not_done release_name_failed execute_claim_def run_claim_txn_failed
     split: prod.splits)

end
