(* ===== verification/Node.thy ===== *)
theory Node
  imports Externals
begin

text \<open>
  The Grin node, \<open>src/src/node.rs\<close>: the \<open>ChainSource\<close> interface a claim needs, the
  JSON-RPC client with its failover over the configured endpoints, and the scriptable
  source of the tests. The HTTP exchange itself (\<open>reqwest\<close>) is the parameter
  \<open>transport\<close>: what one POST to an endpoint comes back with. The locale
  \<open>chain_source_laws\<close> states what the claim handler may rely on; both sources meet it.
\<close>

section \<open>The interface\<close>

record kernel_result =
  k_found :: bool
  k_confirmations :: u64
  k_height :: "u64 option"

definition kernel_not_found :: kernel_result where
  "kernel_not_found = \<lparr>k_found = False, k_confirmations = 0, k_height = None\<rparr>"

text \<open>A \<open>dyn ChainSource\<close>: its two queries, each an error text or an answer.\<close>

record chain_source =
  cs_kernel :: "string \<Rightarrow> string + kernel_result"
  cs_tip_height :: "string + u64"

locale chain_source_laws =
  fixes src :: chain_source
  assumes absent_kernel: "cs_kernel src ex = Inr k \<Longrightarrow> \<not> k_found k \<Longrightarrow>
    k_confirmations k = 0 \<and> k_height k = None"
begin

text \<open>With a positive \<open>min_conf\<close> the confirmations alone decide.\<close>

lemma confirmed_is_found:
  "cs_kernel src ex = Inr k \<Longrightarrow> 0 < min_conf \<Longrightarrow> min_conf \<le> k_confirmations k \<Longrightarrow> k_found k"
  using absent_kernel word_not_simps(1) by force

lemma height_is_found: "cs_kernel src ex = Inr k \<Longrightarrow> k_height k = Some h \<Longrightarrow> k_found k"
  using absent_kernel by force

end

section \<open>The client\<close>

datatype http_reply =
    TransportError string
  | Reply (reply_code: nat) (reply_code_text: string) (reply_json: "string + json")

text \<open>endpoint, method, parameters\<close>

type_synonym transport = "string \<Rightarrow> string \<Rightarrow> json \<Rightarrow> http_reply"

text \<open>The \<open>{ Ok | Err }\<close> envelope of a JSON-RPC result.\<close>

definition unwrap_result :: "libs \<Rightarrow> string \<Rightarrow> json \<Rightarrow> string + json" where
  "unwrap_result L method value =
     (let result = (case json_get ''result'' value of Some r \<Rightarrow> r | None \<Rightarrow> JNull) in
      case json_get ''Err'' result of
        Some inner_err \<Rightarrow> Inl (method @ '' Err: '' @ json_to_string L inner_err)
      | None \<Rightarrow> Inr (case json_get ''Ok'' result of Some v \<Rightarrow> v | None \<Rightarrow> result))"

definition rpc :: "libs \<Rightarrow> transport \<Rightarrow> string \<Rightarrow> string \<Rightarrow> json \<Rightarrow> string + json" where
  "rpc L T endpoint method params =
     (case T endpoint method params of
        TransportError e \<Rightarrow> Inl (method @ '' transport: '' @ e)
      | Reply rcode rtext rbody \<Rightarrow>
          if \<not> (200 \<le> rcode \<and> rcode < 300) then Inl (method @ '' HTTP '' @ rtext)
          else (case rbody of
              Inl e \<Rightarrow> Inl (method @ '' decode: '' @ e)
            | Inr value \<Rightarrow>
                (case json_get ''error'' value of
                   Some er \<Rightarrow>
                     if er \<noteq> JNull then Inl (method @ '' error: '' @ json_to_string L er)
                     else unwrap_result L method value
                 | None \<Rightarrow> unwrap_result L method value)))"

text \<open>\<open>(tip.saturating_sub(h) + 1).max(1)\<close> on \<open>u64\<close>, the addition wrapping.\<close>

definition confirmations_at :: "u64 \<Rightarrow> u64 \<Rightarrow> u64" where
  "confirmations_at tip h = max ((if h \<le> tip then tip - h else 0) + 1) 1"

definition kernel_one :: "libs \<Rightarrow> transport \<Rightarrow> string \<Rightarrow> string \<Rightarrow> string + kernel_result" where
  "kernel_one L T endpoint excess_hex =
     (case rpc L T endpoint ''get_kernel'' (JArray [JString excess_hex, JNull, JNull]) of
        Inl e \<Rightarrow> Inl e
      | Inr krn \<Rightarrow>
          if krn = JNull then Inr kernel_not_found
          else
            (let height =
               (case Option.bind (json_at 1 krn) as_u64 of
                  Some h \<Rightarrow> Some h
                | None \<Rightarrow> Option.bind (json_get ''height'' krn) as_u64)
             in case rpc L T endpoint ''get_tip'' (JArray []) of
                  Inl e \<Rightarrow> Inl e
                | Inr tip \<Rightarrow>
                    (case (height, Option.bind (json_get ''height'' tip) as_u64) of
                       (Some h, Some tip_h) \<Rightarrow>
                         Inr \<lparr>k_found = True, k_confirmations = confirmations_at tip_h h,
                              k_height = Some h\<rparr>
                     | (h, _) \<Rightarrow> Inr \<lparr>k_found = True, k_confirmations = 1, k_height = h\<rparr>)))"

text \<open>The two loops over the endpoints, with the last error as the accumulator.\<close>

fun kernel_loop :: "libs \<Rightarrow> transport \<Rightarrow> string \<Rightarrow> string list \<Rightarrow> string \<Rightarrow> string + kernel_result" where
  "kernel_loop L T excess_hex [] last_err = Inl last_err"
| "kernel_loop L T excess_hex (endpoint # rest) last_err =
     (case kernel_one L T endpoint excess_hex of
        Inr res \<Rightarrow> Inr res
      | Inl e \<Rightarrow> kernel_loop L T excess_hex rest e)"

fun tip_loop :: "libs \<Rightarrow> transport \<Rightarrow> string list \<Rightarrow> string \<Rightarrow> string + u64" where
  "tip_loop L T [] last_err = Inl last_err"
| "tip_loop L T (endpoint # rest) last_err =
     (case rpc L T endpoint ''get_tip'' (JArray []) of
        Inr tip \<Rightarrow>
          (case Option.bind (json_get ''height'' tip) as_u64 of
             Some h \<Rightarrow> Inr h
           | None \<Rightarrow> tip_loop L T rest ''get_tip: height missing'')
      | Inl e \<Rightarrow> tip_loop L T rest e)"

definition node_client :: "libs \<Rightarrow> transport \<Rightarrow> string list \<Rightarrow> chain_source" where
  "node_client L T endpoints =
     \<lparr>cs_kernel = (\<lambda>ex. kernel_loop L T ex endpoints ''no node endpoints configured''),
      cs_tip_height = tip_loop L T endpoints ''no node endpoints configured''\<rparr>"

section \<open>The test source\<close>

record test_chain_source =
  ts_tip :: u64
  ts_kernels :: "string \<rightharpoonup> u64 \<times> u64"
  ts_tip_fails :: bool

definition test_source_new :: "u64 \<Rightarrow> test_chain_source" where
  "test_source_new tip = \<lparr>ts_tip = tip, ts_kernels = Map.empty, ts_tip_fails = False\<rparr>"

definition set_kernel :: "libs \<Rightarrow> string \<Rightarrow> u64 \<Rightarrow> u64 \<Rightarrow> test_chain_source \<Rightarrow> test_chain_source" where
  "set_kernel L excess_hex height confirmations t =
     t\<lparr>ts_kernels := (ts_kernels t)(to_lowercase (unicode_lower L) excess_hex \<mapsto> (height, confirmations))\<rparr>"

definition set_tip :: "u64 \<Rightarrow> test_chain_source \<Rightarrow> test_chain_source" where
  "set_tip tip t = t\<lparr>ts_tip := tip\<rparr>"

definition fail_tip :: "bool \<Rightarrow> test_chain_source \<Rightarrow> test_chain_source" where
  "fail_tip fail t = t\<lparr>ts_tip_fails := fail\<rparr>"

definition test_chain :: "libs \<Rightarrow> test_chain_source \<Rightarrow> chain_source" where
  "test_chain L t =
     \<lparr>cs_kernel = (\<lambda>excess_hex.
        case ts_kernels t (to_lowercase (unicode_lower L) excess_hex) of
          Some (height, confirmations) \<Rightarrow>
            Inr \<lparr>k_found = True, k_confirmations = confirmations, k_height = Some height\<rparr>
        | None \<Rightarrow> Inr kernel_not_found),
      cs_tip_height =
        (if ts_tip_fails t then Inl ''test node tip unreachable'' else Inr (ts_tip t))\<rparr>"

section \<open>What the client returns\<close>

lemma kernel_one_absent:
  "kernel_one L T endpoint ex = Inr k \<Longrightarrow> \<not> k_found k \<Longrightarrow> k = kernel_not_found"
  by (auto simp: kernel_one_def Let_def split: sum.splits if_splits option.splits)

lemma confirmations_at_pos: "1 \<le> confirmations_at tip h"
  by (simp add: confirmations_at_def)

lemma kernel_one_confirmations:
  "kernel_one L T endpoint ex = Inr k \<Longrightarrow> k_found k \<Longrightarrow> 1 \<le> k_confirmations k"
  by (auto simp: kernel_one_def Let_def kernel_not_found_def confirmations_at_pos
      split: sum.splits if_splits option.splits)

text \<open>The depth of a kernel at or below the tip, as a number.\<close>

lemma unat_confirmations_at:
  assumes "h \<le> tip" and "unat tip - unat h < 2 ^ 64 - 1"
  shows "unat (confirmations_at tip h) = unat tip - unat h + 1"
proof -
  have "unat (tip - h) = unat tip - unat h"
    using assms(1) by (simp add: unat_sub_if_size word_le_nat_alt)
  then have "unat (tip - h + 1) = unat tip - unat h + 1"
    using assms(2) by (simp add: unat_word_ariths)
  then show ?thesis
    using assms(1) by (simp add: confirmations_at_def max_def word_le_nat_alt)
qed

text \<open>Failover: the answer is that of the first endpoint that answers.\<close>

lemma kernel_loop_Inr:
  "kernel_loop L T ex endpoints e = Inr k \<longleftrightarrow>
     (\<exists>b. List.find (\<lambda>b. \<not> isl (kernel_one L T b ex)) endpoints = Some b \<and>
          kernel_one L T b ex = Inr k)"
  by (induction endpoints arbitrary: e) (auto split: sum.splits)

lemma kernel_loop_isl:
  "isl (kernel_loop L T ex endpoints e) \<longleftrightarrow> (\<forall>b \<in> set endpoints. isl (kernel_one L T b ex))"
  by (induction endpoints arbitrary: e) (auto split: sum.splits)

text \<open>\<open>tip_height\<close> goes on to the next endpoint also when an answer has no height.\<close>

definition tip_at :: "libs \<Rightarrow> transport \<Rightarrow> string \<Rightarrow> u64 option" where
  "tip_at L T endpoint =
     (case rpc L T endpoint ''get_tip'' (JArray []) of
        Inl _ \<Rightarrow> None
      | Inr tip \<Rightarrow> Option.bind (json_get ''height'' tip) as_u64)"

lemma tip_loop_Inr:
  "tip_loop L T endpoints e = Inr h \<longleftrightarrow>
     (\<exists>b. List.find (\<lambda>b. tip_at L T b \<noteq> None) endpoints = Some b \<and> tip_at L T b = Some h)"
proof (induction endpoints arbitrary: e)
  case (Cons a endpoints)
  show ?case
  proof (cases "rpc L T a ''get_tip'' (JArray [])")
    case (Inl m)
    with Cons show ?thesis by (simp add: tip_at_def)
  next
    case (Inr tip)
    with Cons show ?thesis
      by (cases "Option.bind (json_get ''height'' tip) as_u64") (simp_all add: tip_at_def)
  qed
qed simp

lemma kernel_loop_no_endpoint: "kernel_loop L T ex [] e = Inl e"
  by simp

interpretation node: chain_source_laws "node_client L T endpoints"
  for L T endpoints
  by unfold_locales
     (auto simp: node_client_def kernel_loop_Inr kernel_not_found_def dest!: kernel_one_absent)

interpretation scripted: chain_source_laws "test_chain L t"
  for L t
  by unfold_locales (auto simp: test_chain_def kernel_not_found_def split: option.splits)

end
