(* ===== verification/Interleaving.thy ===== *)
theory Interleaving
  imports Prelude
begin

text \<open>
  Handlers as sequences of atomic steps. A handler of the source takes and releases a mutex
  around every statement (\<open>self.db.lock()\<close>, \<open>self.rate.lock()\<close>) and awaits the
  Grin node, so other requests run between any two of its accesses to the shared state. A
  handler is therefore a \<open>prog\<close>: it returns, or it does one atomic step on the shared
  state and goes on. \<open>run\<close> executes a handler alone; \<open>sched\<close> interleaves the
  steps of any number of handlers with changes of the environment. \<open>rg\<close>
  states what each step of a handler guarantees when the others interfere, and the locale
  \<open>rely_guarantee\<close> lifts it to every state any interleaving reaches.
\<close>

section \<open>Programs\<close>

datatype ('s, 'r) prog = Ret 'r | Step "'s \<Rightarrow> 's \<times> ('s, 'r) prog"

lemma prog_induct [case_names Ret Step]:
  assumes "\<And>r. P (Ret r)" and "\<And>f. (\<And>s. P (snd (f s))) \<Longrightarrow> P (Step f)"
  shows "P p"
proof (induction p)
  case (Step f)
  have "P (snd (f s))" for s
    by (rule Step.IH [of "f s"]) (simp_all add: snds.simps)
  then show ?case by (rule assms(2))
qed (rule assms(1))

text \<open>One atomic operation, whose result the rest of the handler takes.\<close>

definition act :: "('s \<Rightarrow> 'x \<times> 's) \<Rightarrow> ('x \<Rightarrow> ('s, 'r) prog) \<Rightarrow> ('s, 'r) prog" where
  "act f k = Step (\<lambda>s. (snd (f s), k (fst (f s))))"

text \<open>An atomic read: the state stays.\<close>

definition get :: "('s \<Rightarrow> 'x) \<Rightarrow> ('x \<Rightarrow> ('s, 'r) prog) \<Rightarrow> ('s, 'r) prog" where
  "get f k = act (\<lambda>s. (f s, s)) k"

text \<open>A handler that calls a helper made of several steps.\<close>

primrec call :: "('s, 'a) prog \<Rightarrow> ('a \<Rightarrow> ('s, 'r) prog) \<Rightarrow> ('s, 'r) prog" where
  "call (Ret x) = (\<lambda>k. k x)"
| "call (Step f) = (\<lambda>k. Step (\<lambda>s. map_prod id (\<lambda>g. g k) (map_prod id call (f s))))"

primrec run :: "('s, 'r) prog \<Rightarrow> 's \<Rightarrow> 'r \<times> 's" where
  "run (Ret r) = (\<lambda>s. (r, s))"
| "run (Step f) = (\<lambda>s. (\<lambda>(s', m). m s') (map_prod id run (f s)))"

lemma run_act [simp]: "run (act f k) s = run (k (fst (f s))) (snd (f s))"
  by (simp add: act_def case_prod_beta)

lemma run_get [simp]: "run (get f k) s = run (k (f s)) s"
  by (simp add: get_def)

lemma call_act [simp]: "call (act f h) k = act f (\<lambda>x. call (h x) k)"
  by (simp add: act_def map_prod_def)

lemma call_get [simp]: "call (get f h) k = get f (\<lambda>x. call (h x) k)"
  by (simp add: get_def)

lemma run_Step: "run (Step f) s = run (snd (f s)) (fst (f s))"
  by (simp add: case_prod_beta)

lemma call_Step: "call (Step f) k = Step (\<lambda>s. (fst (f s), call (snd (f s)) k))"
  by (simp add: map_prod_def case_prod_beta)

declare run.simps(2) [simp del] call.simps(2) [simp del]

lemma run_call [simp]: "run (call p k) s = (case run p s of (x, s') \<Rightarrow> run (k x) s')"
  by (induction p arbitrary: s rule: prog_induct) (simp_all add: run_Step call_Step)

section \<open>What a program guarantees\<close>

text \<open>
  \<open>rg R G Q p s0\<close>: \<open>p\<close> goes on in state \<open>s0\<close>, and before each of its steps
  the others may take the state from \<open>s0\<close> to any \<open>s\<close> with \<open>R s0 s\<close> (the
  rely). Then every atomic step of \<open>p\<close> satisfies \<open>G\<close> (the guarantee), and its
  result satisfies \<open>Q\<close> in the state its last step leaves. What a step has read of
  \<open>s0\<close> is known later as far as \<open>R\<close> keeps it.
\<close>

primrec rg ::
  "('s \<Rightarrow> 's \<Rightarrow> bool) \<Rightarrow> ('s \<Rightarrow> 's \<Rightarrow> bool) \<Rightarrow> ('r \<Rightarrow> 's \<Rightarrow> bool) \<Rightarrow>
   ('s, 'r) prog \<Rightarrow> 's \<Rightarrow> bool" where
  "rg R G Q (Ret r) = (\<lambda>s0. Q r s0)"
| "rg R G Q (Step f) =
     (\<lambda>s0. \<forall>s. R s0 s \<longrightarrow> (case map_prod id (rg R G Q) (f s) of (s', m) \<Rightarrow> G s s' \<and> m s'))"

lemma rg_Step:
  "rg R G Q (Step f) s0 \<longleftrightarrow>
     (\<forall>s. R s0 s \<longrightarrow> G s (fst (f s)) \<and> rg R G Q (snd (f s)) (fst (f s)))"
  by (simp add: case_prod_beta)

declare rg.simps(2) [simp del]

lemma rg_act:
  "rg R G Q (act f k) s0 \<longleftrightarrow>
     (\<forall>s. R s0 s \<longrightarrow> G s (snd (f s)) \<and> rg R G Q (k (fst (f s))) (snd (f s)))"
  unfolding act_def rg_Step by simp

lemma rg_actI:
  assumes "\<And>s. R s0 s \<Longrightarrow> G s (snd (f s))"
    and "\<And>s. R s0 s \<Longrightarrow> rg R G Q (k (fst (f s))) (snd (f s))"
  shows "rg R G Q (act f k) s0"
  using assms by (simp add: rg_act)

lemma rg_getI:
  assumes "\<And>s. R s0 s \<Longrightarrow> G s s" and "\<And>s. R s0 s \<Longrightarrow> rg R G Q (k (f s)) s"
  shows "rg R G Q (get f k) s0"
  using assms by (simp add: get_def rg_act)

lemma rg_callI:
  assumes "rg R G Q' p s0" and "\<And>x s. Q' x s \<Longrightarrow> rg R G Q (k x) s"
  shows "rg R G Q (call p k) s0"
  using assms(1)
proof (induction p arbitrary: s0 rule: prog_induct)
  case (Step f)
  then show ?case by (simp add: call_Step rg_Step)
qed (use assms(2) in simp)

lemma rg_mono:
  assumes "rg R G Q p s0" and "\<And>s s'. G s s' \<Longrightarrow> G' s s'" and "\<And>r s. Q r s \<Longrightarrow> Q' r s"
  shows "rg R G' Q' p s0"
  using assms(1)
proof (induction p arbitrary: s0 rule: prog_induct)
  case (Step f)
  then show ?case using assms(2) by (simp add: rg_Step)
qed (use assms(3) in simp)

section \<open>Interleavings\<close>

text \<open>
  A configuration is the shared state and the handlers in flight. A request that arrives
  adds a handler of the admitted kind \<open>A\<close>; any unfinished handler may do its next
  atomic step; the environment \<open>E\<close> (clocks, the Grin node, disk errors) may change the
  state between steps.
\<close>

inductive sched ::
  "('s \<Rightarrow> 's \<Rightarrow> bool) \<Rightarrow> (('s, 'r) prog \<Rightarrow> bool) \<Rightarrow>
   's \<times> ('s, 'r) prog list \<Rightarrow> 's \<times> ('s, 'r) prog list \<Rightarrow> bool"
  for E A where
  arrive: "A p \<Longrightarrow> sched E A (s, ps) (s, ps @ [p])"
| exec: "i < length ps \<Longrightarrow> ps ! i = Step f \<Longrightarrow>
     sched E A (s, ps) (fst (f s), ps[i := snd (f s)])"
| environ: "E s s' \<Longrightarrow> sched E A (s, ps) (s', ps)"

lemma sched_act: "sched E A (s, [act f k]) (snd (f s), [k (fst (f s))])"
  using sched.exec [of 0 "[act f k]" _ E A s] by (simp add: act_def)

text \<open>What any number of steps reaches.\<close>

abbreviation scheds ::
  "('s \<Rightarrow> 's \<Rightarrow> bool) \<Rightarrow> (('s, 'r) prog \<Rightarrow> bool) \<Rightarrow>
   's \<times> ('s, 'r) prog list \<Rightarrow> 's \<times> ('s, 'r) prog list \<Rightarrow> bool" where
  "scheds E A \<equiv> (sched E A)\<^sup>*\<^sup>*"

text \<open>Running one handler alone is one of the interleavings.\<close>

lemma scheds_run:
  assumes "i < length ps" and "ps ! i = p"
  shows "scheds E A (s, ps) (snd (run p s), ps[i := Ret (fst (run p s))])"
  using assms
proof (induction p arbitrary: s ps rule: prog_induct)
  case (Ret r)
  then have "ps[i := Ret r] = ps" by (metis list_update_id)
  then show ?case by simp
next
  case (Step f)
  let ?ps = "ps[i := snd (f s)]"
  have "sched E A (s, ps) (fst (f s), ?ps)"
    using Step.prems by (intro exec) auto
  moreover have "scheds E A (fst (f s), ?ps)
      (snd (run (snd (f s)) (fst (f s))), ?ps[i := Ret (fst (run (snd (f s)) (fst (f s))))])"
    using Step.prems by (intro Step.IH) auto
  ultimately show ?case
    by (simp add: run_Step converse_rtranclp_into_rtranclp)
qed

text \<open>The first \<open>n\<close> steps of a handler, which then waits.\<close>

primrec advance :: "nat \<Rightarrow> ('s, 'r) prog \<Rightarrow> 's \<Rightarrow> 's \<times> ('s, 'r) prog" where
  "advance 0 p s = (s, p)"
| "advance (Suc n) p s = (case p of Ret r \<Rightarrow> (s, p) | Step f \<Rightarrow> advance n (snd (f s)) (fst (f s)))"

lemma advance_act [simp]: "advance (Suc n) (act f k) s = advance n (k (fst (f s))) (snd (f s))"
  by (simp add: act_def)

lemma advance_get [simp]: "advance (Suc n) (get f k) s = advance n (k (f s)) s"
  unfolding get_def advance_act by simp

declare advance.simps(2) [simp del]

lemma scheds_advance:
  assumes "i < length ps" and "ps ! i = p"
  shows "scheds E A (s, ps) (fst (advance n p s), ps[i := snd (advance n p s)])"
  using assms
proof (induction n arbitrary: p s ps)
  case 0
  then have "ps[i := p] = ps" by (metis list_update_id)
  then show ?case by simp
next
  case (Suc n)
  show ?case
  proof (cases p)
    case (Ret r)
    then have "ps[i := p] = ps" using Suc.prems by (metis list_update_id)
    then show ?thesis using Ret by (simp add: advance.simps(2))
  next
    case (Step f)
    let ?ps = "ps[i := snd (f s)]"
    have "sched E A (s, ps) (fst (f s), ?ps)"
      using Suc.prems Step by (intro exec) auto
    moreover have "scheds E A (fst (f s), ?ps) (fst (advance n (snd (f s)) (fst (f s))),
        ?ps[i := snd (advance n (snd (f s)) (fst (f s)))])"
      using Suc.prems by (intro Suc.IH) auto
    ultimately show ?thesis
      using Step by (simp add: converse_rtranclp_into_rtranclp advance.simps(2))
  qed
qed

text \<open>Two requests arrive; the first does \<open>n\<close> steps, the second runs to its end, the first
  goes on to its end.\<close>

lemma scheds_overtaken:
  fixes s :: 's and p q :: "('s, 'r) prog" and n :: nat
  assumes "A p" and "A q"
  defines "w1 \<equiv> fst (advance n p s)" and "p1 \<equiv> snd (advance n p s)"
  shows "scheds E A (s, []) (snd (run p1 (snd (run q w1))),
    [Ret (fst (run p1 (snd (run q w1)))), Ret (fst (run q w1))])"
proof -
  have "scheds E A (s, []) (s, [p, q])"
    using sched.arrive [of A p E s "[]"] sched.arrive [of A q E s "[p]"] assms(1,2)
    by (simp add: converse_rtranclp_into_rtranclp)
  also have "scheds E A (s, [p, q]) (w1, [p1, q])"
    using scheds_advance [of 0 "[p, q]" p E A s n] by (simp add: w1_def p1_def)
  also have "scheds E A (w1, [p1, q]) (snd (run q w1), [p1, Ret (fst (run q w1))])"
    using scheds_run [of 1 "[p1, q]" q E A w1] by simp
  also have "scheds E A (snd (run q w1), [p1, Ret (fst (run q w1))])
      (snd (run p1 (snd (run q w1))), [Ret (fst (run p1 (snd (run q w1)))), Ret (fst (run q w1))])"
    using scheds_run [of 0 "[p1, Ret (fst (run q w1))]" p1 E A "snd (run q w1)"] by simp
  finally show ?thesis .
qed

lemma scheds_alone:
  assumes "A p"
  shows "scheds E A (s, []) (snd (run p s), [Ret (fst (run p s))])"
proof -
  have "sched E A (s, []) (s, [p])" using sched.arrive [of A p E s "[]"] assms by simp
  moreover have "scheds E A (s, [p]) (snd (run p s), [Ret (fst (run p s))])"
    using scheds_run [of 0 "[p]" p E A s] by simp
  ultimately show ?thesis by (simp add: converse_rtranclp_into_rtranclp)
qed

text \<open>
  The interface between the handlers and an invariant \<open>I\<close> of the shared state: every
  atomic step of an admitted handler satisfies \<open>G\<close>; what the handlers and the
  environment do to one another is within the preorder \<open>R\<close>, which keeps \<open>I\<close>.
\<close>

locale rely_guarantee =
  fixes I :: "'s \<Rightarrow> bool"
    and R :: "'s \<Rightarrow> 's \<Rightarrow> bool"
    and G :: "'s \<Rightarrow> 's \<Rightarrow> bool"
    and E :: "'s \<Rightarrow> 's \<Rightarrow> bool"
    and A :: "('s, 'r) prog \<Rightarrow> bool"
    and Q :: "'r \<Rightarrow> 's \<Rightarrow> bool"
  assumes rely_refl: "R s s"
    and rely_trans: "R s s' \<Longrightarrow> R s' s'' \<Longrightarrow> R s s''"
    and rely_keeps: "R s s' \<Longrightarrow> I s \<Longrightarrow> I s'"
    and step_within_rely: "G s s' \<Longrightarrow> R s s'"
    and environment_within_rely: "E s s' \<Longrightarrow> R s s'"
    and handlers_promise: "A p \<Longrightarrow> I s \<Longrightarrow> rg R G Q p s"
begin

definition pool_ok :: "'s \<times> ('s, 'r) prog list \<Rightarrow> bool" where
  "pool_ok c \<longleftrightarrow> I (fst c) \<and> (\<forall>p \<in> set (snd c). \<exists>s0. R s0 (fst c) \<and> rg R G Q p s0)"

lemma pool_ok_other:
  "pool_ok (s, ps) \<Longrightarrow> R s s' \<Longrightarrow> p \<in> set ps \<Longrightarrow> \<exists>s0. R s0 s' \<and> rg R G Q p s0"
  using rely_trans unfolding pool_ok_def by fastforce

lemma pool_ok_thread:
  assumes "pool_ok (s, ps)" and "i < length ps" and "ps ! i = Step f"
  shows "G s (fst (f s))" and "rg R G Q (snd (f s)) (fst (f s))"
proof -
  have "Step f \<in> set ps" using assms(2,3) by (metis nth_mem)
  then obtain s0 where "R s0 s" "rg R G Q (Step f) s0"
    using assms(1) by (auto simp: pool_ok_def)
  then show "G s (fst (f s))" and "rg R G Q (snd (f s)) (fst (f s))"
    by (simp_all add: rg_Step)
qed

lemma pool_ok_step: "sched E A c c' \<Longrightarrow> pool_ok c \<Longrightarrow> pool_ok c'"
proof (induction rule: sched.induct)
  case (arrive p s ps)
  then show ?case using handlers_promise rely_refl by (auto simp: pool_ok_def)
next
  case (exec i ps f s)
  note thread = pool_ok_thread [OF exec(3,1,2)]
  have r: "R s (fst (f s))" using thread(1) by (rule step_within_rely)
  have "\<exists>s0. R s0 (fst (f s)) \<and> rg R G Q p s0" if "p \<in> set (ps[i := snd (f s)])" for p
  proof -
    from that have "p = snd (f s) \<or> p \<in> set ps"
      using set_update_subset_insert by fastforce
    then show ?thesis
      using thread(2) rely_refl pool_ok_other [OF exec(3) r] by auto
  qed
  moreover have "I (fst (f s))" using r exec(3) rely_keeps by (simp add: pool_ok_def)
  ultimately show ?case by (simp add: pool_ok_def)
next
  case (environ s s' ps)
  have r: "R s s'" using environ(1) by (rule environment_within_rely)
  have "I s'" using r environ(2) rely_keeps by (simp add: pool_ok_def)
  then show ?case using pool_ok_other [OF environ(2) r] by (simp add: pool_ok_def)
qed

lemma pool_ok_reached: "scheds E A c c' \<Longrightarrow> pool_ok c \<Longrightarrow> pool_ok c'"
  by (induction rule: rtranclp_induct) (auto intro: pool_ok_step)

lemma sched_within_rely: "sched E A c c' \<Longrightarrow> pool_ok c \<Longrightarrow> R (fst c) (fst c')"
  by (induction rule: sched.induct)
     (auto intro: rely_refl environment_within_rely step_within_rely dest: pool_ok_thread)

text \<open>From a start with no handler in flight: the invariant holds in every state
  reached, the state only evolves within the rely, and every step of a handler satisfies
  \<open>G\<close>.\<close>

lemma pool_ok_start: "I s0 \<Longrightarrow> pool_ok (s0, [])"
  by (simp add: pool_ok_def)

lemma reached_invariant:
  assumes "scheds E A (s0, []) (s, ps)" and "I s0"
  shows "I s"
  using pool_ok_reached [OF assms(1) pool_ok_start [OF assms(2)]] by (simp add: pool_ok_def)

lemma reached_rely:
  assumes "scheds E A (s0, []) c" and "scheds E A c c'" and "I s0"
  shows "R (fst c) (fst c')"
  using assms(2)
proof (induction rule: rtranclp_induct)
  case base
  show ?case by (rule rely_refl)
next
  case (step y z)
  have "pool_ok y"
    using assms(1) step.hyps(1) assms(3) pool_ok_start pool_ok_reached
    by (meson rtranclp_trans)
  then show ?case using step rely_trans sched_within_rely by blast
qed

lemma reached_step:
  assumes "scheds E A (s0, []) (s, ps)" and "I s0" and "sched E A (s, ps) (s', ps')"
  shows "G s s' \<or> E s s' \<or> s' = s"
proof -
  have ok: "pool_ok (s, ps)"
    using pool_ok_reached [OF assms(1) pool_ok_start [OF assms(2)]] .
  show ?thesis
    using assms(3)
  proof cases
    case (exec i f)
    then show ?thesis using pool_ok_thread(1) [OF ok] by simp
  qed auto
qed

text \<open>What a handler promises of its answer holds at some state, and the service has only
  evolved since.\<close>

lemma reached_answer:
  assumes "scheds E A (s0, []) (s, ps)" and "I s0" and "Ret r \<in> set ps"
  obtains s1 where "R s1 s" and "Q r s1"
proof -
  have "pool_ok (s, ps)" using pool_ok_reached [OF assms(1) pool_ok_start [OF assms(2)]] .
  then show ?thesis using assms(3) that by (auto simp: pool_ok_def)
qed

text \<open>A handler run alone.\<close>

lemma run_rely:
  assumes "A p" and "I s"
  shows "R s (snd (run p s))"
proof -
  have "rg R G Q p s \<Longrightarrow> R s (snd (run p s))" for p s
  proof (induction p arbitrary: s rule: prog_induct)
    case (Step f)
    then have "G s (fst (f s))" "rg R G Q (snd (f s)) (fst (f s))"
      using rely_refl by (auto simp: rg_Step)
    then have "R s (fst (f s))" "R (fst (f s)) (snd (run (snd (f s)) (fst (f s))))"
      using Step.IH step_within_rely by auto
    then show ?case unfolding run_Step by (rule rely_trans)
  qed (simp add: rely_refl)
  then show ?thesis using assms handlers_promise by blast
qed

lemma run_invariant: "A p \<Longrightarrow> I s \<Longrightarrow> I (snd (run p s))"
  using run_rely rely_keeps by blast

end

end
