(* ===== verification/App_State.thy ===== *)
theory App_State
  imports Config Database Node Interleaving "HOL-Library.Mapping"
begin

text \<open>
  The shared state \<open>App\<close> (\<open>src/src/db.rs\<close>) and the in-memory limiter, cooldowns and
  replay set on it (\<open>src/src/ratelimit.rs\<close>). The configuration never changes and is an
  argument of the operations. To the fields of \<open>App\<close> the world adds what the process
  reads of its environment: the monotonic clock (\<open>Instant::now\<close>, nanoseconds) and the
  system clock (\<open>SystemTime::now\<close>, nanoseconds since the epoch).
\<close>

section \<open>The state\<close>

record world =
  db :: conn
  rate :: "(string, nat list) mapping"
  seen_auth :: "(string, nat) mapping"
  node :: "chain_source option"
  instant :: nat
  sys_time :: int

definition open_with_node :: "conn \<Rightarrow> chain_source option \<Rightarrow> nat \<Rightarrow> int \<Rightarrow> world" where
  "open_with_node c nd t st =
     \<lparr>db = c, rate = Mapping.empty, seen_auth = Mapping.empty, node = nd, instant = t, sys_time = st\<rparr>"

definition app_open :: "libs \<Rightarrow> transport \<Rightarrow> config \<Rightarrow> conn \<Rightarrow> nat \<Rightarrow> int \<Rightarrow> world" where
  "app_open L T cfg c t st =
     open_with_node c
       (if cfg_allow_transfers cfg then Some (node_client L T (grin_node_endpoints cfg)) else None)
       t st"

text \<open>\<open>util::unix_now\<close>; \<open>Timestamp::now\<close> of the event library reads the same clock.\<close>

definition unix_now :: "world \<Rightarrow> i64" where
  "unix_now w =
     (if sys_time w < 0 then 0 else u64_as_i64 (word_of_int (sys_time w div 1000000000)))"

text \<open>A query, and a statement, of the database under its mutex.\<close>

definition db_query :: "(conn \<Rightarrow> 'x) \<Rightarrow> world \<Rightarrow> 'x" where
  "db_query f w = f (db w)"

definition db_execute :: "(conn \<Rightarrow> 'x \<times> conn) \<Rightarrow> world \<Rightarrow> 'x \<times> world" where
  "db_execute f w = (fst (f (db w)), w\<lparr>db := snd (f (db w))\<rparr>)"

section \<open>Replay set, cooldowns, rate limiter\<close>

text \<open>\<open>hits.retain(|t| now.duration_since(*t) < window)\<close>; \<open>duration_since\<close> saturates
  at zero, as subtraction on \<^typ>\<open>nat\<close> does.\<close>

definition retain :: "nat \<Rightarrow> duration \<Rightarrow> nat list \<Rightarrow> nat list" where
  "retain now window hits = filter (\<lambda>t. now - t < window) hits"

text \<open>\<open>Duration::from_secs(auth_max_age_secs as u64 + 5)\<close>\<close>

definition replay_window :: "config \<Rightarrow> duration" where
  "replay_window cfg = from_secs (unat (i64_as_u64 (cfg_auth_max_age_secs cfg) + 5))"

definition auth_event_fresh :: "config \<Rightarrow> string \<Rightarrow> world \<Rightarrow> bool \<times> world" where
  "auth_event_fresh cfg event_id w =
     (let now = instant w;
          seen = Mapping.filter (\<lambda>_ t. now - t < replay_window cfg) (seen_auth w)
      in if Mapping.lookup seen event_id \<noteq> None then (False, w\<lparr>seen_auth := seen\<rparr>)
         else (True, w\<lparr>seen_auth := Mapping.update event_id now seen\<rparr>))"

definition bucket_key :: "string \<Rightarrow> string \<Rightarrow> string" where
  "bucket_key bucket key = bucket @ '':'' @ key"

definition cooldown_active :: "string \<Rightarrow> string \<Rightarrow> duration \<Rightarrow> world \<Rightarrow> bool \<times> world" where
  "cooldown_active bucket key window w =
     (let k = bucket_key bucket key in
      case Mapping.lookup (rate w) k of
        Some hits \<Rightarrow>
          (let hits' = retain (instant w) window hits
           in (hits' \<noteq> [], w\<lparr>rate := Mapping.update k hits' (rate w)\<rparr>))
      | None \<Rightarrow> (False, w))"

definition record_op :: "string \<Rightarrow> string \<Rightarrow> world \<Rightarrow> unit \<times> world" where
  "record_op bucket key w =
     (let k = bucket_key bucket key in
      ((), w\<lparr>rate := Mapping.update k (Mapping.lookup_default [] (rate w) k @ [instant w]) (rate w)\<rparr>))"

definition allow :: "string \<Rightarrow> string \<Rightarrow> nat \<Rightarrow> duration \<Rightarrow> world \<Rightarrow> bool \<times> world" where
  "allow bucket ip max_hits window w =
     (let key = bucket_key bucket ip;
          now = instant w;
          hits = retain now window (Mapping.lookup_default [] (rate w) key)
      in if length hits \<ge> max_hits then (False, w\<lparr>rate := Mapping.update key hits (rate w)\<rparr>)
         else
           (let m = Mapping.update key (hits @ [now]) (rate w)
            in (True, w\<lparr>rate :=
                 (if Mapping.size m > 50000
                  then Mapping.filter (\<lambda>_ v. list_ex (\<lambda>t. now - t < window) v) m else m)\<rparr>)))"

definition allow_read :: "config \<Rightarrow> string \<Rightarrow> world \<Rightarrow> bool \<times> world" where
  "allow_read cfg ip = allow ''read'' ip (cfg_read_rate_max cfg) (cfg_read_rate_window cfg)"

definition allow_write :: "config \<Rightarrow> string \<Rightarrow> string \<Rightarrow> world \<Rightarrow> bool \<times> world" where
  "allow_write cfg bucket ip = allow bucket ip (cfg_write_rate_max cfg) (cfg_write_rate_window cfg)"

section \<open>What the limiter's operations leave alone\<close>

lemma allow_frame:
  "db (snd (allow b ip m win w)) = db w"
  "seen_auth (snd (allow b ip m win w)) = seen_auth w"
  "node (snd (allow b ip m win w)) = node w"
  "instant (snd (allow b ip m win w)) = instant w"
  "sys_time (snd (allow b ip m win w)) = sys_time w"
  by (simp_all add: allow_def Let_def)

lemma allow_write_frame [simp]:
  "db (snd (allow_write cfg b ip w)) = db w"
  "seen_auth (snd (allow_write cfg b ip w)) = seen_auth w"
  "node (snd (allow_write cfg b ip w)) = node w"
  "instant (snd (allow_write cfg b ip w)) = instant w"
  "sys_time (snd (allow_write cfg b ip w)) = sys_time w"
  by (simp_all add: allow_write_def allow_frame)

lemma allow_read_frame [simp]:
  "db (snd (allow_read cfg ip w)) = db w"
  "seen_auth (snd (allow_read cfg ip w)) = seen_auth w"
  "node (snd (allow_read cfg ip w)) = node w"
  "instant (snd (allow_read cfg ip w)) = instant w"
  "sys_time (snd (allow_read cfg ip w)) = sys_time w"
  by (simp_all add: allow_read_def allow_frame)

lemma auth_event_fresh_frame [simp]:
  "db (snd (auth_event_fresh cfg i w)) = db w"
  "rate (snd (auth_event_fresh cfg i w)) = rate w"
  "node (snd (auth_event_fresh cfg i w)) = node w"
  "instant (snd (auth_event_fresh cfg i w)) = instant w"
  "sys_time (snd (auth_event_fresh cfg i w)) = sys_time w"
  by (simp_all add: auth_event_fresh_def Let_def)

lemma cooldown_active_frame [simp]:
  "db (snd (cooldown_active b k win w)) = db w"
  "seen_auth (snd (cooldown_active b k win w)) = seen_auth w"
  "node (snd (cooldown_active b k win w)) = node w"
  "instant (snd (cooldown_active b k win w)) = instant w"
  "sys_time (snd (cooldown_active b k win w)) = sys_time w"
  by (simp_all add: cooldown_active_def Let_def split: option.splits)

lemma record_op_frame [simp]:
  "db (snd (record_op b k w)) = db w"
  "seen_auth (snd (record_op b k w)) = seen_auth w"
  "node (snd (record_op b k w)) = node w"
  "instant (snd (record_op b k w)) = instant w"
  "sys_time (snd (record_op b k w)) = sys_time w"
  by (simp_all add: record_op_def Let_def)

lemma unix_now_cong: "sys_time w = sys_time w' \<Longrightarrow> unix_now w = unix_now w'"
  by (simp add: unix_now_def)

lemma unix_now_frame [simp]:
  "unix_now (snd (allow_write cfg b ip w)) = unix_now w"
  "unix_now (snd (allow_read cfg ip w)) = unix_now w"
  "unix_now (snd (auth_event_fresh cfg i w)) = unix_now w"
  "unix_now (snd (cooldown_active b k win w)) = unix_now w"
  "unix_now (snd (record_op b k w)) = unix_now w"
  by (auto intro: unix_now_cong)

lemma unix_now_nonneg_i64: "is_i64 (unix_now w)"
  by (auto simp: unix_now_def u64_as_i64_is_i64) (simp add: is_i64_def)

lemma db_execute_frame [simp]:
  "rate (snd (db_execute f w)) = rate w"
  "seen_auth (snd (db_execute f w)) = seen_auth w"
  "node (snd (db_execute f w)) = node w"
  "instant (snd (db_execute f w)) = instant w"
  "sys_time (snd (db_execute f w)) = sys_time w"
  "db (snd (db_execute f w)) = snd (f (db w))"
  "fst (db_execute f w) = fst (f (db w))"
  by (simp_all add: db_execute_def)

section \<open>One use of an auth event\<close>

text \<open>An accepted event id is on record with its time of use, and stays while it is younger
  than the window; while it is there it is refused.\<close>

lemma auth_event_fresh_records:
  "fst (auth_event_fresh cfg i w) \<Longrightarrow>
   Mapping.lookup (seen_auth (snd (auth_event_fresh cfg i w))) i = Some (instant w)"
  by (simp add: auth_event_fresh_def Let_def split: if_splits)

lemma auth_event_fresh_keeps:
  assumes "Mapping.lookup (seen_auth w) j = Some t" and "instant w - t < replay_window cfg"
  shows "Mapping.lookup (seen_auth (snd (auth_event_fresh cfg i w))) j = Some t"
proof (cases "i = j")
  case True
  then show ?thesis using assms by (simp add: auth_event_fresh_def Let_def Mapping.lookup_filter)
next
  case False
  then show ?thesis
    using assms by (simp add: auth_event_fresh_def Let_def Mapping.lookup_filter)
qed

lemma auth_event_fresh_refuses:
  "Mapping.lookup (seen_auth w) i = Some t \<Longrightarrow> instant w - t < replay_window cfg \<Longrightarrow>
   \<not> fst (auth_event_fresh cfg i w)"
  by (simp add: auth_event_fresh_def Let_def Mapping.lookup_filter)

lemma auth_event_fresh_iff:
  "fst (auth_event_fresh cfg i w) \<longleftrightarrow>
     (\<forall>t. Mapping.lookup (seen_auth w) i = Some t \<longrightarrow> replay_window cfg \<le> instant w - t)"
  by (auto simp: auth_event_fresh_def Let_def Mapping.lookup_filter split: option.splits)

section \<open>Keys of the buckets\<close>

text \<open>The bucket names hold no colon, so no two buckets share a key, whatever the client
  puts into its part (an IPv6 address has colons).\<close>

lemma bucket_key_inj:
  assumes "CHR '':'' \<notin> set b" and "CHR '':'' \<notin> set b'" and "bucket_key b k = bucket_key b' k'"
  shows "b = b' \<and> k = k'"
  using assms
proof (induction b arbitrary: b')
  case Nil
  then show ?case by (cases b') (auto simp: bucket_key_def)
next
  case (Cons c b)
  show ?case
  proof (cases b')
    case Nil
    with Cons.prems show ?thesis by (auto simp: bucket_key_def)
  next
    case (Cons c' b'')
    then show ?thesis
      using Cons.prems Cons.IH [of b''] by (auto simp: bucket_key_def)
  qed
qed

end
