(* ===== verification/Lookup.thy ===== *)
theory Lookup
  imports App_State
begin

text \<open>
  The public reads: \<open>src/src/handlers/wellknown.rs\<close>, \<open>src/src/handlers/profile.rs\<close>,
  \<open>registry::availability\<close> of \<open>src/src/handlers/registry.rs\<close>, and the liveness and
  landing pages of \<open>src/src/handlers/misc.rs\<close>. A handler is a program of atomic steps:
  the limiter, then at most one query. The lemmas characterise what each answers.
\<close>

section \<open>Handlers\<close>

type_synonym handler = "(world, response) prog"

definition json_text_headers :: "(string \<times> string) list" where
  "json_text_headers =
     [(''content-type'', ''application/json''), (''access-control-allow-origin'', ''*''),
      (''cache-control'', ''no-store'')]"

text \<open>The public reads print their JSON themselves.\<close>

definition public_json :: "libs \<Rightarrow> json \<Rightarrow> response" where
  "public_json L v =
     \<lparr>status = OK, resp_headers = json_text_headers, resp_body = Text (json_to_string L v)\<rparr>"

definition well_known :: "libs \<Rightarrow> config \<Rightarrow> headers \<Rightarrow> string option \<Rightarrow> handler" where
  "well_known L cfg hs param_name =
     act (allow_read cfg (client_ip hs)) (\<lambda>allowed.
     if \<not> allowed
     then Ret \<lparr>status = TOO_MANY_REQUESTS,
               resp_headers = [(''access-control-allow-origin'', ''*'')],
               resp_body = Json (JObject [(''error'', JString ''rate_limited'')])\<rparr>
     else
       (let body = (\<lambda>names relays.
              public_json L (JObject [(''names'', JObject names), (''relays'', JObject relays)]))
        in case map_option (to_lowercase (unicode_lower L)) param_name of
          None \<Rightarrow> Ret (body [] [])
        | Some name \<Rightarrow>
            if \<not> valid_name name (cfg_name_min cfg) (cfg_name_max cfg) then Ret (body [] [])
            else get (db_query (lookup name)) (\<lambda>found.
              case found of
                None \<Rightarrow> Ret (body [] [])
              | Some pk \<Rightarrow>
                  Ret (body [(name, JString pk)]
                        [(pk, JArray (map JString (cfg_relays cfg)))]))))"

definition availability :: "libs \<Rightarrow> config \<Rightarrow> headers \<Rightarrow> string \<Rightarrow> handler" where
  "availability L cfg hs path_name =
     act (allow_read cfg (client_ip hs)) (\<lambda>allowed.
     if \<not> allowed then Ret (err TOO_MANY_REQUESTS ''rate_limited'')
     else
       (let name = to_lowercase (unicode_lower L) path_name;
            unavailable = (\<lambda>reason. json_response OK
              [(''name'', JString name), (''available'', JBool False), (''reason'', JString reason)])
        in
        if \<not> valid_name name (cfg_name_min cfg) (cfg_name_max cfg) then Ret (unavailable ''invalid'')
        else if is_reserved name (cfg_extra_reserved cfg) then Ret (unavailable ''reserved'')
        else get (db_query (lookup name)) (\<lambda>owner.
          if owner \<noteq> None then Ret (unavailable ''taken'')
          else Ret (json_response OK [(''name'', JString name), (''available'', JBool True)]))))"

definition profile :: "libs \<Rightarrow> config \<Rightarrow> headers \<Rightarrow> string \<Rightarrow> handler" where
  "profile L cfg hs path_name =
     act (allow_read cfg (client_ip hs)) (\<lambda>allowed.
     if \<not> allowed then Ret (err TOO_MANY_REQUESTS ''rate_limited'')
     else
       (let name = to_lowercase (unicode_lower L) path_name in
        if \<not> valid_name name (cfg_name_min cfg) (cfg_name_max cfg)
        then Ret (err NOT_FOUND ''not found'')
        else get (db_query (lookup name)) (\<lambda>found.
          case found of
            Some pubkey \<Rightarrow>
              Ret (public_json L (JObject [(''name'', JString name), (''pubkey'', JString pubkey)]))
          | None \<Rightarrow> Ret (err NOT_FOUND ''not found''))))"

definition by_pubkey :: "libs \<Rightarrow> config \<Rightarrow> headers \<Rightarrow> string \<Rightarrow> handler" where
  "by_pubkey L cfg hs path_pubkey =
     act (allow_read cfg (client_ip hs)) (\<lambda>allowed.
     if \<not> allowed then Ret (err TOO_MANY_REQUESTS ''rate_limited'')
     else
       (let pubkey = to_lowercase (unicode_lower L) path_pubkey in
        if \<not> valid_pubkey_hex pubkey then Ret (err NOT_FOUND ''not found'')
        else get (db_query (name_of pubkey)) (\<lambda>found.
          case found of
            Some name \<Rightarrow>
              Ret (public_json L (JObject [(''name'', JString name), (''pubkey'', JString pubkey)]))
          | None \<Rightarrow> Ret (err NOT_FOUND ''not found''))))"

definition health :: handler where
  "health = Ret \<lparr>status = OK, resp_headers = [], resp_body = Text ''ok''\<rparr>"

section \<open>The landing page\<close>

definition replace_char :: "char \<Rightarrow> string \<Rightarrow> string \<Rightarrow> string" where
  "replace_char c by s = concat (map (\<lambda>x. if x = c then by else [x]) s)"

definition html_escape :: "string \<Rightarrow> string" where
  "html_escape s =
     replace_char (CHR 0x22) ''&quot;'' (replace_char (CHR ''>'') ''&gt;''
       (replace_char (CHR ''<'') ''&lt;'' (replace_char (CHR ''&'') ''&amp;'' s)))"

definition em_dash :: string where
  "em_dash = [CHR 0xE2, CHR 0x80, CHR 0x94]"

definition unlines :: "string list \<Rightarrow> string" where
  "unlines ls = join (CHR 0x0A) ls"

definition landing_page :: "string \<Rightarrow> string \<Rightarrow> string" where
  \<open>landing_page domain relay = unlines
    [''<!doctype html><html lang="en"><head><meta charset="utf-8">'',
     ''<meta name="viewport" content="width=device-width, initial-scale=1">'',
     ''<title>goblin '' @ em_dash @ '' money that keeps quiet</title>'',
     ''<style>'',
     ''body{margin:0;background:#0E0E0C;color:#FAFAF7;font:16px/1.5 system-ui,sans-serif;'',
     ''display:flex;min-height:100vh;align-items:center;justify-content:center}'',
     ''main{max-width:520px;padding:32px}'',
     ''h1{font-size:44px;letter-spacing:-1.5px;margin:0 0 12px;color:#FFD60A}'',
     ''p{color:#9A988F;margin:8px 0}'',
     ''code{background:#1A1A17;border-radius:6px;padding:2px 6px;color:#FAFAF7}'',
     ''</style></head><body><main>'',
     ''<h1>goblin</h1>'',
     ''<p>Money that keeps quiet.</p>'',
     ''<p>A peer-to-peer wallet for grin. Payments travel as end-to-end encrypted'',
     ''nostr messages. Usernames here look like <code>you@'' @ domain @ ''</code>.</p>'',
     ''<p>Relay: <code>'' @ relay @ ''</code></p>'',
     ''</main></body></html>'']\<close>

definition landing :: "config \<Rightarrow> handler" where
  "landing cfg =
     (let domain = html_escape (cfg_domain cfg);
          relay = html_escape (case cfg_relays cfg of r # _ \<Rightarrow> r | [] \<Rightarrow> em_dash)
      in Ret \<lparr>status = OK, resp_headers = [], resp_body = HtmlPage (landing_page domain relay)\<rparr>)"

section \<open>Escaping\<close>

definition escape_char :: "char \<Rightarrow> string" where
  "escape_char c =
     (if c = CHR ''&'' then ''&amp;'' else if c = CHR ''<'' then ''&lt;''
      else if c = CHR ''>'' then ''&gt;'' else if c = CHR 0x22 then ''&quot;'' else [c])"

lemma replace_char_simps [simp]:
  "replace_char c by [] = []"
  "replace_char c by (x # s) = (if x = c then by else [x]) @ replace_char c by s"
  by (simp_all add: replace_char_def)

lemma replace_char_append [simp]:
  "replace_char c by (s @ t) = replace_char c by s @ replace_char c by t"
  by (simp add: replace_char_def)

text \<open>The four passes are one pass: no pass rewrites what an earlier one produced.\<close>

lemma html_escape_concat: "html_escape s = concat (map escape_char s)"
  by (induction s) (simp_all add: html_escape_def escape_char_def)

lemma html_escape_Cons: "html_escape (c # s) = escape_char c @ html_escape s"
  by (simp add: html_escape_concat)

lemma html_escape_no_markup:
  "c \<in> set (html_escape s) \<Longrightarrow> c \<noteq> CHR ''<'' \<and> c \<noteq> CHR ''>'' \<and> c \<noteq> CHR 0x22"
  by (induction s) (auto simp: html_escape_concat escape_char_def split: if_splits)

text \<open>Escaping loses nothing.\<close>

lemma escape_char_not_Nil [simp]: "escape_char c \<noteq> []"
  by (simp add: escape_char_def)

lemma escape_char_prefix:
  "escape_char c @ s = escape_char d @ t \<Longrightarrow> c = d \<and> s = t"
  by (simp add: escape_char_def split: if_splits)

lemma html_escape_inj: "html_escape s = html_escape t \<longleftrightarrow> s = t"
proof
  show "html_escape s = html_escape t \<Longrightarrow> s = t"
  proof (induction s arbitrary: t)
    case Nil
    then show ?case by (cases t) (auto simp: html_escape_concat)
  next
    case (Cons c s)
    then show ?case
      by (cases t) (auto simp: html_escape_concat dest!: escape_char_prefix)
  qed
qed simp

end
