(* ===== verification/Auth.thy ===== *)
theory Auth
  imports Externals
begin

text \<open>
  NIP-98 authorization, \<open>src/src/auth.rs\<close>. \<open>verify_nip98\<close> is a pure function of
  the request, the configured base URL and the clock (its argument \<open>now\<close>, what
  \<open>Timestamp::now\<close> returned). The loop over the event's tags is a fold over what it has
  found so far. The lemmas give the loop's result declaratively (which tag of a kind
  counts), characterise acceptance, and bind an accepted token to one method, one URL and
  one body.
\<close>

section \<open>Definitions\<close>

record auth_tags =
  u_ok :: bool
  method_ok :: bool
  payload_hash :: "string option"

definition http_auth_kind :: nat where
  "http_auth_kind = 27235"

definition second :: "string list \<Rightarrow> string option" where
  "second parts = (case parts of (_ # v # _) \<Rightarrow> Some v | _ \<Rightarrow> None)"

text \<open>One round of the loop over the tags.\<close>

definition auth_tag :: "string \<Rightarrow> string \<Rightarrow> string list \<Rightarrow> auth_tags \<Rightarrow> auth_tags" where
  "auth_tag expected_url meth parts st =
     (case parts of
        [] \<Rightarrow> st
      | key # _ \<Rightarrow>
          if key = ''u'' then
            (case second parts of
               Some u \<Rightarrow> st\<lparr>u_ok := (trim_end_matches (CHR ''/'') u =
                                     trim_end_matches (CHR ''/'') expected_url)\<rparr>
             | None \<Rightarrow> st)
          else if key = ''method'' then
            (case second parts of
               Some m \<Rightarrow> st\<lparr>method_ok := eq_ignore_ascii_case m meth\<rparr>
             | None \<Rightarrow> st)
          else if key = ''payload'' then st\<lparr>payload_hash := second parts\<rparr>
          else st)"

definition scan_tags :: "string \<Rightarrow> string \<Rightarrow> string list list \<Rightarrow> auth_tags" where
  "scan_tags expected_url meth tags =
     fold (auth_tag expected_url meth) tags
       \<lparr>u_ok = False, method_ok = False, payload_hash = None\<rparr>"

text \<open>\<open>(now.as_secs() as i64) - (event.created_at.as_secs() as i64)\<close>; \<open>now\<close> is
  already the cast clock.\<close>

definition auth_age :: "i64 \<Rightarrow> event \<Rightarrow> i64" where
  "auth_age now e = wrap_i64 (now - u64_as_i64 (ev_created_at e))"

definition unauthorized :: "string \<Rightarrow> (nat \<times> string) + 'a" where
  "unauthorized msg = Inl (UNAUTHORIZED, msg)"

definition verify_nip98 ::
  "libs \<Rightarrow> i64 \<Rightarrow> headers \<Rightarrow> string \<Rightarrow> string \<Rightarrow> bytes \<Rightarrow> string \<Rightarrow> i64 \<Rightarrow>
   (nat \<times> string) + (string \<times> string)" where
  "verify_nip98 L now hs meth url_path body base_url auth_max_age_secs =
     (case header_str hs ''authorization'' of
        None \<Rightarrow> unauthorized ''missing Authorization header''
      | Some auth \<Rightarrow>
     (case strip_prefix ''Nostr '' auth of
        None \<Rightarrow> unauthorized ''Authorization scheme must be Nostr''
      | Some b64 \<Rightarrow>
     (case base64_decode L (trim b64) of
        None \<Rightarrow> unauthorized ''invalid base64 auth event''
      | Some raw \<Rightarrow>
     (case event_from_json L raw of
        None \<Rightarrow> unauthorized ''invalid auth event json''
      | Some event \<Rightarrow>
        if \<not> event_verify L event then unauthorized ''bad event signature''
        else if ev_kind event \<noteq> http_auth_kind
        then unauthorized ''auth event kind must be 27235''
        else
          (let age = auth_age now event in
           if age > auth_max_age_secs \<or> age < -5
           then unauthorized ''auth event expired or post-dated''
           else
             (let st = scan_tags (base_url @ url_path) meth (ev_tags event) in
              if \<not> u_ok st then unauthorized ''auth event url mismatch''
              else if \<not> method_ok st then unauthorized ''auth event method mismatch''
              else case payload_hash st of
                Some expect \<Rightarrow>
                  (let got = hex_encode L (sha256_digest L body) in
                   if \<not> eq_ignore_ascii_case expect got
                   then unauthorized ''auth event payload hash mismatch''
                   else Inr (ev_pubkey event, ev_id event))
              | None \<Rightarrow>
                  if body \<noteq> [] then unauthorized ''auth event missing payload hash''
                  else Inr (ev_pubkey event, ev_id event)))))))"

section \<open>Which tag counts\<close>

text \<open>The last tag with this key and a value; for \<open>payload\<close> the last tag with this key,
  value or not.\<close>

definition last_value :: "string \<Rightarrow> string list list \<Rightarrow> string option" where
  "last_value key tags =
     Option.bind (List.find (\<lambda>p. p \<noteq> [] \<and> hd p = key \<and> second p \<noteq> None) (rev tags)) second"

definition last_payload :: "string list list \<Rightarrow> string option" where
  "last_payload tags =
     Option.bind (List.find (\<lambda>p. p \<noteq> [] \<and> hd p = ''payload'') (rev tags)) second"

lemma last_value_Nil [simp]: "last_value key [] = None"
  by (simp add: last_value_def)

lemma last_payload_Nil [simp]: "last_payload [] = None"
  by (simp add: last_payload_def)

lemma last_value_snoc:
  "last_value key (tags @ [p]) =
     (if p \<noteq> [] \<and> hd p = key \<and> second p \<noteq> None then second p else last_value key tags)"
  by (auto simp: last_value_def)

lemma last_payload_snoc:
  "last_payload (tags @ [p]) =
     (if p \<noteq> [] \<and> hd p = ''payload'' then second p else last_payload tags)"
  by (simp add: last_payload_def)

lemma scan_tags_snoc:
  "scan_tags url meth (tags @ [p]) = auth_tag url meth p (scan_tags url meth tags)"
  by (simp add: scan_tags_def)

lemma scan_tags_spec:
  "u_ok (scan_tags url meth tags) \<longleftrightarrow>
     (\<exists>u. last_value ''u'' tags = Some u \<and>
          trim_end_matches (CHR ''/'') u = trim_end_matches (CHR ''/'') url)"
  "method_ok (scan_tags url meth tags) \<longleftrightarrow>
     (\<exists>m. last_value ''method'' tags = Some m \<and> eq_ignore_ascii_case m meth)"
  "payload_hash (scan_tags url meth tags) = last_payload tags"
proof (induction tags rule: rev_induct)
  case Nil
  { case 1 show ?case by (simp add: scan_tags_def) }
  { case 2 show ?case by (simp add: scan_tags_def) }
  { case 3 show ?case by (simp add: scan_tags_def) }
next
  case (snoc p tags)
  { case 1
    show ?case using snoc(1)
      by (cases p) (auto simp: scan_tags_snoc last_value_snoc auth_tag_def split: option.splits) }
  { case 2
    show ?case using snoc(2)
      by (cases p) (auto simp: scan_tags_snoc last_value_snoc auth_tag_def split: option.splits) }
  { case 3
    show ?case using snoc(3)
      by (cases p) (auto simp: scan_tags_snoc last_payload_snoc auth_tag_def split: option.splits) }
qed

section \<open>Acceptance\<close>

definition carried_event :: "libs \<Rightarrow> headers \<Rightarrow> event option" where
  "carried_event L hs =
     Option.bind (header_str hs ''authorization'') (\<lambda>auth.
     Option.bind (strip_prefix ''Nostr '' auth) (\<lambda>b64.
     Option.bind (base64_decode L (trim b64)) (event_from_json L)))"

definition event_binds ::
  "libs \<Rightarrow> event \<Rightarrow> string \<Rightarrow> string \<Rightarrow> bytes \<Rightarrow> bool" where
  "event_binds L e meth url body \<longleftrightarrow>
     (\<exists>u. last_value ''u'' (ev_tags e) = Some u \<and>
          trim_end_matches (CHR ''/'') u = trim_end_matches (CHR ''/'') url) \<and>
     (\<exists>m. last_value ''method'' (ev_tags e) = Some m \<and> eq_ignore_ascii_case m meth) \<and>
     (case last_payload (ev_tags e) of
        Some h \<Rightarrow> eq_ignore_ascii_case h (hex_encode L (sha256_digest L body))
      | None \<Rightarrow> body = [])"

text \<open>What follows the parsing of the header, as a function of the event.\<close>

definition verify_event ::
  "libs \<Rightarrow> i64 \<Rightarrow> event \<Rightarrow> string \<Rightarrow> string \<Rightarrow> bytes \<Rightarrow> i64 \<Rightarrow> bool" where
  "verify_event L now e meth url body max_age \<longleftrightarrow>
     event_verify L e \<and> ev_kind e = http_auth_kind \<and>
     -5 \<le> auth_age now e \<and> auth_age now e \<le> max_age \<and> event_binds L e meth url body"

lemma verify_nip98_no_event:
  assumes "carried_event L hs = None"
  shows "isl (verify_nip98 L now hs meth path body base max_age)"
  using assms
  by (auto simp: verify_nip98_def unauthorized_def carried_event_def
        simp del: strip_prefix_Some split: option.split)

lemma verify_nip98_event:
  assumes "carried_event L hs = Some e"
  shows "verify_nip98 L now hs meth path body base max_age = Inr (pk, i) \<longleftrightarrow>
    verify_event L now e meth (base @ path) body max_age \<and> pk = ev_pubkey e \<and> i = ev_id e"
proof -
  obtain auth b64 raw where "header_str hs ''authorization'' = Some auth"
    "strip_prefix ''Nostr '' auth = Some b64" "base64_decode L (trim b64) = Some raw"
    "event_from_json L raw = Some e"
    using assms by (auto simp: carried_event_def bind_eq_Some_conv simp del: strip_prefix_Some)
  then show ?thesis
    by (cases "last_payload (ev_tags e)")
       (auto simp: verify_nip98_def unauthorized_def Let_def verify_event_def event_binds_def
          scan_tags_spec simp del: strip_prefix_Some)
qed

lemma verify_nip98_Inr:
  "verify_nip98 L now hs meth path body base max_age = Inr (pk, i) \<longleftrightarrow>
     (\<exists>e. carried_event L hs = Some e \<and> verify_event L now e meth (base @ path) body max_age \<and>
          pk = ev_pubkey e \<and> i = ev_id e)"
proof (cases "carried_event L hs")
  case None
  then show ?thesis
    using verify_nip98_no_event [OF None, of now meth path body base max_age] by auto
next
  case (Some e)
  then show ?thesis by (simp add: verify_nip98_event)
qed

lemma verify_nip98_Inl: "verify_nip98 L now hs meth path body base max_age = Inl (c, msg) \<Longrightarrow> c = UNAUTHORIZED"
  by (auto simp: verify_nip98_def unauthorized_def Let_def simp del: strip_prefix_Some
      split: option.split_asm if_split_asm)

lemma event_binds_body:
  assumes "event_binds L e meth url body" and "event_binds L e meth' url' body'"
  shows "eq_ignore_ascii_case meth meth'"
    and "trim_end_matches (CHR ''/'') url = trim_end_matches (CHR ''/'') url'"
    and "body = body' \<or> eq_ignore_ascii_case (hex_encode L (sha256_digest L body))
                                              (hex_encode L (sha256_digest L body'))"
  using assms
  by (auto simp: event_binds_def split: option.splits
      intro: eq_ignore_ascii_case_trans eq_ignore_ascii_case_sym)

lemma auth_age_small:
  assumes "0 \<le> now" and "now < 2 ^ 63" and "uint (ev_created_at e) < 2 ^ 63"
  shows "auth_age now e = now - uint (ev_created_at e)"
proof -
  have "is_i64 (now - uint (ev_created_at e))"
    using assms uint_ge_0 [of "ev_created_at e"] unfolding is_i64_def by linarith
  then show ?thesis by (simp add: auth_age_def u64_as_i64_small [OF assms(3)] wrap_i64_id)
qed

end
