(* ===== verification/Registry.thy ===== *)
theory Registry
  imports Lookup Auth
begin

text \<open>
  Registering and releasing a name, \<open>src/src/handlers/registry.rs\<close>. Each access to the
  shared state is one step: the limiter, the clock, the replay set, the cooldown, each query
  and the final statement; other requests may run between any two of them. The lemmas say
  what each handler does when it runs undisturbed.
\<close>

section \<open>Authorization of a request\<close>

text \<open>The block every authenticated handler starts with: \<open>verify_nip98\<close> against the
  clock, then the replay set. The continuation gets the authenticated key.\<close>

definition authenticate ::
  "libs \<Rightarrow> config \<Rightarrow> headers \<Rightarrow> string \<Rightarrow> string \<Rightarrow> bytes \<Rightarrow> (string \<Rightarrow> handler) \<Rightarrow> handler" where
  "authenticate L cfg hs meth path body k =
     get unix_now (\<lambda>now.
     case verify_nip98 L now hs meth path body (cfg_base_url cfg) (cfg_auth_max_age_secs cfg) of
       Inl (c, msg) \<Rightarrow> Ret (err c msg)
     | Inr (auth_pubkey, auth_id) \<Rightarrow>
         act (auth_event_fresh cfg auth_id) (\<lambda>fresh.
         if \<not> fresh then Ret (err UNAUTHORIZED ''auth event replayed'')
         else k auth_pubkey))"

section \<open>Register\<close>

definition nip05_of :: "config \<Rightarrow> string \<Rightarrow> string" where
  "nip05_of cfg name = name @ ''@'' @ cfg_domain cfg"

definition registered_body :: "config \<Rightarrow> string \<Rightarrow> (string \<times> json) list" where
  "registered_body cfg name =
     [(''name'', JString name), (''nip05'', JString (nip05_of cfg name))]"

text \<open>The tail of the handler, from the look at the existing registrations on.\<close>

definition register_claim :: "config \<Rightarrow> string \<Rightarrow> string \<Rightarrow> handler" where
  "register_claim cfg name pubkey =
     get (db_query (lookup name)) (\<lambda>found.
     case found of
       Some owner \<Rightarrow>
         if owner = pubkey then Ret (json_response OK (registered_body cfg name))
         else Ret (err CONFLICT ''name taken'')
     | None \<Rightarrow>
         get (db_query (name_of pubkey)) (\<lambda>held.
         case held of
           Some existing \<Rightarrow>
             Ret (json_response CONFLICT
               [(''error'', JString ''pubkey already has a name''), (''name'', JString existing)])
         | None \<Rightarrow>
             act (\<lambda>w. db_execute (register_name name pubkey (unix_now w)) w) (\<lambda>res.
             case res of
               Inr 0 \<Rightarrow> Ret (err CONFLICT ''name taken'')
             | Inr _ \<Rightarrow> Ret (json_response CREATED (registered_body cfg name))
             | Inl ConstraintViolation \<Rightarrow> Ret (err CONFLICT ''pubkey already has a name'')
             | Inl OtherFailure \<Rightarrow> Ret (err INTERNAL_SERVER_ERROR ''db error''))))"

definition register :: "libs \<Rightarrow> config \<Rightarrow> headers \<Rightarrow> bytes \<Rightarrow> handler" where
  "register L cfg hs body =
     (let ip = client_ip hs in
      act (allow_write cfg ''reg'' ip) (\<lambda>allowed.
      if \<not> allowed then Ret (err TOO_MANY_REQUESTS ''rate_limited'')
      else
        authenticate L cfg hs ''POST'' ''/api/v1/register'' body (\<lambda>auth_pubkey.
        act (cooldown_active ''namechange'' auth_pubkey (cfg_name_change_cooldown cfg)) (\<lambda>cooling.
        if cooling then Ret (err TOO_MANY_REQUESTS ''name_change_cooldown'')
        else
          (case register_body_from_slice L body of
             None \<Rightarrow> Ret (err BAD_REQUEST ''invalid body'')
           | Some (req_name, req_pubkey) \<Rightarrow>
               (let name = to_lowercase (unicode_lower L) req_name;
                    pubkey = to_lowercase (unicode_lower L) req_pubkey
                in
                if \<not> valid_pubkey_hex pubkey then Ret (err BAD_REQUEST ''invalid pubkey'')
                else if pubkey \<noteq> auth_pubkey
                then Ret (err UNAUTHORIZED ''auth pubkey does not match body pubkey'')
                else if \<not> valid_name name (cfg_name_min cfg) (cfg_name_max cfg)
                then Ret (err BAD_REQUEST ''invalid name'')
                else if is_reserved name (cfg_extra_reserved cfg)
                then Ret (err FORBIDDEN ''name reserved'')
                else register_claim cfg name pubkey))))))"

section \<open>Release\<close>

definition unregister_path :: "string \<Rightarrow> string" where
  "unregister_path name = ''/api/v1/register/'' @ name"

text \<open>The tail of the handler: the owner check and the release.\<close>

definition release_owned :: "string \<Rightarrow> string \<Rightarrow> handler" where
  "release_owned name auth_pubkey =
     get (db_query (lookup name)) (\<lambda>found.
     case found of
       Some owner \<Rightarrow>
         if owner = auth_pubkey then
           act (\<lambda>w. db_execute (release_name name (unix_now w)) w) (\<lambda>res.
           case res of
             Inr _ \<Rightarrow>
               act (record_op ''namechange'' auth_pubkey) (\<lambda>_.
               Ret (json_response OK [(''name'', JString name), (''released'', JBool True)]))
           | Inl _ \<Rightarrow> Ret (err INTERNAL_SERVER_ERROR ''db error''))
         else Ret (err FORBIDDEN ''not the owner'')
     | None \<Rightarrow> Ret (err NOT_FOUND ''name not found''))"

definition unregister :: "libs \<Rightarrow> config \<Rightarrow> string \<Rightarrow> headers \<Rightarrow> handler" where
  "unregister L cfg path_name hs =
     (let ip = client_ip hs in
      act (allow_write cfg ''unreg'' ip) (\<lambda>allowed.
      if \<not> allowed then Ret (err TOO_MANY_REQUESTS ''rate_limited'')
      else
        (let name = to_lowercase (unicode_lower L) path_name in
         authenticate L cfg hs ''DELETE'' (unregister_path name) [] (release_owned name))))"

section \<open>Running undisturbed\<close>

text \<open>A request's key and event id, and the state after its event id is taken.\<close>

definition authorised_by ::
  "libs \<Rightarrow> config \<Rightarrow> world \<Rightarrow> headers \<Rightarrow> string \<Rightarrow> string \<Rightarrow> bytes \<Rightarrow> (nat \<times> string) + (string \<times> string)" where
  "authorised_by L cfg w hs meth path body =
     verify_nip98 L (unix_now w) hs meth path body (cfg_base_url cfg) (cfg_auth_max_age_secs cfg)"

lemma run_authenticate:
  "run (authenticate L cfg hs meth path body k) w =
     (case authorised_by L cfg w hs meth path body of
        Inl (c, msg) \<Rightarrow> (err c msg, w)
      | Inr (pk, i) \<Rightarrow>
          if fst (auth_event_fresh cfg i w) then run (k pk) (snd (auth_event_fresh cfg i w))
          else (err UNAUTHORIZED ''auth event replayed'', snd (auth_event_fresh cfg i w)))"
  by (simp add: authenticate_def authorised_by_def split: sum.split prod.split)

text \<open>What the tail of \<open>register\<close> answers and does, when no statement fails.\<close>

definition register_outcome :: "config \<Rightarrow> string \<Rightarrow> string \<Rightarrow> world \<Rightarrow> nat" where
  "register_outcome cfg name pubkey w =
     (case owned (db w) name of
        Some owner \<Rightarrow> if owner = pubkey then OK else CONFLICT
      | None \<Rightarrow> if pubkey \<in> ran (owned (db w)) then CONFLICT else CREATED)"

lemma register_name_free:
  assumes inv: "names_inv (tb_names c)" and io: "\<not> io_err c 0"
    and free: "owned c name = None" and none: "k \<notin> ran (owned c)"
  shows "fst (register_name name k t c) = Inr 1"
proof -
  have inactive: "\<not> active r" if "r \<in> set (tb_names c)" "n_name r = name" for r
    using free that by (auto simp: owned_def owner_of_None)
  have "\<not> pubkey_active_elsewhere k name (tb_names c)"
    using none by (auto simp: owned_def ran_owner_of [OF inv] pubkey_active_elsewhere_def list_ex_iff)
  then show ?thesis
    using io inactive by (auto simp: register_name_def split: option.split dest: find_SomeD)
qed

lemma run_register_claim:
  assumes inv: "db_inv (db w)" and io: "\<not> io_err (db w) 0"
  shows "status (fst (run (register_claim cfg name k) w)) = register_outcome cfg name k w"
    and "owned (db (snd (run (register_claim cfg name k) w))) =
      (if register_outcome cfg name k w = CREATED then (owned (db w))(name \<mapsto> k) else owned (db w))"
    and "db_inv (db (snd (run (register_claim cfg name k) w)))"
proof -
  note rows = db_inv_names [OF inv]
  have "status (fst (run (register_claim cfg name k) w)) = register_outcome cfg name k w \<and>
    owned (db (snd (run (register_claim cfg name k) w))) =
      (if register_outcome cfg name k w = CREATED then (owned (db w))(name \<mapsto> k) else owned (db w)) \<and>
    db_inv (db (snd (run (register_claim cfg name k) w)))"
  proof (cases "owned (db w) name")
    case (Some owner)
    then show ?thesis
      using io inv by (simp add: register_claim_def db_query_def lookup_owned register_outcome_def)
  next
    case free: None
    show ?thesis
    proof (cases "k \<in> ran (owned (db w))")
      case True
      then obtain existing where "name_of k (db w) = Some existing"
        using name_of_None [OF rows io, of k] by (cases "name_of k (db w)") auto
      then show ?thesis
        using free True io inv
        by (simp add: register_claim_def db_query_def lookup_owned register_outcome_def)
    next
      case False
      let ?c' = "snd (register_name name k (unix_now w) (db w))"
      have one: "fst (register_name name k (unix_now w) (db w)) = Inr 1"
        using rows io free False by (rule register_name_free)
      have "name_of k (db w) = None"
        using name_of_None [OF rows io, of k] False by simp
      then show ?thesis
        using free False io one register_name_cases(4) [OF one rows] register_name_db_inv [OF inv]
        by (simp add: register_claim_def db_query_def lookup_owned register_outcome_def)
    qed
  qed
  then show "status (fst (run (register_claim cfg name k) w)) = register_outcome cfg name k w"
    and "owned (db (snd (run (register_claim cfg name k) w))) =
      (if register_outcome cfg name k w = CREATED then (owned (db w))(name \<mapsto> k) else owned (db w))"
    and "db_inv (db (snd (run (register_claim cfg name k) w)))" by auto
qed

end
