(* ===== verification/Proof_Check.thy ===== *)
theory Proof_Check
  imports Externals
begin

text \<open>
  Grin payment proofs, \<open>src/src/proof.rs\<close>: slatepack addresses, the 73-byte message both
  parties sign, the proof parsed from the wallet's JSON, and the check of its two
  signatures. The lemmas show that the message determines amount, excess and sender (so a
  signature over it binds them), what parsing accepts, and that the signature check is the
  conjunction it should be.
\<close>

section \<open>Addresses\<close>

definition GRIN_HRPS :: "string list" where
  "GRIN_HRPS = [''grin'', ''tgrin'']"

definition normalize_grin_address :: "libs \<Rightarrow> string \<Rightarrow> string" where
  "normalize_grin_address L address = to_lowercase (unicode_lower L) (trim address)"

text \<open>\<open>try_into\<close> an array of \<open>n\<close> bytes.\<close>

definition array_of :: "nat \<Rightarrow> bytes \<Rightarrow> bytes option" where
  "array_of n bs = (if length bs = n then Some bs else None)"

definition decode_grin_address :: "libs \<Rightarrow> string \<Rightarrow> bytes option" where
  "decode_grin_address L address =
     (let norm = normalize_grin_address L address in
      case bech32_decode L norm of
        None \<Rightarrow> None
      | Some (hrp, data) \<Rightarrow>
          if hrp \<notin> set GRIN_HRPS then None
          else (case from_base32 L data of
              None \<Rightarrow> None
            | Some bs \<Rightarrow> array_of 32 bs))"

text \<open>\<open>None\<close> is the panic of \<open>expect("valid hrp")\<close>.\<close>

definition grin_address_from_pubkey :: "libs \<Rightarrow> bytes \<Rightarrow> string \<Rightarrow> string option" where
  "grin_address_from_pubkey L pubkey hrp = bech32_encode L hrp (to_base32 L pubkey)"

section \<open>The signed message\<close>

definition amount_to_be_u64 :: "u64 \<Rightarrow> bytes" where
  "amount_to_be_u64 amount = map (\<lambda>i. ucast (drop_bit (8 * i) amount)) (rev [0..<8])"

definition payment_proof_message :: "libs \<Rightarrow> u64 \<Rightarrow> string \<Rightarrow> bytes \<Rightarrow> bytes option" where
  "payment_proof_message L amount excess_hex sender_pubkey =
     (case hex_decode L excess_hex of
        None \<Rightarrow> None
      | Some excess \<Rightarrow>
          if length excess \<noteq> 33 then None
          else Some (amount_to_be_u64 amount @ excess @ sender_pubkey))"

section \<open>Parsed proofs\<close>

record parsed_payment_proof =
  pp_amount :: u64
  pp_excess_hex :: string
  pp_recipient_address :: string
  pp_recipient_sig_hex :: string
  pp_sender_address :: string
  pp_sender_sig_hex :: string

fun value_str :: "json \<Rightarrow> string option" where
  "value_str (JString s) = Some s"
| "value_str _ = None"

fun proof_amount :: "json \<Rightarrow> u64 option" where
  "proof_amount (JNumber n) = as_u64 (JNumber n)"
| "proof_amount (JString s) = parse_u64 (trim s)"
| "proof_amount _ = None"

definition parse_payment_proof :: "libs \<Rightarrow> json \<Rightarrow> parsed_payment_proof option" where
  "parse_payment_proof L v =
     Option.bind (as_object v) (\<lambda>obj.
     Option.bind (map_of obj ''amount'') (\<lambda>amount_raw.
     Option.bind (Option.bind (map_of obj ''excess'') value_str) (\<lambda>excess.
     Option.bind (Option.bind (map_of obj ''recipient_address'') value_str) (\<lambda>recipient_address.
     Option.bind (Option.bind (map_of obj ''recipient_sig'') value_str) (\<lambda>recipient_sig.
     Option.bind (Option.bind (map_of obj ''sender_address'') value_str) (\<lambda>sender_address.
     Option.bind (Option.bind (map_of obj ''sender_sig'') value_str) (\<lambda>sender_sig.
     Option.bind (proof_amount amount_raw) (\<lambda>amount.
       Some \<lparr>pp_amount = amount,
             pp_excess_hex = to_lowercase (unicode_lower L) excess,
             pp_recipient_address = recipient_address,
             pp_recipient_sig_hex = to_lowercase (unicode_lower L) recipient_sig,
             pp_sender_address = sender_address,
             pp_sender_sig_hex = to_lowercase (unicode_lower L) sender_sig\<rparr>))))))))"

section \<open>Signatures\<close>

definition verify_ed25519 :: "libs \<Rightarrow> bytes \<Rightarrow> bytes \<Rightarrow> bytes \<Rightarrow> bool" where
  "verify_ed25519 L pubkey message sg =
     (if \<not> ed25519_key_ok L pubkey then False
      else case array_of 64 sg of
        None \<Rightarrow> False
      | Some sig_arr \<Rightarrow> ed25519_verify L pubkey message sig_arr)"

definition verify_signatures :: "libs \<Rightarrow> parsed_payment_proof \<Rightarrow> bool" where
  "verify_signatures L prf =
     (case decode_grin_address L (pp_recipient_address prf) of
        None \<Rightarrow> False
      | Some recipient_pub \<Rightarrow>
     (case decode_grin_address L (pp_sender_address prf) of
        None \<Rightarrow> False
      | Some sender_pub \<Rightarrow>
     (case payment_proof_message L (pp_amount prf) (pp_excess_hex prf) sender_pub of
        None \<Rightarrow> False
      | Some msg \<Rightarrow>
     (case hex_decode L (pp_recipient_sig_hex prf) of
        None \<Rightarrow> False
      | Some recipient_sig \<Rightarrow>
     (case hex_decode L (pp_sender_sig_hex prf) of
        None \<Rightarrow> False
      | Some sender_sig \<Rightarrow>
          verify_ed25519 L recipient_pub msg recipient_sig \<and>
          verify_ed25519 L sender_pub msg sender_sig)))))"

section \<open>Addresses: lemmas\<close>

lemma array_of_Some [simp]: "array_of n bs = Some bs' \<longleftrightarrow> bs' = bs \<and> length bs = n"
  by (auto simp: array_of_def)

lemma decode_grin_address_Some:
  "decode_grin_address L a = Some k \<longleftrightarrow>
     (\<exists>hrp data. bech32_decode L (normalize_grin_address L a) = Some (hrp, data) \<and>
        hrp \<in> {''grin'', ''tgrin''} \<and> from_base32 L data = Some k \<and> length k = 32)"
  by (auto simp: decode_grin_address_def Let_def GRIN_HRPS_def split: option.splits prod.splits)

lemma decode_grin_address_length: "decode_grin_address L a = Some k \<Longrightarrow> length k = 32"
  by (auto simp: decode_grin_address_Some)

lemma decode_grin_address_cong:
  "normalize_grin_address L a = normalize_grin_address L b \<Longrightarrow>
   decode_grin_address L a = decode_grin_address L b"
  by (simp add: decode_grin_address_def)

text \<open>Normalising is idempotent on the visible ASCII an address is made of.\<close>

lemma is_graphic_lower: "is_graphic c \<Longrightarrow> is_graphic (to_ascii_lowercase c)"
  by (auto simp: is_graphic_def code_to_ascii_lowercase is_ascii_uppercase_def)

lemma normalize_graphic:
  assumes "list_all is_graphic s"
  shows "normalize_grin_address L s = map to_ascii_lowercase s"
proof -
  have "list_all is_ascii s"
    using assms by (auto simp: list_all_iff is_graphic_def is_ascii_def)
  then show ?thesis
    by (simp add: normalize_grin_address_def trim_graphic [OF assms] to_lowercase_ascii)
qed

lemma normalize_idem:
  assumes "list_all is_graphic s"
  shows "normalize_grin_address L (normalize_grin_address L s) = normalize_grin_address L s"
proof -
  have "list_all is_graphic (map to_ascii_lowercase s)"
    using assms by (auto simp: list_all_iff is_graphic_lower)
  then show ?thesis by (simp add: normalize_graphic [OF assms] normalize_graphic)
qed

section \<open>The message: lemmas\<close>

lemma length_amount_to_be_u64 [simp]: "length (amount_to_be_u64 a) = 8"
  by (simp add: amount_to_be_u64_def)

lemma amount_to_be_u64_nth:
  "i < 8 \<Longrightarrow> amount_to_be_u64 a ! i = ucast (drop_bit (8 * (7 - i)) a)"
  by (simp add: amount_to_be_u64_def rev_nth del: upt_rec_numeral)

lemma amount_to_be_u64_inj: "amount_to_be_u64 a = amount_to_be_u64 b \<longleftrightarrow> a = b"
proof
  assume eq: "amount_to_be_u64 a = amount_to_be_u64 b"
  show "a = b"
  proof (rule bit_word_eqI)
    fix n assume "n < LENGTH(64)"
    then have i: "7 - n div 8 < 8" "7 - (7 - n div 8) = n div 8" by auto
    have "(ucast (drop_bit (8 * (n div 8)) a) :: u8) = ucast (drop_bit (8 * (n div 8)) b)"
      using arg_cong [OF eq, of "\<lambda>bs. bs ! (7 - n div 8)"] i by (simp add: amount_to_be_u64_nth)
    then have "bit (ucast (drop_bit (8 * (n div 8)) a) :: u8) (n mod 8) =
        bit (ucast (drop_bit (8 * (n div 8)) b) :: u8) (n mod 8)" by simp
    then show "bit a n \<longleftrightarrow> bit b n"
      by (simp add: bit_ucast_iff bit_drop_bit_eq)
  qed
qed simp

text \<open>The bytes are the base-256 digits of the amount, most significant first.\<close>

lemma uint_amount_to_be_u64:
  assumes "i < 8"
  shows "uint (amount_to_be_u64 a ! i) = uint a div 256 ^ (7 - i) mod 256"
proof -
  have "uint (amount_to_be_u64 a ! i) = take_bit 8 (uint (drop_bit (8 * (7 - i)) a))"
    using assms by (simp add: amount_to_be_u64_nth unsigned_ucast_eq)
  also have "uint (drop_bit (8 * (7 - i)) a) = drop_bit (8 * (7 - i)) (uint a)"
    by (rule bit_eqI) (simp add: bit_unsigned_iff bit_drop_bit_eq)
  also have "take_bit 8 \<dots> = uint a div 256 ^ (7 - i) mod 256"
    by (simp add: take_bit_eq_mod drop_bit_eq_div power_mult)
  finally show ?thesis .
qed

lemma payment_proof_message_Some:
  "payment_proof_message L a ex s = Some msg \<longleftrightarrow>
     (\<exists>bs. hex_decode L ex = Some bs \<and> length bs = 33 \<and> msg = amount_to_be_u64 a @ bs @ s)"
  by (auto simp: payment_proof_message_def split: option.splits)

lemma payment_proof_message_binds:
  assumes "payment_proof_message L a ex s = Some msg" and "payment_proof_message L a' ex' s' = Some msg"
  shows "a = a' \<and> hex_decode L ex = hex_decode L ex' \<and> s = s'"
  using assms by (auto simp: payment_proof_message_Some amount_to_be_u64_inj)

section \<open>Signatures: lemmas\<close>

lemma verify_ed25519_iff:
  "verify_ed25519 L k m s \<longleftrightarrow> ed25519_key_ok L k \<and> length s = 64 \<and> ed25519_verify L k m s"
  by (auto simp: verify_ed25519_def array_of_def)

text \<open>The message a proof claims to be signed, and a signature given in hex.\<close>

definition signed_message :: "libs \<Rightarrow> parsed_payment_proof \<Rightarrow> bytes option" where
  "signed_message L prf =
     Option.bind (decode_grin_address L (pp_sender_address prf))
       (payment_proof_message L (pp_amount prf) (pp_excess_hex prf))"

definition signature_by :: "libs \<Rightarrow> string \<Rightarrow> string \<Rightarrow> bytes \<Rightarrow> bool" where
  "signature_by L address sig_hex msg \<longleftrightarrow>
     (\<exists>k s. decode_grin_address L address = Some k \<and> hex_decode L sig_hex = Some s \<and>
        verify_ed25519 L k msg s)"

lemma verify_signatures_iff:
  "verify_signatures L prf \<longleftrightarrow>
     (\<exists>msg. signed_message L prf = Some msg \<and>
        signature_by L (pp_recipient_address prf) (pp_recipient_sig_hex prf) msg \<and>
        signature_by L (pp_sender_address prf) (pp_sender_sig_hex prf) msg)"
  by (auto simp: verify_signatures_def signed_message_def signature_by_def bind_eq_Some_conv
      split: option.splits)

section \<open>Parsing: lemmas\<close>

lemma parse_payment_proof_Some:
  "parse_payment_proof L v = Some p \<longleftrightarrow>
     (\<exists>obj a excess ra rs sa ss amount. v = JObject obj \<and> map_of obj ''amount'' = Some a \<and>
        map_of obj ''excess'' = Some (JString excess) \<and>
        map_of obj ''recipient_address'' = Some (JString ra) \<and>
        map_of obj ''recipient_sig'' = Some (JString rs) \<and>
        map_of obj ''sender_address'' = Some (JString sa) \<and>
        map_of obj ''sender_sig'' = Some (JString ss) \<and>
        proof_amount a = Some amount \<and>
        p = \<lparr>pp_amount = amount, pp_excess_hex = to_lowercase (unicode_lower L) excess,
             pp_recipient_address = ra,
             pp_recipient_sig_hex = to_lowercase (unicode_lower L) rs,
             pp_sender_address = sa,
             pp_sender_sig_hex = to_lowercase (unicode_lower L) ss\<rparr>)"
proof -
  have obj: "as_object v = Some obj \<longleftrightarrow> v = JObject obj" for v obj
    by (cases v) auto
  have str: "value_str v = Some s \<longleftrightarrow> v = JString s" for v s
    by (cases v) auto
  show ?thesis
    by (auto simp: parse_payment_proof_def bind_eq_Some_conv obj str)
qed

text \<open>The wallet's export shape of a proof.\<close>

definition proof_to_json :: "parsed_payment_proof \<Rightarrow> json" where
  "proof_to_json p =
     JObject [(''amount'', JString (show_nat (unat (pp_amount p)))),
              (''excess'', JString (pp_excess_hex p)),
              (''recipient_address'', JString (pp_recipient_address p)),
              (''recipient_sig'', JString (pp_recipient_sig_hex p)),
              (''sender_address'', JString (pp_sender_address p)),
              (''sender_sig'', JString (pp_sender_sig_hex p))]"

definition lowercase_hex :: "string \<Rightarrow> bool" where
  "lowercase_hex s \<longleftrightarrow> list_all (\<lambda>c. is_ascii_hexdigit c \<and> \<not> is_ascii_uppercase c) s"

lemma lowercase_hex_id: "lowercase_hex s \<Longrightarrow> to_lowercase ul s = s"
proof -
  assume "lowercase_hex s"
  then have "list_all is_ascii s" "list_all (\<lambda>c. \<not> is_ascii_uppercase c) s"
    by (auto simp: lowercase_hex_def list_all_iff str_defs)
  then show ?thesis by (simp add: to_lowercase_ascii map_to_ascii_lowercase_id)
qed

lemma proof_amount_show: "proof_amount (JString (show_nat (unat w))) = Some w"
proof -
  have "unat w < 2 ^ 64" using unsigned_less [of w] by simp
  then show ?thesis
    by (simp add: parse_u64_def trim_graphic show_nat_graphic parse_usize_show_nat)
qed

lemma parse_proof_to_json:
  assumes "lowercase_hex (pp_excess_hex p)" and "lowercase_hex (pp_recipient_sig_hex p)"
    and "lowercase_hex (pp_sender_sig_hex p)"
  shows "parse_payment_proof L (proof_to_json p) = Some p"
  using assms
  by (simp add: parse_payment_proof_def proof_to_json_def proof_amount_show lowercase_hex_id
      del: proof_amount.simps)

end
