(* ===== verification/Offers.thy ===== *)
theory Offers
  imports Registry Proof_Check
begin

text \<open>
  Offers of the name-transfer market, the first part of
  \<open>src/src/handlers/transfer.rs\<close>: the tags of a kind-3402 event, lodging, reading and
  revoking an offer, and the lazy expiry every reader performs. The lemmas say which event
  an offer row stands for and what each handler does to the offers table.
\<close>

section \<open>The tags of an offer\<close>

definition OFFER_KIND :: nat where
  "OFFER_KIND = 3402"

record offer_tags =
  ot_name :: string
  ot_domain :: string
  ot_buyer :: string
  ot_price :: string
  ot_proof_address :: string
  ot_expiration :: string

text \<open>The six variables the loop assigns.\<close>

record tag_vars =
  tv_name :: "string option"
  tv_domain :: "string option"
  tv_buyer :: "string option"
  tv_price :: "string option"
  tv_proof_address :: "string option"
  tv_expiration :: "string option"

definition offer_tag :: "string list \<Rightarrow> tag_vars \<Rightarrow> tag_vars" where
  "offer_tag parts st =
     (case parts of
        [] \<Rightarrow> st
      | key # _ \<Rightarrow>
          (let val = second parts in
           if key = ''name'' then st\<lparr>tv_name := val\<rparr>
           else if key = ''domain'' then st\<lparr>tv_domain := val\<rparr>
           else if key = ''p'' then st\<lparr>tv_buyer := val\<rparr>
           else if key = ''price'' then st\<lparr>tv_price := val\<rparr>
           else if key = ''proof_address'' then st\<lparr>tv_proof_address := val\<rparr>
           else if key = ''expiration'' then st\<lparr>tv_expiration := val\<rparr>
           else st))"

definition extract_offer_tags :: "event \<Rightarrow> offer_tags option" where
  "extract_offer_tags e =
     (let st = fold offer_tag (ev_tags e)
            \<lparr>tv_name = None, tv_domain = None, tv_buyer = None, tv_price = None,
             tv_proof_address = None, tv_expiration = None\<rparr>
      in Option.bind (tv_name st) (\<lambda>name.
         Option.bind (tv_domain st) (\<lambda>domain.
         Option.bind (tv_buyer st) (\<lambda>buyer.
         Option.bind (tv_price st) (\<lambda>price.
         Option.bind (tv_proof_address st) (\<lambda>proof_address.
         Option.bind (tv_expiration st) (\<lambda>expiration.
           Some \<lparr>ot_name = name, ot_domain = domain, ot_buyer = buyer, ot_price = price,
                 ot_proof_address = proof_address, ot_expiration = expiration\<rparr>)))))))"

section \<open>Lazy expiry\<close>

text \<open>\<open>node.tip_height().await.ok().map(|h| h as i64)\<close>, if there is a node.\<close>

definition observed_tip :: "world \<Rightarrow> i64 option" where
  "observed_tip w =
     (case node w of
        Some nd \<Rightarrow> (case cs_tip_height nd of Inr h \<Rightarrow> Some (u64_as_i64 h) | Inl _ \<Rightarrow> None)
      | None \<Rightarrow> None)"

definition settle_expiry :: "offer_row \<Rightarrow> i64 \<Rightarrow> (world, offer_row) prog" where
  "settle_expiry offer now =
     (if o_status offer \<noteq> ''live'' \<or> o_expiration offer \<ge> now then Ret offer
      else
        get observed_tip (\<lambda>end_height.
        act (db_execute (mark_offer_dead (o_offer_id offer) ''expired'' end_height now)) (\<lambda>_.
        get (db_query (get_offer (o_offer_id offer))) (\<lambda>settled.
        Ret (case settled of Some row \<Rightarrow> row | None \<Rightarrow> offer)))))"

section \<open>Lodging\<close>

text \<open>What the handler has checked of the body before it looks at the database.\<close>

record lodged_terms =
  lt_event :: event
  lt_name :: string
  lt_buyer :: string
  lt_price :: u64
  lt_proof_address :: string
  lt_expiration :: i64

definition invalid_offer :: "(nat \<times> string) + 'a" where
  "invalid_offer = Inl (BAD_REQUEST, ''invalid offer'')"

definition offer_event :: "libs \<Rightarrow> bytes \<Rightarrow> event option" where
  "offer_event L body =
     Option.bind (json_from_slice L body) (\<lambda>req.
     Option.bind (json_get ''offer'' req) (\<lambda>offer_val.
     event_from_json L (as_bytes (json_to_string L offer_val))))"

definition check_offer ::
  "libs \<Rightarrow> config \<Rightarrow> string \<Rightarrow> bytes \<Rightarrow> (nat \<times> string) + lodged_terms" where
  "check_offer L cfg auth_pubkey body =
     (case offer_event L body of
        None \<Rightarrow> invalid_offer
      | Some event \<Rightarrow>
          if \<not> event_verify L event then invalid_offer
          else if ev_kind event \<noteq> OFFER_KIND then invalid_offer
          else if ev_pubkey event \<noteq> auth_pubkey
          then Inl (UNAUTHORIZED, ''auth pubkey does not match offer pubkey'')
          else case extract_offer_tags event of
            None \<Rightarrow> invalid_offer
          | Some tags \<Rightarrow>
              if \<not> valid_name (ot_name tags) (cfg_name_min cfg) (cfg_name_max cfg) then invalid_offer
              else if ot_domain tags \<noteq> cfg_domain cfg then invalid_offer
              else
                (let buyer = to_lowercase (unicode_lower L) (ot_buyer tags) in
                 if \<not> valid_pubkey_hex buyer then invalid_offer
                 else case parse_u64 (trim (ot_price tags)) of
                   None \<Rightarrow> invalid_offer
                 | Some price \<Rightarrow>
                     (let proof_address = normalize_grin_address L (ot_proof_address tags) in
                      if decode_grin_address L proof_address = None then invalid_offer
                      else case parse_i64 (trim (ot_expiration tags)) of
                        None \<Rightarrow> invalid_offer
                      | Some expiration \<Rightarrow>
                          Inr \<lparr>lt_event = event, lt_name = ot_name tags, lt_buyer = buyer,
                               lt_price = price, lt_proof_address = proof_address,
                               lt_expiration = expiration\<rparr>)))"

definition json_i64 :: "i64 \<Rightarrow> json" where
  "json_i64 i = JNumber (if i < 0 then NegInt i else PosInt (i64_as_u64 i))"

text \<open>The rest: expiry window, owner, the two checks for another live offer, the insert.\<close>

definition lodge_terms :: "libs \<Rightarrow> config \<Rightarrow> lodged_terms \<Rightarrow> handler" where
  "lodge_terms L cfg lt =
     (let seller = ev_pubkey (lt_event lt);
          name = lt_name lt;
          expiration = lt_expiration lt
      in
      get unix_now (\<lambda>now.
      if expiration \<le> now \<or> expiration > wrap_i64 (now + cfg_transfer_max_offer_ttl cfg)
      then Ret (err BAD_REQUEST ''invalid offer'')
      else
        get (db_query (lookup name)) (\<lambda>owner.
        if owner \<noteq> Some seller then Ret (err FORBIDDEN ''not the owner'')
        else
          get (db_query (live_offer_for_name name now)) (\<lambda>exists.
          if exists then Ret (err CONFLICT ''offer_exists'')
          else
            (let price_i64 = u64_as_i64 (lt_price lt) in
             get (db_query (live_offer_binding (lt_proof_address lt) now)) (\<lambda>ambiguous.
             if ambiguous then Ret (err CONFLICT ''offer_ambiguous'')
             else
               (let offer_id = ev_id (lt_event lt) in
                act (db_execute (insert_offer offer_id (event_as_json L (lt_event lt)) name seller
                       (lt_buyer lt) price_i64 (lt_proof_address lt) expiration now)) (\<lambda>res.
                case res of
                  Inr _ \<Rightarrow>
                    Ret (json_response CREATED
                      [(''offer_id'', JString offer_id), (''name'', JString name),
                       (''expires_at'', json_i64 expiration)])
                | Inl ConstraintViolation \<Rightarrow> Ret (err CONFLICT ''offer_exists'')
                | Inl OtherFailure \<Rightarrow> Ret (err INTERNAL_SERVER_ERROR ''db error'')))))))))"

definition lodge_checked :: "libs \<Rightarrow> config \<Rightarrow> bytes \<Rightarrow> string \<Rightarrow> handler" where
  "lodge_checked L cfg body auth_pubkey =
     (case check_offer L cfg auth_pubkey body of
        Inl (c, msg) \<Rightarrow> Ret (err c msg)
      | Inr lt \<Rightarrow> lodge_terms L cfg lt)"

definition lodge_offer :: "libs \<Rightarrow> config \<Rightarrow> headers \<Rightarrow> bytes \<Rightarrow> handler" where
  "lodge_offer L cfg hs body =
     (let ip = client_ip hs in
      act (allow_write cfg ''transfer'' ip) (\<lambda>allowed.
      if \<not> allowed then Ret (err TOO_MANY_REQUESTS ''rate_limited'')
      else
        authenticate L cfg hs ''POST'' ''/api/v1/transfer/offer'' body (lodge_checked L cfg body)))"

section \<open>Reading and revoking\<close>

definition read_offer :: "libs \<Rightarrow> config \<Rightarrow> string \<Rightarrow> headers \<Rightarrow> handler" where
  "read_offer L cfg offer_id hs =
     act (allow_read cfg (client_ip hs)) (\<lambda>allowed.
     if \<not> allowed then Ret (err TOO_MANY_REQUESTS ''rate_limited'')
     else
       get (db_query (get_offer offer_id)) (\<lambda>found.
       case found of
         None \<Rightarrow> Ret (err NOT_FOUND ''not found'')
       | Some row \<Rightarrow>
           get unix_now (\<lambda>now.
           call (settle_expiry row now) (\<lambda>offer.
           let event_val =
             (case json_from_slice L (as_bytes (o_event_json offer)) of Some v \<Rightarrow> v | None \<Rightarrow> JNull)
           in Ret (public_json L
                (JObject [(''offer'', event_val), (''status'', JString (o_status offer))]))))))"

definition revoke_path :: "string \<Rightarrow> string" where
  "revoke_path offer_id = ''/api/v1/transfer/offer/'' @ offer_id"

definition revoked_response :: "string \<Rightarrow> response" where
  "revoked_response offer_id =
     json_response OK [(''offer_id'', JString offer_id), (''status'', JString ''revoked'')]"

definition revoke_owned :: "string \<Rightarrow> string \<Rightarrow> handler" where
  "revoke_owned offer_id auth_pubkey =
     get (db_query (get_offer offer_id)) (\<lambda>found.
     case found of
       None \<Rightarrow> Ret (err NOT_FOUND ''not found'')
     | Some offer \<Rightarrow>
         if auth_pubkey \<noteq> o_seller_pubkey offer then Ret (err FORBIDDEN ''not the owner'')
         else if o_status offer = ''consumed'' then Ret (err CONFLICT ''offer_consumed'')
         else if o_status offer = ''revoked'' then Ret (revoked_response offer_id)
         else
           get unix_now (\<lambda>now.
           if o_status offer = ''live'' then
             get observed_tip (\<lambda>end_height.
             act (db_execute (mark_offer_dead (o_offer_id offer) ''revoked'' end_height now)) (\<lambda>_.
             Ret (revoked_response offer_id)))
           else
             act (db_execute (flip_to_revoked (o_offer_id offer))) (\<lambda>_.
             Ret (revoked_response offer_id))))"

definition revoke_offer :: "libs \<Rightarrow> config \<Rightarrow> string \<Rightarrow> headers \<Rightarrow> handler" where
  "revoke_offer L cfg offer_id hs =
     act (allow_write cfg ''transfer'' (client_ip hs)) (\<lambda>allowed.
     if \<not> allowed then Ret (err TOO_MANY_REQUESTS ''rate_limited'')
     else
       authenticate L cfg hs ''DELETE'' (revoke_path offer_id) [] (revoke_owned offer_id))"

end
