(* ===== verification/Router.thy ===== *)
theory Router
  imports Claim
begin

text \<open>
  The route table, \<open>src/src/handlers/mod.rs\<close>. \<open>routes\<close> is the table the source
  builds, path template to methods to handler; matching a URL against the templates and
  filling the template's parameter is axum's work and part of the request here. A template
  that is not in the table answers 404, a method that is not, 405.
\<close>

section \<open>Requests\<close>

record request =
  rq_template :: string
  rq_param :: string
  rq_query_name :: "string option"
  rq_method :: string
  rq_headers :: headers
  rq_body :: bytes

type_synonym endpoint = "request \<Rightarrow> handler"
type_synonym router = "(string \<times> (string \<times> endpoint) list) list"

section \<open>The table\<close>

definition base_routes :: "libs \<Rightarrow> config \<Rightarrow> router" where
  "base_routes L cfg =
     [(''/.well-known/nostr.json'',
         [(''GET'', \<lambda>q. well_known L cfg (rq_headers q) (rq_query_name q))]),
      (''/api/v1/name/{name}'', [(''GET'', \<lambda>q. availability L cfg (rq_headers q) (rq_param q))]),
      (''/api/v1/register'', [(''POST'', \<lambda>q. register L cfg (rq_headers q) (rq_body q))]),
      (''/api/v1/register/{name}'',
         [(''DELETE'', \<lambda>q. unregister L cfg (rq_param q) (rq_headers q))]),
      (''/api/v1/profile/{name}'', [(''GET'', \<lambda>q. profile L cfg (rq_headers q) (rq_param q))]),
      (''/api/v1/by-pubkey/{pubkey}'',
         [(''GET'', \<lambda>q. by_pubkey L cfg (rq_headers q) (rq_param q))]),
      (''/api/v1/health'', [(''GET'', \<lambda>q. health)]),
      (''/'', [(''GET'', \<lambda>q. landing cfg)])]"

definition transfer_routes :: "libs \<Rightarrow> config \<Rightarrow> router" where
  "transfer_routes L cfg =
     [(''/api/v1/transfer/offer'', [(''POST'', \<lambda>q. lodge_offer L cfg (rq_headers q) (rq_body q))]),
      (''/api/v1/transfer/offer/{offer_id}'',
         [(''GET'', \<lambda>q. read_offer L cfg (rq_param q) (rq_headers q)),
          (''DELETE'', \<lambda>q. revoke_offer L cfg (rq_param q) (rq_headers q))]),
      (''/api/v1/transfer/claim'', [(''POST'', \<lambda>q. claim L cfg (rq_headers q) (rq_body q))])]"

definition routes :: "libs \<Rightarrow> config \<Rightarrow> router" where
  "routes L cfg =
     (if cfg_allow_transfers cfg then base_routes L cfg @ transfer_routes L cfg
      else base_routes L cfg)"

definition plain_status :: "nat \<Rightarrow> response" where
  "plain_status c = \<lparr>status = c, resp_headers = [], resp_body = Text []\<rparr>"

definition serve :: "libs \<Rightarrow> config \<Rightarrow> request \<Rightarrow> handler" where
  "serve L cfg q =
     (case map_of (routes L cfg) (rq_template q) of
        None \<Rightarrow> Ret (plain_status NOT_FOUND)
      | Some methods \<Rightarrow>
          (case map_of methods (rq_method q) of
             None \<Rightarrow> Ret (plain_status 405)
           | Some h \<Rightarrow> h q))"

section \<open>The start of the process\<close>

text \<open>
  \<open>main\<close>: the configuration from the environment, the database at the configured path, the
  application state, the router, the listener. A configuration error ends the process; a
  database that cannot be opened or given its schema and an address that cannot be bound
  panic. What SQLite and the system answer are parameters. The outcome carries the log.
\<close>

datatype process =
    Exited nat "string list"
  | Panicked string "string list"
  | Serving string config world router "string list"

definition main ::
  "libs \<Rightarrow> transport \<Rightarrow> (string \<Rightarrow> string) \<Rightarrow> env \<Rightarrow> files \<Rightarrow> (string \<Rightarrow> string + conn) \<Rightarrow>
   (string \<Rightarrow> bool) \<Rightarrow> nat \<Rightarrow> int \<Rightarrow> process" where
  "main L T dbg E F sqlite_open can_bind t st =
     (case from_env L E F of
        Inl e \<Rightarrow> Exited 1 [''configuration error: '' @ e]
      | Inr cfg \<Rightarrow>
          (let resolved = ''resolved config: '' @ summary dbg cfg; addr = cfg_bind_addr cfg in
           case sqlite_open (cfg_db_path cfg) of
             Inl msg \<Rightarrow> Panicked msg [resolved]
           | Inr c \<Rightarrow>
               (let app = app_open L T cfg c t st; router = routes L cfg in
                if \<not> can_bind addr then Panicked ''bind'' [resolved]
                else Serving addr cfg app router
                       [resolved, ''goblin-nip05d listening on '' @ addr])))"

end
