(* ===== verification/Steps.thy ===== *)
theory Steps
  imports Router
begin

text \<open>
  What one atomic step of any handler may do. \<open>db_step\<close> lists the changes of the database
  with the authority each needs: a registration is signed by the key it registers, a release
  by the key that looked like the owner, an offer row stands for a signed offer event, a
  claim for a verified payment of a lodged offer. The invariant of the system says that the
  tables are consistent and that every row has its justification; \<open>evolves\<close> is what every
  reader may rely on while others run. The argument \<open>K\<close> is the set of kernel answers the
  Grin node ever gives.
\<close>

section \<open>Authority\<close>

definition signed_request ::
  "libs \<Rightarrow> config \<Rightarrow> string \<Rightarrow> string \<Rightarrow> string \<Rightarrow> bytes \<Rightarrow> bool" where
  "signed_request L cfg key meth path body \<longleftrightarrow>
     (\<exists>hs now i. verify_nip98 L now hs meth path body (cfg_base_url cfg) (cfg_auth_max_age_secs cfg)
                 = Inr (key, i))"

definition name_allowed :: "config \<Rightarrow> string \<Rightarrow> bool" where
  "name_allowed cfg name \<longleftrightarrow>
     valid_name name (cfg_name_min cfg) (cfg_name_max cfg) \<and>
     \<not> is_reserved name (cfg_extra_reserved cfg)"

text \<open>The row stands for this offer event.\<close>

definition offer_of_event :: "libs \<Rightarrow> config \<Rightarrow> event \<Rightarrow> offer_row \<Rightarrow> bool" where
  "offer_of_event L cfg e row \<longleftrightarrow>
     event_verify L e \<and> ev_kind e = OFFER_KIND \<and>
     o_offer_id row = ev_id e \<and> o_event_json row = event_as_json L e \<and>
     o_seller_pubkey row = ev_pubkey e \<and>
     (\<exists>tags price. extract_offer_tags e = Some tags \<and>
        ot_domain tags = cfg_domain cfg \<and>
        o_name row = ot_name tags \<and> valid_name (o_name row) (cfg_name_min cfg) (cfg_name_max cfg) \<and>
        o_buyer_pubkey row = to_lowercase (unicode_lower L) (ot_buyer tags) \<and>
        valid_pubkey_hex (o_buyer_pubkey row) \<and>
        parse_u64 (trim (ot_price tags)) = Some price \<and> o_price_nanogrin row = u64_as_i64 price \<and>
        o_proof_address row = normalize_grin_address L (ot_proof_address tags) \<and>
        decode_grin_address L (o_proof_address row) \<noteq> None \<and>
        parse_i64 (trim (ot_expiration tags)) = Some (o_expiration row))"

definition offer_authentic :: "libs \<Rightarrow> config \<Rightarrow> offer_row \<Rightarrow> bool" where
  "offer_authentic L cfg row \<longleftrightarrow> (\<exists>e. offer_of_event L cfg e row)"

text \<open>A payment of the offer: a proof with this excess, signed by both parties, to the offer's
  address, of exactly the price; and a kernel answer of the node, deep enough.\<close>

definition payment_proved :: "libs \<Rightarrow> offer_row \<Rightarrow> string \<Rightarrow> bool" where
  "payment_proved L offer ex \<longleftrightarrow>
     (\<exists>prf. verify_signatures L prf \<and> pp_excess_hex prf = ex \<and>
        normalize_grin_address L (pp_recipient_address prf) = o_proof_address offer \<and>
        0 \<le> o_price_nanogrin offer \<and> pp_amount prf = i64_as_u64 (o_price_nanogrin offer))"

definition kernel_confirmed ::
  "config \<Rightarrow> (string \<Rightarrow> kernel_result \<Rightarrow> bool) \<Rightarrow> string \<Rightarrow> i64 option \<Rightarrow> bool" where
  "kernel_confirmed cfg K ex kh \<longleftrightarrow>
     (\<exists>krn. K ex krn \<and> k_found krn \<and> cfg_transfer_min_conf cfg \<le> k_confirmations krn \<and>
        kh = map_option u64_as_i64 (k_height krn))"

section \<open>Steps of the database\<close>

inductive db_step ::
  "libs \<Rightarrow> config \<Rightarrow> (string \<Rightarrow> kernel_result \<Rightarrow> bool) \<Rightarrow> conn \<Rightarrow> conn \<Rightarrow> bool"
  for L :: libs and cfg :: config and K :: "string \<Rightarrow> kernel_result \<Rightarrow> bool" where
  same: "db_step L cfg K c c"
| registers: "name_allowed cfg name \<Longrightarrow> valid_pubkey_hex k \<Longrightarrow>
     signed_request L cfg k ''POST'' ''/api/v1/register'' body \<Longrightarrow>
     register_body_from_slice L body = Some (req_name, req_key) \<Longrightarrow>
     name = to_lowercase (unicode_lower L) req_name \<Longrightarrow>
     db_step L cfg K c (snd (register_name name k t c))"
| releases: "signed_request L cfg k ''DELETE'' (unregister_path name) [] \<Longrightarrow>
     db_step L cfg K c (snd (release_name name t c))"
| lodges: "offer_of_event L cfg e \<lparr>o_offer_id = i, o_event_json = js, o_name = name,
       o_seller_pubkey = s, o_buyer_pubkey = b, o_price_nanogrin = p, o_proof_address = a,
       o_expiration = x, o_status = ''live'', o_end_height = None, o_state_changed_at = None,
       o_created_at = t\<rparr> \<Longrightarrow>
     signed_request L cfg s ''POST'' ''/api/v1/transfer/offer'' body \<Longrightarrow>
     db_step L cfg K c (snd (insert_offer i js name s b p a x t c))"
| dies: "st \<in> {''revoked'', ''expired''} \<Longrightarrow>
     db_step L cfg K c (snd (mark_offer_dead i st h t c))"
| flips: "db_step L cfg K c (snd (flip_to_revoked i c))"
| claims: "row \<in> set (tb_offers c) \<Longrightarrow> terms row = terms offer \<Longrightarrow>
     signed_request L cfg (o_buyer_pubkey offer) ''POST'' ''/api/v1/transfer/claim'' body \<Longrightarrow>
     payment_proved L offer ex \<Longrightarrow> kernel_confirmed cfg K ex kh \<Longrightarrow>
     db_step L cfg K c (snd (run_claim_txn offer ex kh t c))"

inductive_cases db_stepE: "db_step L cfg K c c'"

section \<open>The invariant\<close>

definition name_row_ok :: "config \<Rightarrow> name_row \<Rightarrow> bool" where
  "name_row_ok cfg r \<longleftrightarrow> name_allowed cfg (n_name r) \<and> valid_pubkey_hex (n_pubkey r)"

definition transfer_justified ::
  "libs \<Rightarrow> config \<Rightarrow> (string \<Rightarrow> kernel_result \<Rightarrow> bool) \<Rightarrow> offer_row list \<Rightarrow> transfer_row \<Rightarrow> bool" where
  "transfer_justified L cfg K offers t \<longleftrightarrow>
     (\<exists>row \<in> set offers. o_offer_id row = t_offer_id t \<and> o_name row = t_name t \<and>
        o_seller_pubkey row = t_seller_pubkey t \<and> o_buyer_pubkey row = t_buyer_pubkey t \<and>
        o_price_nanogrin row = t_price_nanogrin t \<and>
        payment_proved L row (t_kernel_excess t)) \<and>
     kernel_confirmed cfg K (t_kernel_excess t) (t_kernel_height t)"

definition justified_inv ::
  "libs \<Rightarrow> config \<Rightarrow> (string \<Rightarrow> kernel_result \<Rightarrow> bool) \<Rightarrow> conn \<Rightarrow> bool" where
  "justified_inv L cfg K c \<longleftrightarrow>
     (\<forall>r \<in> set (tb_names c). name_row_ok cfg r) \<and>
     (\<forall>row \<in> set (tb_offers c). offer_authentic L cfg row) \<and>
     (\<forall>t \<in> set (tb_transfers c). transfer_justified L cfg K (tb_offers c) t)"

section \<open>Offers keep their terms\<close>

lemma terms_eq_iff:
  "terms r = terms r' \<longleftrightarrow>
     o_offer_id r = o_offer_id r' \<and> o_event_json r = o_event_json r' \<and> o_name r = o_name r' \<and>
     o_seller_pubkey r = o_seller_pubkey r' \<and> o_buyer_pubkey r = o_buyer_pubkey r' \<and>
     o_price_nanogrin r = o_price_nanogrin r' \<and> o_proof_address r = o_proof_address r' \<and>
     o_expiration r = o_expiration r' \<and> o_created_at r = o_created_at r'"
  by (cases r; cases r') (auto simp: terms_def)

lemma terms_status [simp]: "terms (r\<lparr>o_status := st\<rparr>) = terms r"
  by (simp add: terms_def)

lemma offer_le_terms: "offer_le r r' \<Longrightarrow> terms r = terms r'"
  by (simp add: offer_le_def)

lemma offer_authentic_terms: "terms r = terms r' \<Longrightarrow> offer_authentic L cfg r = offer_authentic L cfg r'"
  by (simp add: terms_eq_iff offer_authentic_def offer_of_event_def)

lemma payment_proved_terms: "terms r = terms r' \<Longrightarrow> payment_proved L r ex = payment_proved L r' ex"
  by (simp add: terms_eq_iff payment_proved_def)

lemma transfer_justified_mono:
  assumes "transfer_justified L cfg K offers t"
    and "\<And>r. r \<in> set offers \<Longrightarrow> \<exists>r' \<in> set offers'. terms r = terms r'"
  shows "transfer_justified L cfg K offers' t"
proof -
  obtain row where row: "row \<in> set offers" "o_offer_id row = t_offer_id t" "o_name row = t_name t"
    "o_seller_pubkey row = t_seller_pubkey t" "o_buyer_pubkey row = t_buyer_pubkey t"
    "o_price_nanogrin row = t_price_nanogrin t" "payment_proved L row (t_kernel_excess t)"
    using assms(1) by (auto simp: transfer_justified_def)
  obtain row' where row': "row' \<in> set offers'" "terms row = terms row'"
    using assms(2) [OF row(1)] by blast
  have "payment_proved L row' (t_kernel_excess t)"
    using row(7) payment_proved_terms [OF row'(2)] by simp
  moreover have "kernel_confirmed cfg K (t_kernel_excess t) (t_kernel_height t)"
    using assms(1) by (simp add: transfer_justified_def)
  ultimately show ?thesis
    using row(2-6) row' unfolding transfer_justified_def terms_eq_iff by metis
qed

section \<open>Every step keeps the invariant and loses nothing\<close>

lemma db_step_db_inv: "db_step L cfg K c c' \<Longrightarrow> db_inv c \<Longrightarrow> db_inv c'"
  by (induction rule: db_step.induct)
     (auto intro: register_name_db_inv release_name_db_inv insert_offer_db_inv
        mark_offer_dead_db_inv flip_to_revoked_db_inv run_claim_txn_db_inv)

lemma db_step_db_le: "db_step L cfg K c c' \<Longrightarrow> db_le c c'"
  by (induction rule: db_step.induct)
     (auto intro: register_name_db_le release_name_db_le insert_offer_db_le
        mark_offer_dead_db_le flip_to_revoked_db_le run_claim_txn_db_le)

lemma justified_kept:
  assumes "justified_inv L cfg K c" and "db_le c c'"
    and "\<And>r. r \<in> set (tb_names c') \<Longrightarrow> name_row_ok cfg r"
    and "\<And>row. row \<in> set (tb_offers c') \<Longrightarrow> (\<exists>row0 \<in> set (tb_offers c). terms row0 = terms row) \<or>
           offer_authentic L cfg row"
    and "\<And>t. t \<in> set (tb_transfers c') \<Longrightarrow> t \<in> set (tb_transfers c) \<or>
           transfer_justified L cfg K (tb_offers c) t"
  shows "justified_inv L cfg K c'"
proof -
  have later: "\<exists>r' \<in> set (tb_offers c'). terms r = terms r'" if "r \<in> set (tb_offers c)" for r
    using db_le_offers [OF assms(2) that] offer_le_terms by blast
  have "offer_authentic L cfg row" if row: "row \<in> set (tb_offers c')" for row
    using assms(4) [OF row]
  proof
    assume "\<exists>row0 \<in> set (tb_offers c). terms row0 = terms row"
    then obtain row0 where "row0 \<in> set (tb_offers c)" "terms row0 = terms row" by blast
    then show ?thesis
      using assms(1) offer_authentic_terms [of row0 row L cfg] unfolding justified_inv_def by blast
  qed simp
  moreover have "transfer_justified L cfg K (tb_offers c') t" if "t \<in> set (tb_transfers c')" for t
  proof -
    have "transfer_justified L cfg K (tb_offers c) t"
      using assms(5) [OF that] assms(1) by (auto simp: justified_inv_def)
    then show ?thesis using later by (rule transfer_justified_mono)
  qed
  ultimately show ?thesis using assms(3) by (simp add: justified_inv_def)
qed

text \<open>The rows a statement leaves.\<close>

lemma register_name_rows:
  "r \<in> set (tb_names (snd (register_name name k t c))) \<Longrightarrow>
   r \<in> set (tb_names c) \<or> (n_name r = name \<and> n_pubkey r = k)"
  by (auto simp: register_name_def set_update_rows split: option.splits if_splits)

lemma release_name_rows:
  "r \<in> set (tb_names (snd (release_name name t c))) \<Longrightarrow>
   \<exists>r0 \<in> set (tb_names c). n_name r = n_name r0 \<and> n_pubkey r = n_pubkey r0"
  by (auto simp: release_name_def set_update_rows split: if_splits)

lemma mark_offer_dead_rows:
  "row \<in> set (tb_offers (snd (mark_offer_dead i st h t c))) \<Longrightarrow>
   \<exists>row0 \<in> set (tb_offers c). terms row0 = terms row"
  by (auto simp: mark_offer_dead_def set_update_rows terms_def split: if_splits)

lemma flip_to_revoked_rows:
  "row \<in> set (tb_offers (snd (flip_to_revoked i c))) \<Longrightarrow>
   \<exists>row0 \<in> set (tb_offers c). terms row0 = terms row"
  by (auto simp: flip_to_revoked_def set_update_rows terms_def split: if_splits)

lemma insert_offer_rows:
  "row \<in> set (tb_offers (snd (insert_offer i js name s b p a x t c))) \<Longrightarrow>
   row \<in> set (tb_offers c) \<or>
   row = \<lparr>o_offer_id = i, o_event_json = js, o_name = name, o_seller_pubkey = s,
     o_buyer_pubkey = b, o_price_nanogrin = p, o_proof_address = a, o_expiration = x,
     o_status = ''live'', o_end_height = None, o_state_changed_at = None, o_created_at = t\<rparr>"
  by (auto simp: insert_offer_def split: if_splits)

lemma run_claim_txn_rows:
  "r \<in> set (tb_names (snd (run_claim_txn offer ex kh t c))) \<Longrightarrow>
   r \<in> set (tb_names c) \<or>
   (\<exists>r0 \<in> set (tb_names c). n_name r = n_name r0) \<and> n_pubkey r = o_buyer_pubkey offer"
  "row \<in> set (tb_offers (snd (run_claim_txn offer ex kh t c))) \<Longrightarrow>
   \<exists>row0 \<in> set (tb_offers c). terms row0 = terms row"
  "tr \<in> set (tb_transfers (snd (run_claim_txn offer ex kh t c))) \<Longrightarrow>
   tr \<in> set (tb_transfers c) \<or> tr = transfer_record offer ex kh t"
proof -
  have "snd (run_claim_txn offer ex kh t c) = c \<or> fst (run_claim_txn offer ex kh t c) = Inr ()"
    using run_claim_txn_failed [of offer ex kh t c]
    by (cases "fst (run_claim_txn offer ex kh t c)") auto
  note cases = this
  { assume "r \<in> set (tb_names (snd (run_claim_txn offer ex kh t c)))"
    then show "r \<in> set (tb_names c) \<or>
        (\<exists>r0 \<in> set (tb_names c). n_name r = n_name r0) \<and> n_pubkey r = o_buyer_pubkey offer"
    proof (cases "snd (run_claim_txn offer ex kh t c) = c")
      case False
      then have "fst (run_claim_txn offer ex kh t c) = Inr ()" using cases by blast
      then have "r \<in> set (update_rows (sold_row offer)
          (\<lambda>r. r\<lparr>n_pubkey := o_buyer_pubkey offer, n_created_at := t\<rparr>) (tb_names c))"
        using \<open>r \<in> set (tb_names (snd (run_claim_txn offer ex kh t c)))\<close>
        by (simp add: run_claim_txn_done(4))
      then obtain r0 where "r0 \<in> set (tb_names c)"
        "r = r0 \<or> r = r0\<lparr>n_pubkey := o_buyer_pubkey offer, n_created_at := t\<rparr>"
        unfolding set_update_rows by blast
      then show ?thesis by force
    qed (use \<open>r \<in> set (tb_names (snd (run_claim_txn offer ex kh t c)))\<close> in simp) }
  { assume "row \<in> set (tb_offers (snd (run_claim_txn offer ex kh t c)))"
    then show "\<exists>row0 \<in> set (tb_offers c). terms row0 = terms row"
    proof (cases "snd (run_claim_txn offer ex kh t c) = c")
      case False
      then have "fst (run_claim_txn offer ex kh t c) = Inr ()" using cases by blast
      then have "row \<in> set (update_rows (\<lambda>r. o_offer_id r = o_offer_id offer)
          (\<lambda>r. r\<lparr>o_status := ''consumed''\<rparr>) (tb_offers c))"
        using \<open>row \<in> set (tb_offers (snd (run_claim_txn offer ex kh t c)))\<close>
        by (simp add: run_claim_txn_done(4))
      then show ?thesis unfolding set_update_rows by force
    qed (use \<open>row \<in> set (tb_offers (snd (run_claim_txn offer ex kh t c)))\<close> in auto) }
  { assume "tr \<in> set (tb_transfers (snd (run_claim_txn offer ex kh t c)))"
    then show "tr \<in> set (tb_transfers c) \<or> tr = transfer_record offer ex kh t"
      using cases by (auto simp: run_claim_txn_done(4)) }
qed

lemma db_step_names_ok:
  assumes "db_step L cfg K c c'" and "justified_inv L cfg K c" and r: "r \<in> set (tb_names c')"
  shows "name_row_ok cfg r"
proof -
  have old: "name_row_ok cfg r0" if "r0 \<in> set (tb_names c)" for r0
    using assms(2) that by (simp add: justified_inv_def)
  have same: "name_row_ok cfg r" if "r0 \<in> set (tb_names c)" "n_name r = n_name r0"
    "valid_pubkey_hex (n_pubkey r)" for r0
    using old [OF that(1)] that(2,3) by (simp add: name_row_ok_def)
  from assms(1) show "name_row_ok cfg r"
  proof (cases rule: db_step.cases)
    case same
    then show ?thesis using r old by simp
  next
    case (registers name k body req_name req_key t)
    then show ?thesis using r old by (auto simp: name_row_ok_def dest: register_name_rows)
  next
    case (releases k name t)
    then obtain r0 where "r0 \<in> set (tb_names c)" "n_name r = n_name r0" "n_pubkey r = n_pubkey r0"
      using r release_name_rows by blast
    then show ?thesis using old by (auto simp: name_row_ok_def)
  next
    case (claims row offer body ex kh t)
    have "offer_authentic L cfg offer"
      using assms(2) claims(2) offer_authentic_terms [OF claims(3), of L cfg]
      unfolding justified_inv_def by blast
    then have "valid_pubkey_hex (o_buyer_pubkey offer)"
      by (auto simp: offer_authentic_def offer_of_event_def)
    then show ?thesis
      using r old same run_claim_txn_rows(1) [of r offer ex kh t c] claims(1) by auto
  qed (use r old in \<open>simp_all add: insert_offer_frame mark_offer_dead_frame flip_to_revoked_frame\<close>)
qed

lemma db_step_offers_ok:
  assumes "db_step L cfg K c c'" and row: "row \<in> set (tb_offers c')"
  shows "(\<exists>row0 \<in> set (tb_offers c). terms row0 = terms row) \<or> offer_authentic L cfg row"
  using assms(1)
proof (cases rule: db_step.cases)
  case (lodges e i js name s b p a x t body)
  show ?thesis
    using row insert_offer_rows lodges(2) unfolding lodges(1) offer_authentic_def by blast
next
  case (dies st i h t)
  then show ?thesis using row mark_offer_dead_rows by blast
next
  case (flips i)
  then show ?thesis using row flip_to_revoked_rows by blast
next
  case (claims row' offer body ex kh t)
  then show ?thesis using row run_claim_txn_rows(2) by blast
qed (use row in \<open>auto simp: register_name_frame release_name_frame\<close>)

lemma db_step_transfers_ok:
  assumes "db_step L cfg K c c'" and tr: "tr \<in> set (tb_transfers c')"
  shows "tr \<in> set (tb_transfers c) \<or> transfer_justified L cfg K (tb_offers c) tr"
  using assms(1)
proof (cases rule: db_step.cases)
  case (claims row offer body ex kh t)
  have "transfer_justified L cfg K (tb_offers c) (transfer_record offer ex kh t)"
    using claims payment_proved_terms [OF claims(3)]
    by (auto simp: transfer_justified_def transfer_record_def terms_eq_iff intro!: bexI [of _ row])
  then show ?thesis using tr claims(1) run_claim_txn_rows(3) by blast
qed (use tr in \<open>simp_all add: register_name_frame release_name_frame insert_offer_frame
      mark_offer_dead_frame flip_to_revoked_frame\<close>)

lemma db_step_justified:
  assumes "db_step L cfg K c c'" and "justified_inv L cfg K c"
  shows "justified_inv L cfg K c'"
  by (rule justified_kept [OF assms(2) db_step_db_le [OF assms(1)]])
     (rule db_step_names_ok [OF assms], assumption, rule db_step_offers_ok [OF assms(1)], assumption,
      rule db_step_transfers_ok [OF assms(1)], assumption)

section \<open>Ownership\<close>

lemma db_step_registry:
  "db_step L cfg K c c' \<Longrightarrow> db_inv c \<Longrightarrow> registry_step (owned c) (owned c')"
proof (induction rule: db_step.induct)
  case (claims row c offer body ex kh t)
  then show ?case
    using db.transfer_refines [of c "(offer, ex, kh, t)"]
    by (simp add: execute_claim_def order_offer_def)
next
  case (registers name k body req_name req_key c t)
  then show ?case by (intro db.register_refines)
next
  case (releases k name c t)
  then show ?case by (intro db.release_refines)
qed (simp_all add: registry_step.stay owned_def insert_offer_frame mark_offer_dead_frame
       flip_to_revoked_frame)

text \<open>A name passes from one key to another only in the step of a claim, which records it.\<close>

lemma db_step_transfer:
  assumes step: "db_step L cfg K c c'" and inv: "db_inv c"
    and before: "owned c name = Some k" and after: "owned c' name = Some k'" and "k' \<noteq> k"
  shows "\<exists>tr. tr \<in> set (tb_transfers c') \<and> tr \<notin> set (tb_transfers c) \<and>
    t_name tr = name \<and> t_seller_pubkey tr = k \<and> t_buyer_pubkey tr = k'"
  using step
proof (cases rule: db_step.cases)
  case (registers n key body req_name req_key t)
  show ?thesis
  proof (cases "fst (register_name n key t c) = Inr 1")
    case True
    then show ?thesis
      using register_name_cases [OF True db_inv_names [OF inv]] registers(1) before after assms(5)
      by (auto split: if_splits)
  next
    case False
    then show ?thesis using register_name_not_done registers(1) before after assms(5) by simp
  qed
next
  case (releases key n t)
  have "owned c' n = None \<and> (\<forall>m. m \<noteq> n \<longrightarrow> owned c' m = owned c m) \<or> c' = c"
    using release_name_names(2) [OF db_inv_names [OF inv], of n t]
      release_name_failed [of n t c] releases(1)
    by (cases "fst (release_name n t c)") auto
  then show ?thesis using before after assms(5) by (cases "name = n") auto
next
  case (claims row offer body ex kh t)
  show ?thesis
  proof (cases "fst (run_claim_txn offer ex kh t c)")
    case (Inl e)
    then have "c' = c" using run_claim_txn_failed [OF Inl] claims(1) by simp
    then show ?thesis using before after assms(5) by simp
  next
    case (Inr u)
    then have ok: "fst (run_claim_txn offer ex kh t c) = Inr ()" by simp
    note names = run_claim_txn_names [OF ok db_inv_names [OF inv]]
    have "name = o_name offer" "k' = o_buyer_pubkey offer"
      using names(4) claims(1) before after assms(5) by (auto split: if_splits)
    moreover from this have "k = o_seller_pubkey offer" using names(1) before by simp
    moreover have "transfer_record offer ex kh t \<notin> set (tb_transfers c)"
      using run_claim_txn_done(3) [OF ok] by (auto simp: transfer_record_def)
    ultimately show ?thesis
      using run_claim_txn_done(4) [OF ok] claims(1)
      by (intro exI [of _ "transfer_record offer ex kh t"]) (simp add: transfer_record_def)
  qed
qed (use before after assms(5) in
     \<open>auto simp: owned_def insert_offer_frame mark_offer_dead_frame flip_to_revoked_frame\<close>)

end
