(* ===== verification/Undisturbed.thy ===== *)
theory Undisturbed
  imports Steps
begin

text \<open>
  What a handler does when it runs with no other request between its steps: the complete
  condition under which it succeeds, the change it makes to the abstract registry, and that
  it changes nothing otherwise. \<open>prologue\<close> is what every authenticated handler has gone
  through when it gets to its own work: the limiter, the NIP-98 check, the replay set.
\<close>

section \<open>The prologue\<close>

definition prologue ::
  "libs \<Rightarrow> config \<Rightarrow> string \<Rightarrow> headers \<Rightarrow> string \<Rightarrow> string \<Rightarrow> bytes \<Rightarrow> world \<Rightarrow>
   (response \<times> world) + (string \<times> world)" where
  "prologue L cfg bucket hs meth path body w =
     (let (allowed, w1) = allow_write cfg bucket (client_ip hs) w in
      if \<not> allowed then Inl (err TOO_MANY_REQUESTS ''rate_limited'', w1)
      else case authorised_by L cfg w1 hs meth path body of
        Inl (c, msg) \<Rightarrow> Inl (err c msg, w1)
      | Inr (key, i) \<Rightarrow>
          (let (fresh, w2) = auth_event_fresh cfg i w1 in
           if fresh then Inr (key, w2)
           else Inl (err UNAUTHORIZED ''auth event replayed'', w2)))"

lemma run_prologue:
  "run (act (allow_write cfg bucket (client_ip hs)) (\<lambda>allowed.
     if \<not> allowed then Ret (err TOO_MANY_REQUESTS ''rate_limited'')
     else authenticate L cfg hs meth path body k)) w =
   (case prologue L cfg bucket hs meth path body w of
      Inl r \<Rightarrow> r | Inr (key, w2) \<Rightarrow> run (k key) w2)"
  by (auto simp: prologue_def run_authenticate case_prod_beta Let_def split: sum.split)

lemma prologue_Inl:
  assumes "prologue L cfg bucket hs meth path body w = Inl (r, w')"
  shows "status r \<in> {TOO_MANY_REQUESTS, UNAUTHORIZED}" and "db w' = db w"
  using assms
  by (auto simp: prologue_def case_prod_beta Let_def authorised_by_def
      split: if_splits sum.splits dest: verify_nip98_Inl)

lemma prologue_Inr:
  assumes "prologue L cfg bucket hs meth path body w = Inr (key, w2)"
  shows "db w2 = db w" and "node w2 = node w" and "unix_now w2 = unix_now w"
    and "instant w2 = instant w" and "rate w2 = rate (snd (allow_write cfg bucket (client_ip hs) w))"
    and "sys_time w2 = sys_time w"
  using assms
  by (auto simp: prologue_def case_prod_beta Let_def authorised_by_def
      split: if_splits sum.splits)

lemma prologue_signed:
  assumes "prologue L cfg bucket hs meth path body w = Inr (key, w2)"
  shows "signed_request L cfg key meth path body"
proof -
  obtain i where "authorised_by L cfg (snd (allow_write cfg bucket (client_ip hs) w)) hs meth path body
      = Inr (key, i)"
    using assms by (auto simp: prologue_def case_prod_beta Let_def split: if_splits sum.splits)
  then show ?thesis unfolding authorised_by_def signed_request_def by blast
qed

section \<open>Register\<close>

text \<open>The key and the lowercased name a register body asks for.\<close>

definition requested :: "libs \<Rightarrow> bytes \<Rightarrow> (string \<times> string) option" where
  "requested L body =
     map_option (map_prod (to_lowercase (unicode_lower L)) (to_lowercase (unicode_lower L)))
       (register_body_from_slice L body)"

definition cooling_down :: "config \<Rightarrow> string \<Rightarrow> world \<Rightarrow> bool" where
  "cooling_down cfg key w \<longleftrightarrow>
     (\<exists>hits t. Mapping.lookup (rate w) (bucket_key ''namechange'' key) = Some hits \<and> t \<in> set hits \<and>
        instant w - t < cfg_name_change_cooldown cfg)"

lemma fst_cooldown_active:
  "fst (cooldown_active ''namechange'' key (cfg_name_change_cooldown cfg) w) = cooling_down cfg key w"
  by (auto simp: cooldown_active_def Let_def cooling_down_def retain_def filter_empty_conv
      split: option.splits)

definition register_ok :: "libs \<Rightarrow> config \<Rightarrow> bytes \<Rightarrow> string \<Rightarrow> string \<Rightarrow> world \<Rightarrow> bool" where
  "register_ok L cfg body key name w \<longleftrightarrow>
     \<not> cooling_down cfg key w \<and> requested L body = Some (name, key) \<and> valid_pubkey_hex key \<and>
     name_allowed cfg name"

lemma run_register:
  "run (register L cfg hs body) w =
     (case prologue L cfg ''reg'' hs ''POST'' ''/api/v1/register'' body w of
        Inl r \<Rightarrow> r
      | Inr (key, w2) \<Rightarrow>
          run (act (cooldown_active ''namechange'' key (cfg_name_change_cooldown cfg)) (\<lambda>cooling.
            if cooling then Ret (err TOO_MANY_REQUESTS ''name_change_cooldown'')
            else
              (case requested L body of
                 None \<Rightarrow> Ret (err BAD_REQUEST ''invalid body'')
               | Some (name, pubkey) \<Rightarrow>
                   if \<not> valid_pubkey_hex pubkey then Ret (err BAD_REQUEST ''invalid pubkey'')
                   else if pubkey \<noteq> key
                   then Ret (err UNAUTHORIZED ''auth pubkey does not match body pubkey'')
                   else if \<not> valid_name name (cfg_name_min cfg) (cfg_name_max cfg)
                   then Ret (err BAD_REQUEST ''invalid name'')
                   else if is_reserved name (cfg_extra_reserved cfg)
                   then Ret (err FORBIDDEN ''name reserved'')
                   else register_claim cfg name pubkey))) w2)"
  unfolding register_def Let_def run_prologue
  by (auto simp: requested_def split: sum.split option.split)

lemma run_register_db:
  assumes pro: "prologue L cfg ''reg'' hs ''POST'' ''/api/v1/register'' body w = Inr (key, w2)"
    and inv: "db_inv (db w)" and io: "\<not> io_err (db w) 0"
  shows "if register_ok L cfg body key name w2
    then status (fst (run (register L cfg hs body) w)) = register_outcome cfg name key w \<and>
      owned (db (snd (run (register L cfg hs body) w))) =
        (if register_outcome cfg name key w = CREATED then (owned (db w))(name \<mapsto> key)
         else owned (db w))
    else (\<forall>name'. \<not> register_ok L cfg body key name' w2) \<longrightarrow>
      status (fst (run (register L cfg hs body) w)) \<notin> {OK, CREATED} \<and>
      db (snd (run (register L cfg hs body) w)) = db w"
proof -
  let ?w3 = "snd (cooldown_active ''namechange'' key (cfg_name_change_cooldown cfg) w2)"
  have db3: "db ?w3 = db w" using prologue_Inr(1) [OF pro] by simp
  have out: "register_outcome cfg name key ?w3 = register_outcome cfg name key w"
    using prologue_Inr(1) [OF pro] by (simp add: register_outcome_def)
  show ?thesis
  proof (cases "register_ok L cfg body key name w2")
    case True
    then have req: "requested L body = Some (name, key)" "\<not> cooling_down cfg key w2"
      "valid_pubkey_hex key" "valid_name name (cfg_name_min cfg) (cfg_name_max cfg)"
      "\<not> is_reserved name (cfg_extra_reserved cfg)"
      by (auto simp: register_ok_def name_allowed_def)
    have run: "run (register L cfg hs body) w = run (register_claim cfg name key) ?w3"
      using pro req by (simp add: run_register fst_cooldown_active)
    show ?thesis
      using run_register_claim [of ?w3 cfg name key] inv io True out prologue_Inr(1) [OF pro]
      by (simp add: run)
  next
    case False
    then show ?thesis
      using pro db3
      by (auto simp: run_register fst_cooldown_active register_ok_def name_allowed_def
          split: option.split)
  qed
qed

text \<open>The complete condition of a 201, and the effect of every answer.\<close>

lemma register_created:
  assumes "db_inv (db w)" and "\<not> io_err (db w) 0"
  shows "status (fst (run (register L cfg hs body) w)) = CREATED \<longleftrightarrow>
    (\<exists>key w2 name. prologue L cfg ''reg'' hs ''POST'' ''/api/v1/register'' body w = Inr (key, w2) \<and>
       register_ok L cfg body key name w2 \<and>
       owned (db w) name = None \<and> key \<notin> ran (owned (db w)))"
    (is "?l = ?r")
proof (cases "prologue L cfg ''reg'' hs ''POST'' ''/api/v1/register'' body w")
  case (Inl r)
  then show ?thesis
    using prologue_Inl(1) [of L cfg "''reg''" hs _ _ body w "fst r" "snd r"]
    by (auto simp: run_register)
next
  case (Inr kw)
  obtain key w2 where kw: "kw = (key, w2)" by (cases kw)
  show ?thesis
  proof (cases "\<exists>name. register_ok L cfg body key name w2")
    case True
    then obtain name where ok: "register_ok L cfg body key name w2" by blast
    have only: "name' = name" if "register_ok L cfg body key name' w2" for name'
      using ok that by (simp add: register_ok_def)
    have pro: "prologue L cfg ''reg'' hs ''POST'' ''/api/v1/register'' body w = Inr (key, w2)"
      using Inr kw by simp
    have "?l \<longleftrightarrow> register_outcome cfg name key w = CREATED"
      using run_register_db [OF pro assms, of name] ok by (simp only: if_True)
    also have "\<dots> \<longleftrightarrow> owned (db w) name = None \<and> key \<notin> ran (owned (db w))"
      by (simp add: register_outcome_def split: option.split)
    also have "\<dots> \<longleftrightarrow> ?r"
    proof
      assume "owned (db w) name = None \<and> key \<notin> ran (owned (db w))"
      then show ?r using pro ok by blast
    next
      assume ?r
      then obtain name' where "register_ok L cfg body key name' w2"
        "owned (db w) name' = None" "key \<notin> ran (owned (db w))"
        using pro by (auto simp del: not_None_eq)
      then show "owned (db w) name = None \<and> key \<notin> ran (owned (db w))"
        using only by blast
    qed
    finally show ?thesis .
  next
    case False
    have pro: "prologue L cfg ''reg'' hs ''POST'' ''/api/v1/register'' body w = Inr (key, w2)"
      using Inr kw by simp
    have "\<not> ?l" using run_register_db [OF pro assms, of undefined] False by simp
    moreover have "\<not> ?r" using False pro by auto
    ultimately show ?thesis by blast
  qed
qed

section \<open>Release\<close>

definition unregister_name :: "libs \<Rightarrow> string \<Rightarrow> string" where
  "unregister_name L path_name = to_lowercase (unicode_lower L) path_name"

lemma run_unregister_prologue:
  "run (unregister L cfg n hs) w =
     (case prologue L cfg ''unreg'' hs ''DELETE'' (unregister_path (unregister_name L n)) [] w of
        Inl r \<Rightarrow> r | Inr (key, w2) \<Rightarrow> run (release_owned (unregister_name L n) key) w2)"
  unfolding unregister_def Let_def unregister_name_def [symmetric] by (rule run_prologue)

lemma run_unregister:
  assumes inv: "db_inv (db w)" and io: "\<not> io_err (db w) 0"
    and pro: "prologue L cfg ''unreg'' hs ''DELETE'' (unregister_path (unregister_name L n)) [] w
      = Inr (key, w2)"
  shows "status (fst (run (unregister L cfg n hs) w)) =
      (case owned (db w) (unregister_name L n) of
         None \<Rightarrow> NOT_FOUND | Some owner \<Rightarrow> if owner = key then OK else FORBIDDEN)"
    and "owned (db (snd (run (unregister L cfg n hs) w))) =
      (if owned (db w) (unregister_name L n) = Some key
       then (owned (db w))(unregister_name L n := None) else owned (db w))"
    and "owned (db w) (unregister_name L n) = Some key \<Longrightarrow> 0 < cfg_name_change_cooldown cfg \<Longrightarrow>
      cooling_down cfg key (snd (run (unregister L cfg n hs) w))"
proof -
  note db2 = prologue_Inr(1) [OF pro]
  have released: "fst (release_name name t (db w)) = Inr (length (filter (\<lambda>r. n_name r = name \<and> active r)
      (tb_names (db w))))" for name t
    using io by (simp add: release_name_def)
  note owned' = release_name_names(2) [OF db_inv_names [OF inv] released]
  note run = run_unregister_prologue pro release_owned_def db_query_def lookup_owned db2 io released owned'
  show "status (fst (run (unregister L cfg n hs) w)) =
      (case owned (db w) (unregister_name L n) of
         None \<Rightarrow> NOT_FOUND | Some owner \<Rightarrow> if owner = key then OK else FORBIDDEN)"
    by (simp add: run split: option.split)
  show "owned (db (snd (run (unregister L cfg n hs) w))) =
      (if owned (db w) (unregister_name L n) = Some key
       then (owned (db w))(unregister_name L n := None) else owned (db w))"
    by (simp add: run split: option.split)
  show "cooling_down cfg key (snd (run (unregister L cfg n hs) w))"
    if "owned (db w) (unregister_name L n) = Some key" and "0 < cfg_name_change_cooldown cfg"
    using that
    by (simp add: run) (auto simp: cooling_down_def record_op_def Let_def intro!: exI [of _ "instant w2"])
qed

text \<open>While a key cools down it registers nothing.\<close>

lemma register_cooling_down:
  assumes "prologue L cfg ''reg'' hs ''POST'' ''/api/v1/register'' body w = Inr (key, w2)"
    and "cooling_down cfg key w2"
  shows "status (fst (run (register L cfg hs body) w)) = TOO_MANY_REQUESTS \<and>
    db (snd (run (register L cfg hs body) w)) = db w"
  using assms prologue_Inr(1) [OF assms(1)] by (simp add: run_register fst_cooldown_active)

section \<open>Expiry\<close>

lemma run_settle_expiry_live:
  "o_status row \<noteq> ''live'' \<or> o_expiration row \<ge> now \<Longrightarrow> run (settle_expiry row now) w = (row, w)"
  by (auto simp: settle_expiry_def)

lemma run_settle_expiry_owned:
  "owned (db (snd (run (settle_expiry row now) w))) = owned (db w)"
  "tb_transfers (db (snd (run (settle_expiry row now) w))) = tb_transfers (db w)"
  "io_err (db (snd (run (settle_expiry row now) w))) = io_err (db w)"
  "node (snd (run (settle_expiry row now) w)) = node w"
  "rate (snd (run (settle_expiry row now) w)) = rate w"
  "instant (snd (run (settle_expiry row now) w)) = instant w"
  by (simp_all add: settle_expiry_def owned_def mark_offer_dead_def)

lemma run_settle_expiry_now: "unix_now (snd (run (settle_expiry row now) w)) = unix_now w"
  by (simp add: settle_expiry_def unix_now_def)

lemma run_settle_expiry_db_inv:
  "db_inv (db w) \<Longrightarrow> db_inv (db (snd (run (settle_expiry row now) w)))"
  by (simp add: settle_expiry_def mark_offer_dead_db_inv)

text \<open>An offer past its expiration is expired with the tip of the moment as its end height.\<close>

lemma run_settle_expiry_expired:
  assumes inv: "db_inv (db w)" and io: "\<not> io_err (db w) 0"
    and row: "row \<in> set (tb_offers (db w))" "o_status row = ''live''" "o_expiration row < now"
  shows "fst (run (settle_expiry row now) w) =
    row\<lparr>o_status := ''expired'', o_end_height := observed_tip w, o_state_changed_at := Some now\<rparr>"
proof -
  let ?dead = "row\<lparr>o_status := ''expired'', o_end_height := observed_tip w,
    o_state_changed_at := Some now\<rparr>"
  let ?rows = "tb_offers (snd (mark_offer_dead (o_offer_id row) ''expired'' (observed_tip w) now (db w)))"
  have mem: "?dead \<in> set ?rows"
    using io row by (auto simp: mark_offer_dead_def set_update_rows)
  have "distinct (map o_offer_id ?rows)"
    using mark_offer_dead_db_inv [OF inv, of "''expired''"] by (simp add: db_inv_def offers_inv_def)
  then have "List.find (\<lambda>r. o_offer_id r = o_offer_id row) ?rows = Some ?dead"
    using mem by (intro find_eq_SomeI) (auto dest: distinct_map_eqD)
  then show ?thesis
    using io row by (simp add: settle_expiry_def db_query_def get_offer_row query_row_def)
      (simp add: mark_offer_dead_def)
qed

section \<open>Claim\<close>

text \<open>The complete condition under which a settled offer is claimed.\<close>

definition claim_ok ::
  "libs \<Rightarrow> config \<Rightarrow> string \<Rightarrow> offer_row \<Rightarrow> parsed_payment_proof \<Rightarrow> i64 \<Rightarrow> world \<Rightarrow> i64 option \<Rightarrow> bool" where
  "claim_ok L cfg key offer prf now w kh \<longleftrightarrow>
     (\<exists>d. death_gate cfg offer now = Inr d \<and> key = o_buyer_pubkey offer \<and>
        owned (db w) (o_name offer) = Some (o_seller_pubkey offer) \<and>
        proof_gate L offer prf = Inr () \<and>
        kernel_gate cfg offer d (observed_kernel (pp_excess_hex prf) w) = Inr kh) \<and>
     (\<forall>t \<in> set (tb_transfers (db w)).
        t_kernel_excess t \<noteq> pp_excess_hex prf \<and> t_offer_id t \<noteq> o_offer_id offer) \<and>
     o_buyer_pubkey offer \<notin> ran (owned (db w))"

lemma run_claim_txn_result:
  assumes inv: "names_inv (tb_names c)" and io: "\<And>k. \<not> io_err c k"
    and owner: "owned c (o_name offer) = Some (o_seller_pubkey offer)"
    and buyer: "o_buyer_pubkey offer \<notin> ran (owned c)"
  shows "fst (run_claim_txn offer ex kh now c) =
    (if \<exists>t \<in> set (tb_transfers c). t_kernel_excess t = ex \<or> t_offer_id t = o_offer_id offer
     then Inl Reused else Inr ())"
proof -
  obtain r0 where r0: "r0 \<in> set (tb_names c)" "sold_row offer r0"
    using owner by (auto simp: owned_def owner_of_Some [OF inv])
  have "filter (sold_row offer) (tb_names c) = [r0]"
  proof (rule filter_single)
    show "distinct (tb_names c)" using names_inv_distinct [OF inv] by (simp add: distinct_map)
    show "r = r0" if "r \<in> set (tb_names c)" "sold_row offer r" for r
      using that r0 names_inv_row [OF inv, of r r0] by simp
  qed (rule r0)+
  moreover have "\<not> pubkey_active_elsewhere (o_buyer_pubkey offer) (o_name offer) (tb_names c)"
    using buyer by (auto simp: owned_def ran_owner_of [OF inv] pubkey_active_elsewhere_def list_ex_iff)
  ultimately show ?thesis
    using io by (auto simp: run_claim_txn_def reassign_name_def insert_transfer_def Let_def list_ex_iff)
qed

lemma run_claim_txn_succeeds:
  assumes inv: "names_inv (tb_names c)" and io: "\<And>k. \<not> io_err c k"
    and owner: "owned c (o_name offer) = Some (o_seller_pubkey offer)"
    and buyer: "o_buyer_pubkey offer \<notin> ran (owned c)"
    and fresh: "\<forall>t \<in> set (tb_transfers c). t_kernel_excess t \<noteq> ex \<and> t_offer_id t \<noteq> o_offer_id offer"
  shows "fst (run_claim_txn offer ex kh now c) = Inr ()"
  using run_claim_txn_result [OF inv io owner buyer, of ex kh now] fresh by auto

lemma run_claim_execute:
  fixes w :: world and offer :: offer_row and pf :: parsed_payment_proof
  assumes inv: "db_inv (db w)" and io: "\<And>k. \<not> io_err (db w) k"
    and owner: "owned (db w) (o_name offer) = Some (o_seller_pubkey offer)"
  defines "fresh \<equiv> (\<forall>t \<in> set (tb_transfers (db w)).
        t_kernel_excess t \<noteq> pp_excess_hex pf \<and> t_offer_id t \<noteq> o_offer_id offer) \<and>
     o_buyer_pubkey offer \<notin> ran (owned (db w))"
  shows "status (fst (run (claim_execute cfg offer pf kh now) w)) = CREATED \<longleftrightarrow> fresh"
    and "db (snd (run (claim_execute cfg offer pf kh now) w)) =
      (if fresh then snd (run_claim_txn offer (pp_excess_hex pf) kh now (db w)) else db w)"
proof -
  note rows = db_inv_names [OF inv]
  let ?txn = "run_claim_txn offer (pp_excess_hex pf) kh now (db w)"
  have used: "db_query (excess_used (pp_excess_hex pf)) w \<longleftrightarrow>
      (\<exists>t \<in> set (tb_transfers (db w)). t_kernel_excess t = pp_excess_hex pf)"
    using io by (auto simp: db_query_def excess_used_def query_row_def find_None_iff
        simp del: not_None_eq)
  have held: "db_query (name_of (o_buyer_pubkey offer)) w = None \<longleftrightarrow>
      o_buyer_pubkey offer \<notin> ran (owned (db w))"
    using name_of_None [OF rows io] by (simp add: db_query_def)
  have fresh_iff: "fresh \<longleftrightarrow> \<not> db_query (excess_used (pp_excess_hex pf)) w \<and>
      (\<forall>t \<in> set (tb_transfers (db w)). t_offer_id t \<noteq> o_offer_id offer) \<and>
      db_query (name_of (o_buyer_pubkey offer)) w = None"
    unfolding fresh_def used held by blast
  have "(status (fst (run (claim_execute cfg offer pf kh now) w)) = CREATED \<longleftrightarrow> fresh) \<and>
    db (snd (run (claim_execute cfg offer pf kh now) w)) = (if fresh then snd ?txn else db w)"
  proof (cases "db_query (excess_used (pp_excess_hex pf)) w \<or>
      db_query (name_of (o_buyer_pubkey offer)) w \<noteq> None")
    case True
    then have "\<not> fresh" unfolding fresh_iff by blast
    with True show ?thesis by (auto simp: claim_execute_def)
  next
    case False
    then have buyer: "o_buyer_pubkey offer \<notin> ran (owned (db w))" unfolding held by blast
    have "fst ?txn = Inr () \<longleftrightarrow> fresh"
      using run_claim_txn_result [OF rows io owner buyer, of "pp_excess_hex pf" kh now] buyer
      unfolding fresh_def by auto
    then show ?thesis
      using False run_claim_txn_failed [of offer "pp_excess_hex pf" kh now "db w"]
      by (cases "fst ?txn") (auto simp: claim_execute_def split: tx_err.split)
  qed
  then show "status (fst (run (claim_execute cfg offer pf kh now) w)) = CREATED \<longleftrightarrow> fresh"
    and "db (snd (run (claim_execute cfg offer pf kh now) w)) =
      (if fresh then snd ?txn else db w)" by blast+
qed

lemma gates_not_created:
  "death_gate cfg offer now = Inl (c, m) \<Longrightarrow> c \<noteq> CREATED"
  "proof_gate L offer pf = Inl (c, m) \<Longrightarrow> c \<noteq> CREATED"
  "kernel_gate cfg offer d a = Inl (c, m) \<Longrightarrow> c \<noteq> CREATED"
  by (auto simp: death_gate_def Let_def split: if_split_asm option.split_asm)
     (auto simp: proof_gate_def split: if_split_asm,
      auto simp: kernel_gate_def Let_def split: if_split_asm option.split_asm sum.split_asm)

lemma run_claim_offer:
  assumes inv: "db_inv (db w)" and io: "\<And>k. \<not> io_err (db w) k"
  shows "status (fst (run (claim_offer L cfg key offer pf now) w)) = CREATED \<longleftrightarrow>
      (\<exists>kh. claim_ok L cfg key offer pf now w kh)"
    and "claim_ok L cfg key offer pf now w kh \<Longrightarrow>
      db (snd (run (claim_offer L cfg key offer pf now) w)) =
      snd (run_claim_txn offer (pp_excess_hex pf) kh now (db w))"
    and "\<nexists>kh. claim_ok L cfg key offer pf now w kh \<Longrightarrow>
      db (snd (run (claim_offer L cfg key offer pf now) w)) = db w"
proof -
  let ?run = "run (claim_offer L cfg key offer pf now) w"
  have "(status (fst ?run) = CREATED \<longleftrightarrow> (\<exists>kh. claim_ok L cfg key offer pf now w kh)) \<and>
    (\<forall>kh. claim_ok L cfg key offer pf now w kh \<longrightarrow>
      db (snd ?run) = snd (run_claim_txn offer (pp_excess_hex pf) kh now (db w))) \<and>
    ((\<nexists>kh. claim_ok L cfg key offer pf now w kh) \<longrightarrow> db (snd ?run) = db w)"
  proof (cases "\<exists>d kh. death_gate cfg offer now = Inr d \<and> key = o_buyer_pubkey offer \<and>
        owned (db w) (o_name offer) = Some (o_seller_pubkey offer) \<and>
        proof_gate L offer pf = Inr () \<and>
        kernel_gate cfg offer d (observed_kernel (pp_excess_hex pf) w) = Inr kh")
    case True
    then obtain d kh where ok: "death_gate cfg offer now = Inr d" "key = o_buyer_pubkey offer"
      "owned (db w) (o_name offer) = Some (o_seller_pubkey offer)" "proof_gate L offer pf = Inr ()"
      "kernel_gate cfg offer d (observed_kernel (pp_excess_hex pf) w) = Inr kh" by blast
    have run: "?run = run (claim_execute cfg offer pf kh now) w"
      using ok io by (simp add: claim_offer_def db_query_def lookup_owned)
    have "claim_ok L cfg key offer pf now w kh' \<longleftrightarrow> kh' = kh \<and>
       (\<forall>t \<in> set (tb_transfers (db w)).
        t_kernel_excess t \<noteq> pp_excess_hex pf \<and> t_offer_id t \<noteq> o_offer_id offer) \<and>
       o_buyer_pubkey offer \<notin> ran (owned (db w))" for kh'
      using ok by (auto simp: claim_ok_def)
    then show ?thesis
      using run_claim_execute [OF inv io ok(3), of cfg pf kh now] by (simp add: run)
  next
    case False
    have "status (fst ?run) \<noteq> CREATED \<and> db (snd ?run) = db w"
      using False gates_not_created io
      by (auto simp: claim_offer_def db_query_def lookup_owned split: sum.split)
    moreover have "\<not> claim_ok L cfg key offer pf now w kh" for kh
      using False unfolding claim_ok_def by blast
    ultimately show ?thesis by blast
  qed
  then show "status (fst ?run) = CREATED \<longleftrightarrow> (\<exists>kh. claim_ok L cfg key offer pf now w kh)"
    and "claim_ok L cfg key offer pf now w kh \<Longrightarrow>
      db (snd ?run) = snd (run_claim_txn offer (pp_excess_hex pf) kh now (db w))"
    and "\<nexists>kh. claim_ok L cfg key offer pf now w kh \<Longrightarrow> db (snd ?run) = db w" by blast+
qed

text \<open>The whole handler: the offer is read, settled, and claimed or found consumed.\<close>

lemma run_claim_prologue:
  "run (claim L cfg hs body) w =
     (case prologue L cfg ''transfer'' hs ''POST'' ''/api/v1/transfer/claim'' body w of
        Inl r \<Rightarrow> r | Inr (key, w2) \<Rightarrow> run (claim_authenticated L cfg body key) w2)"
  unfolding claim_def Let_def by (rule run_prologue)

definition settled :: "offer_row \<Rightarrow> world \<Rightarrow> offer_row" where
  "settled row w = fst (run (settle_expiry row (unix_now w)) w)"

lemma run_settle_expiry_cong:
  assumes "db w' = db w" and "node w' = node w"
  shows "fst (run (settle_expiry row now) w') = fst (run (settle_expiry row now) w)"
    and "db (snd (run (settle_expiry row now) w')) = db (snd (run (settle_expiry row now) w))"
  using assms by (simp_all add: settle_expiry_def observed_tip_def db_query_def)

lemma claim_ok_cong:
  assumes "owned (db w') = owned (db w)" and "tb_transfers (db w') = tb_transfers (db w)"
    and "node w' = node w"
  shows "claim_ok L cfg key offer pf now w' kh = claim_ok L cfg key offer pf now w kh"
  using assms by (simp add: claim_ok_def observed_kernel_def)

text \<open>A claim of this offer by this key, before the offer's state is looked at.\<close>

definition claim_asked ::
  "libs \<Rightarrow> config \<Rightarrow> headers \<Rightarrow> bytes \<Rightarrow> world \<Rightarrow> string \<Rightarrow> offer_row \<Rightarrow> parsed_payment_proof \<Rightarrow> bool" where
  "claim_asked L cfg hs body w key row pf \<longleftrightarrow>
     (\<exists>w2 i. prologue L cfg ''transfer'' hs ''POST'' ''/api/v1/transfer/claim'' body w = Inr (key, w2) \<and>
        claim_request L body = Inr (i, pf) \<and> get_offer i (db w) = Some row)"

lemma run_claim_settled:
  assumes asked: "claim_asked L cfg hs body w key row pf"
    and open_offer: "o_status (settled row w) \<noteq> ''consumed''"
  obtains w3 where "run (claim L cfg hs body) w = run (claim_offer L cfg key (settled row w) pf (unix_now w)) w3"
    and "db w3 = db (snd (run (settle_expiry row (unix_now w)) w))"
    and "node w3 = node w" and "unix_now w3 = unix_now w"
proof -
  obtain w2 i where ask: "prologue L cfg ''transfer'' hs ''POST'' ''/api/v1/transfer/claim'' body w
      = Inr (key, w2)" "claim_request L body = Inr (i, pf)" "get_offer i (db w) = Some row"
    using asked by (auto simp: claim_asked_def)
  note same = prologue_Inr(1-3) [OF ask(1)]
  obtain offer w3 where settle: "run (settle_expiry row (unix_now w)) w2 = (offer, w3)"
    by (cases "run (settle_expiry row (unix_now w)) w2")
  have offer: "offer = settled row w"
    using run_settle_expiry_cong(1) [OF same(1,2), of row "unix_now w"] settle by (simp add: settled_def)
  have "run (claim L cfg hs body) w = run (claim_offer L cfg key offer pf (unix_now w)) w3"
    using ask same settle open_offer offer
    by (simp add: run_claim_prologue claim_authenticated_def db_query_def)
  moreover have "db w3 = db (snd (run (settle_expiry row (unix_now w)) w))"
    using run_settle_expiry_cong(2) [OF same(1,2), of row "unix_now w"] settle by simp
  moreover have "node w3 = node w" "unix_now w3 = unix_now w"
    using run_settle_expiry_owned(4) [of row "unix_now w" w2] run_settle_expiry_now [of row "unix_now w" w2]
      settle same by simp_all
  ultimately show ?thesis using that offer by blast
qed

lemma run_claim:
  assumes inv: "db_inv (db w)" and io: "\<And>k. \<not> io_err (db w) k"
    and asked: "claim_asked L cfg hs body w key row pf"
    and open_offer: "o_status (settled row w) \<noteq> ''consumed''"
  shows "status (fst (run (claim L cfg hs body) w)) = CREATED \<longleftrightarrow>
      (\<exists>kh. claim_ok L cfg key (settled row w) pf (unix_now w) w kh)"
    and "claim_ok L cfg key (settled row w) pf (unix_now w) w kh \<Longrightarrow>
      db (snd (run (claim L cfg hs body) w)) =
      snd (run_claim_txn (settled row w) (pp_excess_hex pf) kh (unix_now w)
            (db (snd (run (settle_expiry row (unix_now w)) w))))"
    and "\<nexists>kh. claim_ok L cfg key (settled row w) pf (unix_now w) w kh \<Longrightarrow>
      db (snd (run (claim L cfg hs body) w)) = db (snd (run (settle_expiry row (unix_now w)) w))"
proof -
  obtain w3 where run: "run (claim L cfg hs body) w = run (claim_offer L cfg key (settled row w) pf (unix_now w)) w3"
    and w3: "db w3 = db (snd (run (settle_expiry row (unix_now w)) w))" "node w3 = node w"
    by (rule run_claim_settled [OF asked open_offer])
  have inv3: "db_inv (db w3)" using run_settle_expiry_db_inv [OF inv] w3(1) by simp
  have io3: "\<not> io_err (db w3) k" for k
    using io run_settle_expiry_owned(3) [of row "unix_now w" w] w3(1) by simp
  have ok: "claim_ok L cfg key (settled row w) pf (unix_now w) w3 kh =
      claim_ok L cfg key (settled row w) pf (unix_now w) w kh" for kh
    using run_settle_expiry_owned [of row "unix_now w" w] w3 by (intro claim_ok_cong) simp_all
  note served = run_claim_offer [OF inv3 io3, of L cfg key "settled row w" pf "unix_now w", unfolded ok, folded run]
  show "status (fst (run (claim L cfg hs body) w)) = CREATED \<longleftrightarrow>
      (\<exists>kh. claim_ok L cfg key (settled row w) pf (unix_now w) w kh)"
    by (rule served(1))
  show "db (snd (run (claim L cfg hs body) w)) =
      snd (run_claim_txn (settled row w) (pp_excess_hex pf) kh (unix_now w)
            (db (snd (run (settle_expiry row (unix_now w)) w))))"
    if "claim_ok L cfg key (settled row w) pf (unix_now w) w kh"
    using served(2) that w3(1) by simp
  show "db (snd (run (claim L cfg hs body) w)) = db (snd (run (settle_expiry row (unix_now w)) w))"
    if "\<nexists>kh. claim_ok L cfg key (settled row w) pf (unix_now w) w kh"
    using served(3) that w3(1) by simp
qed

text \<open>What an undisturbed claim that passes its checks answers and does.\<close>

lemma claim_offer_created:
  "status (fst (run (claim_offer L cfg key offer pf now) w)) = CREATED \<Longrightarrow>
   fst (run (claim_offer L cfg key offer pf now) w) =
     json_response CREATED (claim_success (o_name offer) (cfg_domain cfg) (o_buyer_pubkey offer))"
  by (auto simp: claim_offer_def claim_execute_def dest: gates_not_created
      split: sum.splits option.splits tx_err.splits if_splits)

lemma run_claim_ok:
  assumes inv: "db_inv (db w)" and io: "\<And>k. \<not> io_err (db w) k"
    and asked: "claim_asked L cfg hs body w key row pf"
    and st: "settled row w = offer" "o_status offer \<noteq> ''consumed''"
    and ok: "claim_ok L cfg key offer pf (unix_now w) w kh"
  shows "fst (run (claim L cfg hs body) w) =
      json_response CREATED (claim_success (o_name offer) (cfg_domain cfg) (o_buyer_pubkey offer))"
    and "owned (db (snd (run (claim L cfg hs body) w))) = (owned (db w))(o_name offer \<mapsto> o_buyer_pubkey offer)"
    and "tb_transfers (db (snd (run (claim L cfg hs body) w))) =
      tb_transfers (db w) @ [transfer_record offer (pp_excess_hex pf) kh (unix_now w)]"
proof -
  note opened = st(2) [folded st(1)]
  note run = run_claim [OF inv io asked opened, unfolded st(1)]
  obtain w3 where "run (claim L cfg hs body) w = run (claim_offer L cfg key offer pf (unix_now w)) w3"
    using run_claim_settled [OF asked opened] st(1) by blast
  moreover have "status (fst (run (claim L cfg hs body) w)) = CREATED"
    using run(1) ok by blast
  ultimately show "fst (run (claim L cfg hs body) w) =
      json_response CREATED (claim_success (o_name offer) (cfg_domain cfg) (o_buyer_pubkey offer))"
    using claim_offer_created [of L cfg key offer pf "unix_now w" w3] by simp
  let ?c3 = "db (snd (run (settle_expiry row (unix_now w)) w))"
  have inv3: "names_inv (tb_names ?c3)"
    by (rule db_inv_names [OF run_settle_expiry_db_inv [OF inv]])
  have paid: "fst (run_claim_txn offer (pp_excess_hex pf) kh (unix_now w) ?c3) = Inr ()"
    using ok io
    by (intro run_claim_txn_succeeds [OF inv3]) (auto simp: claim_ok_def run_settle_expiry_owned)
  show "owned (db (snd (run (claim L cfg hs body) w))) = (owned (db w))(o_name offer \<mapsto> o_buyer_pubkey offer)"
    using run_claim_txn_names(4) [OF paid inv3] by (simp add: run(2) [OF ok] run_settle_expiry_owned)
  show "tb_transfers (db (snd (run (claim L cfg hs body) w))) =
      tb_transfers (db w) @ [transfer_record offer (pp_excess_hex pf) kh (unix_now w)]"
    using run_claim_txn_done(4) [OF paid] by (simp add: run(2) [OF ok] run_settle_expiry_owned)
qed

text \<open>The condition in terms of the offer, the proof, and what the node answers.\<close>

lemma claim_ok_iff:
  assumes "o_status offer \<in> offer_statuses" and "o_status offer \<noteq> ''consumed''"
  shows "claim_ok L cfg key offer pf now w kh \<longleftrightarrow>
    key = o_buyer_pubkey offer \<and> owned (db w) (o_name offer) = Some (o_seller_pubkey offer) \<and>
    verify_signatures L pf \<and>
    normalize_grin_address L (pp_recipient_address pf) = o_proof_address offer \<and>
    0 \<le> o_price_nanogrin offer \<and> pp_amount pf = i64_as_u64 (o_price_nanogrin offer) \<and>
    (\<exists>krn. observed_kernel (pp_excess_hex pf) w = Inr krn \<and> k_found krn \<and>
       cfg_transfer_min_conf cfg \<le> k_confirmations krn \<and>
       kh = map_option u64_as_i64 (k_height krn)) \<and>
    (o_status offer = ''live'' \<or>
       wrap_i64 (now - (case o_state_changed_at offer of Some t \<Rightarrow> t | None \<Rightarrow> now))
         \<le> cfg_transfer_claim_grace cfg \<and>
       (\<exists>end_h h. o_end_height offer = Some end_h \<and> kh = Some h \<and> h \<le> end_h)) \<and>
    (\<forall>t \<in> set (tb_transfers (db w)).
       t_kernel_excess t \<noteq> pp_excess_hex pf \<and> t_offer_id t \<noteq> o_offer_id offer) \<and>
    o_buyer_pubkey offer \<notin> ran (owned (db w))"
    (is "_ = ?rhs")
proof -
  let ?old = "wrap_i64 (now - (case o_state_changed_at offer of Some t \<Rightarrow> t | None \<Rightarrow> now))"
  have status: "o_status offer = ''live'' \<or> o_status offer = ''revoked'' \<or> o_status offer = ''expired''"
    using assms by (auto simp: offer_statuses_def)
  have death: "death_gate cfg offer now = Inr d \<longleftrightarrow>
      (if o_status offer = ''live'' then d = None
       else ?old \<le> cfg_transfer_claim_grace cfg \<and> d \<noteq> None \<and> o_end_height offer = d)" for d
    using status by (auto simp: death_gate_def Let_def not_less split: option.split)
  have pg: "proof_gate L offer pf = Inr () \<longleftrightarrow> verify_signatures L pf \<and>
      normalize_grin_address L (pp_recipient_address pf) = o_proof_address offer \<and>
      0 \<le> o_price_nanogrin offer \<and> pp_amount pf = i64_as_u64 (o_price_nanogrin offer)"
    by (auto simp: proof_gate_def)
  have krn: "kernel_gate cfg offer d a = Inr kh \<longleftrightarrow>
      (\<exists>krn. a = Inr krn \<and> k_found krn \<and> cfg_transfer_min_conf cfg \<le> k_confirmations krn \<and>
         kh = map_option u64_as_i64 (k_height krn)) \<and>
      (d = None \<or> (\<exists>h. kh = Some h \<and> h \<le> the d))" for d a
    by (cases d) (auto simp: kernel_gate_def Let_def not_less split: sum.split option.split)
  show ?thesis
    unfolding claim_ok_def death pg krn
    by (cases "o_status offer = ''live''") auto
qed

section \<open>Lodge\<close>

definition offer_live :: "i64 \<Rightarrow> offer_row \<Rightarrow> bool" where
  "offer_live now row \<longleftrightarrow> o_status row = ''live'' \<and> now \<le> o_expiration row"

definition lodged_row :: "libs \<Rightarrow> lodged_terms \<Rightarrow> i64 \<Rightarrow> offer_row" where
  "lodged_row L lt now =
     \<lparr>o_offer_id = ev_id (lt_event lt), o_event_json = event_as_json L (lt_event lt),
      o_name = lt_name lt, o_seller_pubkey = ev_pubkey (lt_event lt),
      o_buyer_pubkey = lt_buyer lt, o_price_nanogrin = u64_as_i64 (lt_price lt),
      o_proof_address = lt_proof_address lt, o_expiration = lt_expiration lt,
      o_status = ''live'', o_end_height = None, o_state_changed_at = None, o_created_at = now\<rparr>"

definition lodge_ok :: "config \<Rightarrow> lodged_terms \<Rightarrow> world \<Rightarrow> bool" where
  "lodge_ok cfg lt w \<longleftrightarrow>
     unix_now w < lt_expiration lt \<and>
     lt_expiration lt \<le> wrap_i64 (unix_now w + cfg_transfer_max_offer_ttl cfg) \<and>
     owned (db w) (lt_name lt) = Some (ev_pubkey (lt_event lt)) \<and>
     (\<forall>r \<in> set (tb_offers (db w)). offer_live (unix_now w) r \<longrightarrow>
        o_name r \<noteq> lt_name lt \<and> o_proof_address r \<noteq> lt_proof_address lt) \<and>
     (\<forall>r \<in> set (tb_offers (db w)). o_offer_id r \<noteq> ev_id (lt_event lt))"

lemma live_queries:
  assumes "\<not> io_err c 0"
  shows "live_offer_for_name name now c \<longleftrightarrow>
      (\<exists>r \<in> set (tb_offers c). offer_live now r \<and> o_name r = name)"
    and "live_offer_binding a now c \<longleftrightarrow>
      (\<exists>r \<in> set (tb_offers c). offer_live now r \<and> o_proof_address r = a)"
proof -
  have find: "List.find P xs \<noteq> None \<longleftrightarrow> (\<exists>x \<in> set xs. P x)" for P and xs :: "offer_row list"
    unfolding find_None_iff by blast
  show "live_offer_for_name name now c \<longleftrightarrow>
      (\<exists>r \<in> set (tb_offers c). offer_live now r \<and> o_name r = name)"
    and "live_offer_binding a now c \<longleftrightarrow>
      (\<exists>r \<in> set (tb_offers c). offer_live now r \<and> o_proof_address r = a)"
    unfolding live_offer_for_name_def live_offer_binding_def query_row_def if_not_P [OF assms] find
    by (auto simp: offer_live_def)
qed

lemma run_lodge_terms:
  assumes io: "\<not> io_err (db w) 0"
  shows "status (fst (run (lodge_terms L cfg lt) w)) = CREATED \<longleftrightarrow> lodge_ok cfg lt w"
    and "db (snd (run (lodge_terms L cfg lt) w)) =
      (if lodge_ok cfg lt w
       then (db w)\<lparr>tb_offers := tb_offers (db w) @ [lodged_row L lt (unix_now w)]\<rparr> else db w)"
proof -
  let ?run = "run (lodge_terms L cfg lt) w" and ?now = "unix_now w"
  let ?window = "?now < lt_expiration lt \<and>
     lt_expiration lt \<le> wrap_i64 (?now + cfg_transfer_max_offer_ttl cfg)"
  let ?owner = "owned (db w) (lt_name lt) = Some (ev_pubkey (lt_event lt))"
  let ?free = "\<not> live_offer_for_name (lt_name lt) ?now (db w) \<and>
     \<not> live_offer_binding (lt_proof_address lt) ?now (db w)"
  let ?new = "\<not> list_ex (\<lambda>r. o_offer_id r = ev_id (lt_event lt)) (tb_offers (db w))"
  have ok: "lodge_ok cfg lt w \<longleftrightarrow> ?window \<and> ?owner \<and> ?free \<and> ?new"
    unfolding lodge_ok_def live_queries [OF io] list_ex_iff by blast
  have "(status (fst ?run) = CREATED \<longleftrightarrow> lodge_ok cfg lt w) \<and>
    db (snd ?run) = (if lodge_ok cfg lt w
       then (db w)\<lparr>tb_offers := tb_offers (db w) @ [lodged_row L lt ?now]\<rparr> else db w)"
  proof (cases "?window \<and> ?owner \<and> ?free")
    case True
    then show ?thesis
      using io
      by (cases ?new) (simp_all add: ok lodge_terms_def Let_def db_query_def lookup_owned
          insert_offer_def lodged_row_def)
  next
    case False
    then show ?thesis
      unfolding ok using io
      by (auto simp: lodge_terms_def Let_def db_query_def lookup_owned)
  qed
  then show "status (fst ?run) = CREATED \<longleftrightarrow> lodge_ok cfg lt w"
    and "db (snd ?run) = (if lodge_ok cfg lt w
       then (db w)\<lparr>tb_offers := tb_offers (db w) @ [lodged_row L lt ?now]\<rparr> else db w)" by blast+
qed

lemma run_lodge_prologue:
  "run (lodge_offer L cfg hs body) w =
     (case prologue L cfg ''transfer'' hs ''POST'' ''/api/v1/transfer/offer'' body w of
        Inl r \<Rightarrow> r | Inr (key, w2) \<Rightarrow> run (lodge_checked L cfg body key) w2)"
  unfolding lodge_offer_def Let_def by (rule run_prologue)

definition lodge_asked ::
  "libs \<Rightarrow> config \<Rightarrow> headers \<Rightarrow> bytes \<Rightarrow> world \<Rightarrow> lodged_terms \<Rightarrow> bool" where
  "lodge_asked L cfg hs body w lt \<longleftrightarrow>
     (\<exists>key w2. prologue L cfg ''transfer'' hs ''POST'' ''/api/v1/transfer/offer'' body w = Inr (key, w2) \<and>
        check_offer L cfg key body = Inr lt)"

lemma run_lodge:
  assumes io: "\<not> io_err (db w) 0" and asked: "lodge_asked L cfg hs body w lt"
  shows "status (fst (run (lodge_offer L cfg hs body) w)) = CREATED \<longleftrightarrow> lodge_ok cfg lt w"
    and "db (snd (run (lodge_offer L cfg hs body) w)) =
      (if lodge_ok cfg lt w
       then (db w)\<lparr>tb_offers := tb_offers (db w) @ [lodged_row L lt (unix_now w)]\<rparr> else db w)"
proof -
  obtain key w2 where
    ask: "prologue L cfg ''transfer'' hs ''POST'' ''/api/v1/transfer/offer'' body w = Inr (key, w2)"
      "check_offer L cfg key body = Inr lt"
    using asked by (auto simp: lodge_asked_def)
  note same = prologue_Inr(1-3) [OF ask(1)]
  have ok: "lodge_ok cfg lt w2 = lodge_ok cfg lt w" by (simp add: lodge_ok_def same)
  have run: "run (lodge_offer L cfg hs body) w = run (lodge_terms L cfg lt) w2"
    using ask by (simp add: run_lodge_prologue lodge_checked_def)
  have io2: "\<not> io_err (db w2) 0" using io same by simp
  show "status (fst (run (lodge_offer L cfg hs body) w)) = CREATED \<longleftrightarrow> lodge_ok cfg lt w"
    and "db (snd (run (lodge_offer L cfg hs body) w)) =
      (if lodge_ok cfg lt w
       then (db w)\<lparr>tb_offers := tb_offers (db w) @ [lodged_row L lt (unix_now w)]\<rparr> else db w)"
    using run_lodge_terms [OF io2, of L cfg lt] by (simp_all add: run ok same)
qed

lemma run_lodge_refused:
  assumes "\<nexists>lt. lodge_asked L cfg hs body w lt"
  shows "db (snd (run (lodge_offer L cfg hs body) w)) = db w"
proof (cases "prologue L cfg ''transfer'' hs ''POST'' ''/api/v1/transfer/offer'' body w")
  case (Inl r)
  then show ?thesis
    using prologue_Inl(2) [of L cfg _ hs _ _ body w "fst r" "snd r"] by (simp add: run_lodge_prologue)
next
  case (Inr kw)
  obtain key w2 where kw: "kw = (key, w2)" by (cases kw)
  have "isl (check_offer L cfg key body)"
    using assms Inr kw by (cases "check_offer L cfg key body") (auto simp: lodge_asked_def)
  then show ?thesis
    using Inr kw prologue_Inr(1) [OF Inr [unfolded kw]]
    by (cases "check_offer L cfg key body") (auto simp: run_lodge_prologue lodge_checked_def)
qed

text \<open>At most one live offer for a name, and for an address.\<close>

definition live_unique :: "i64 \<Rightarrow> offer_row list \<Rightarrow> bool" where
  "live_unique now rows \<longleftrightarrow>
     (\<forall>r \<in> set rows. \<forall>r' \<in> set rows. offer_live now r \<longrightarrow> offer_live now r' \<longrightarrow>
        o_name r = o_name r' \<or> o_proof_address r = o_proof_address r' \<longrightarrow> r = r')"

lemma live_unique_later: "live_unique now rows \<Longrightarrow> now \<le> now' \<Longrightarrow> live_unique now' rows"
  by (force simp: live_unique_def offer_live_def)

lemma lodge_live_unique:
  assumes "\<not> io_err (db w) 0" and unique: "live_unique (unix_now w) (tb_offers (db w))"
  shows "live_unique (unix_now w) (tb_offers (db (snd (run (lodge_offer L cfg hs body) w))))"
proof (cases "\<exists>lt. lodge_asked L cfg hs body w lt \<and> lodge_ok cfg lt w")
  case True
  then obtain lt where lt: "lodge_asked L cfg hs body w lt" "lodge_ok cfg lt w" by blast
  have other: "o_name r \<noteq> lt_name lt \<and> o_proof_address r \<noteq> lt_proof_address lt"
    if "r \<in> set (tb_offers (db w))" "offer_live (unix_now w) r" for r
    using lt(2) that by (simp add: lodge_ok_def)
  have new: "o_name (lodged_row L lt t) = lt_name lt"
    "o_proof_address (lodged_row L lt t) = lt_proof_address lt" for t
    by (simp_all add: lodged_row_def)
  have "live_unique (unix_now w) (tb_offers (db w) @ [lodged_row L lt (unix_now w)])"
    unfolding live_unique_def
  proof (intro ballI impI)
    fix r r' assume *: "r \<in> set (tb_offers (db w) @ [lodged_row L lt (unix_now w)])"
      "r' \<in> set (tb_offers (db w) @ [lodged_row L lt (unix_now w)])"
      "offer_live (unix_now w) r" "offer_live (unix_now w) r'"
      "o_name r = o_name r' \<or> o_proof_address r = o_proof_address r'"
    consider "r \<in> set (tb_offers (db w))" "r' \<in> set (tb_offers (db w))"
      | "r = r'" | "r \<in> set (tb_offers (db w))" "r' = lodged_row L lt (unix_now w)"
      | "r' \<in> set (tb_offers (db w))" "r = lodged_row L lt (unix_now w)"
      using *(1,2) by auto
    then show "r = r'"
    proof cases
      case 1
      then show ?thesis using unique *(3-5) unfolding live_unique_def by blast
    next
      case 3
      then show ?thesis using other [of r] *(3,5) new by auto
    next
      case 4
      then show ?thesis using other [of r'] *(4,5) new by auto
    qed
  qed
  then show ?thesis using run_lodge(2) [OF assms(1) lt(1)] lt(2) by simp
next
  case False
  then show ?thesis
    using run_lodge(2) [OF assms(1), of L cfg hs body] run_lodge_refused [of L cfg hs body w] unique
    by (cases "\<exists>lt. lodge_asked L cfg hs body w lt") auto
qed

section \<open>Revoke\<close>

text \<open>What revoking makes of an offer that is not consumed.\<close>

definition revoked_row :: "i64 \<Rightarrow> i64 option \<Rightarrow> offer_row \<Rightarrow> offer_row" where
  "revoked_row now tip row =
     (if o_status row = ''live''
      then row\<lparr>o_status := ''revoked'', o_end_height := tip, o_state_changed_at := Some now\<rparr>
      else row\<lparr>o_status := ''revoked''\<rparr>)"

lemma run_revoke_prologue:
  "run (revoke_offer L cfg i hs) w =
     (case prologue L cfg ''transfer'' hs ''DELETE'' (revoke_path i) [] w of
        Inl r \<Rightarrow> r | Inr (key, w2) \<Rightarrow> run (revoke_owned i key) w2)"
  unfolding revoke_offer_def by (rule run_prologue)

lemma update_rows_cong:
  "(\<And>r. r \<in> set rows \<Longrightarrow> (if P r then f r else r) = (if P' r then f' r else r)) \<Longrightarrow>
   update_rows P f rows = update_rows P' f' rows"
  by (simp add: update_rows_def)

lemma update_rows_id: "(\<And>r. r \<in> set rows \<Longrightarrow> P r \<Longrightarrow> f r = r) \<Longrightarrow> update_rows P f rows = rows"
  by (simp add: update_rows_def map_idI)

lemma run_revoke_owned:
  assumes inv: "db_inv (db w)" and io: "\<not> io_err (db w) 0"
    and row: "row \<in> set (tb_offers (db w))"
  shows "status (fst (run (revoke_owned (o_offer_id row) key) w)) =
      (if key \<noteq> o_seller_pubkey row then FORBIDDEN
       else if o_status row = ''consumed'' then CONFLICT else OK)"
    and "db (snd (run (revoke_owned (o_offer_id row) key) w)) =
      (if key = o_seller_pubkey row \<and> o_status row \<noteq> ''consumed''
       then (db w)\<lparr>tb_offers := update_rows (\<lambda>r. o_offer_id r = o_offer_id row)
              (revoked_row (unix_now w) (observed_tip w)) (tb_offers (db w))\<rparr>
       else db w)"
proof -
  have only: "r = row" if "r \<in> set (tb_offers (db w))" "o_offer_id r = o_offer_id row" for r
    using inv row that by (auto simp: db_inv_def offers_inv_def dest: distinct_map_eqD)
  have get: "get_offer (o_offer_id row) (db w) = Some row"
    unfolding get_offer_row query_row_def if_not_P [OF io] by (rule find_eq_SomeI) (use row only in auto)
  have st: "o_status row \<in> offer_statuses"
    using inv row by (auto simp: db_inv_def offers_inv_def list_all_iff)
  show "status (fst (run (revoke_owned (o_offer_id row) key) w)) =
      (if key \<noteq> o_seller_pubkey row then FORBIDDEN
       else if o_status row = ''consumed'' then CONFLICT else OK)"
    using get by (simp add: revoke_owned_def db_query_def revoked_response_def)
  have rows: "update_rows (\<lambda>r. o_offer_id r = o_offer_id row)
      (revoked_row (unix_now w) (observed_tip w)) (tb_offers (db w)) =
    (if o_status row = ''live''
     then update_rows (\<lambda>r. o_offer_id r = o_offer_id row \<and> o_status r = ''live'')
       (\<lambda>r. r\<lparr>o_status := ''revoked'', o_end_height := observed_tip w,
             o_state_changed_at := Some (unix_now w)\<rparr>) (tb_offers (db w))
     else update_rows (\<lambda>r. o_offer_id r = o_offer_id row) (\<lambda>r. r\<lparr>o_status := ''revoked''\<rparr>)
       (tb_offers (db w)))"
    by (auto intro!: update_rows_cong simp: revoked_row_def dest: only)
  have idle: "update_rows (\<lambda>r. o_offer_id r = o_offer_id row)
      (revoked_row (unix_now w) (observed_tip w)) (tb_offers (db w)) = tb_offers (db w)"
    if "o_status row = ''revoked''"
    using that by (intro update_rows_id) (auto simp: revoked_row_def dest: only)
  show "db (snd (run (revoke_owned (o_offer_id row) key) w)) =
      (if key = o_seller_pubkey row \<and> o_status row \<noteq> ''consumed''
       then (db w)\<lparr>tb_offers := update_rows (\<lambda>r. o_offer_id r = o_offer_id row)
              (revoked_row (unix_now w) (observed_tip w)) (tb_offers (db w))\<rparr>
       else db w)"
  proof (cases "o_status row = ''revoked''")
    case True
    then show ?thesis using get idle by (simp add: revoke_owned_def db_query_def)
  next
    case False
    then show ?thesis
      using get io
      by (simp add: rows revoke_owned_def db_query_def mark_offer_dead_def flip_to_revoked_def)
  qed
qed

lemma run_revoke:
  assumes inv: "db_inv (db w)" and io: "\<not> io_err (db w) 0"
    and row: "row \<in> set (tb_offers (db w))"
    and pro: "prologue L cfg ''transfer'' hs ''DELETE'' (revoke_path (o_offer_id row)) [] w = Inr (key, w2)"
  shows "status (fst (run (revoke_offer L cfg (o_offer_id row) hs) w)) =
      (if key \<noteq> o_seller_pubkey row then FORBIDDEN
       else if o_status row = ''consumed'' then CONFLICT else OK)"
    and "db (snd (run (revoke_offer L cfg (o_offer_id row) hs) w)) =
      (if key = o_seller_pubkey row \<and> o_status row \<noteq> ''consumed''
       then (db w)\<lparr>tb_offers := update_rows (\<lambda>r. o_offer_id r = o_offer_id row)
              (revoked_row (unix_now w) (observed_tip w)) (tb_offers (db w))\<rparr>
       else db w)"
  using run_revoke_owned [of w2 row key] prologue_Inr(1-3) [OF pro] inv io row pro
  by (simp_all add: run_revoke_prologue observed_tip_def)

end
