(* ===== verification/Limiter.thy ===== *)
theory Limiter
  imports Undisturbed
begin

text \<open>
  The limiter of \<open>src/src/ratelimit.rs\<close> over whole sequences of calls: it decides as the
  textbook sliding-window limiter, which never forgets a hit, although it drops old hits
  and, above 50,000 keys, whole entries. This needs all calls to use one window; the cleanup
  a call with a short window triggers also drops the entries of buckets with longer windows.
\<close>

section \<open>Sequences of calls\<close>

text \<open>A call: bucket, client, maximum, time.\<close>

type_synonym limiter_call = "string \<times> string \<times> nat \<times> nat"

fun limiter_run :: "duration \<Rightarrow> world \<Rightarrow> limiter_call list \<Rightarrow> bool list" where
  "limiter_run win w [] = []"
| "limiter_run win w ((b, ip, m, t) # cs) =
     (let (ok, w') = allow b ip m win (w\<lparr>instant := t\<rparr>) in ok # limiter_run win w' cs)"

text \<open>The reference: the history holds every admitted call.\<close>

definition recent :: "duration \<Rightarrow> string \<Rightarrow> nat \<Rightarrow> (string \<times> nat) list \<Rightarrow> nat list" where
  "recent win key now hist = map snd (filter (\<lambda>(k, t). k = key \<and> now - t < win) hist)"

fun window_run :: "duration \<Rightarrow> (string \<times> nat) list \<Rightarrow> limiter_call list \<Rightarrow> bool list" where
  "window_run win hist [] = []"
| "window_run win hist ((b, ip, m, t) # cs) =
     (let key = bucket_key b ip;
          ok = length (recent win key t hist) < m
      in ok # window_run win (if ok then hist @ [(key, t)] else hist) cs)"

definition call_time :: "limiter_call \<Rightarrow> nat" where
  "call_time c = snd (snd (snd c))"

section \<open>The limiter agrees with the reference\<close>

definition hits_of :: "world \<Rightarrow> string \<Rightarrow> nat list" where
  "hits_of w key = Mapping.lookup_default [] (rate w) key"

definition agrees :: "duration \<Rightarrow> nat \<Rightarrow> world \<Rightarrow> (string \<times> nat) list \<Rightarrow> bool" where
  "agrees win T w hist \<longleftrightarrow>
     (\<forall>key now. T \<le> now \<longrightarrow> retain now win (hits_of w key) = recent win key now hist)"

lemma retain_append: "retain now win (xs @ ys) = retain now win xs @ retain now win ys"
  by (simp add: retain_def)

lemma retain_retain: "T \<le> now \<Longrightarrow> retain now win (retain T win hits) = retain now win hits"
  by (auto simp: retain_def intro!: filter_cong)

lemma retain_none: "T \<le> now \<Longrightarrow> \<not> list_ex (\<lambda>t. T - t < win) hits \<Longrightarrow> retain now win hits = []"
  by (fastforce simp: retain_def filter_empty_conv list_ex_iff)

lemma recent_append:
  "recent win key now (hist @ [(k, t)]) =
     recent win key now hist @ (if k = key then retain now win [t] else [])"
  by (simp add: recent_def retain_def)

lemma hits_of_instant [simp]: "hits_of (w\<lparr>instant := t\<rparr>) key = hits_of w key"
  by (simp add: hits_of_def)

lemma hits_of_rate [simp]: "hits_of (w\<lparr>rate := M\<rparr>) key = Mapping.lookup_default [] M key"
  by (simp add: hits_of_def)

lemma allow_cases:
  "allow b ip m win w =
     (let hits = retain (instant w) win (hits_of w (bucket_key b ip)) in
      if m \<le> length hits then (False, w\<lparr>rate := Mapping.update (bucket_key b ip) hits (rate w)\<rparr>)
      else (True, w\<lparr>rate :=
        (let M = Mapping.update (bucket_key b ip) (hits @ [instant w]) (rate w)
         in if Mapping.size M > 50000
            then Mapping.filter (\<lambda>_ v. list_ex (\<lambda>t. instant w - t < win) v) M else M)\<rparr>))"
  by (simp add: allow_def Let_def hits_of_def)

lemma retain_cleanup:
  assumes "T \<le> now"
  shows "retain now win (Mapping.lookup_default []
      (if P then Mapping.filter (\<lambda>_ v. list_ex (\<lambda>t. T - t < win) v) M else M) key) =
    retain now win (Mapping.lookup_default [] M key)"
  using retain_none [OF assms, of win]
  by (auto simp: Mapping.lookup_default_def Mapping.lookup_filter retain_def split: option.split)

lemma hits_of_allow:
  assumes "instant w \<le> now"
  shows "retain now win (hits_of (snd (allow b ip m win w)) key) =
    retain now win (hits_of w key) @
    (if key = bucket_key b ip \<and> fst (allow b ip m win w) then retain now win [instant w] else [])"
  unfolding allow_cases Let_def
  by (simp add: retain_cleanup [OF assms] lookup_default_update' retain_append
      retain_retain [OF assms])
     (simp add: hits_of_def)

lemma agrees_later: "agrees win T w hist \<Longrightarrow> T \<le> T' \<Longrightarrow> agrees win T' (w\<lparr>instant := t\<rparr>) hist"
  by (simp add: agrees_def hits_of_def)

lemma limiter_agrees:
  assumes "agrees win T w hist" and "sorted (map call_time cs)" and "\<forall>c \<in> set cs. T \<le> call_time c"
  shows "limiter_run win w cs = window_run win hist cs"
  using assms
proof (induction cs arbitrary: T w hist)
  case (Cons c cs)
  obtain b ip m t where c: "c = (b, ip, m, t)" by (cases c)
  let ?w = "w\<lparr>instant := t\<rparr>" and ?key = "bucket_key b ip"
  have T: "T \<le> t" using Cons.prems(3) by (simp add: c call_time_def)
  have agr: "agrees win t ?w hist" by (rule agrees_later [OF Cons.prems(1) T])
  have ok: "fst (allow b ip m win ?w) \<longleftrightarrow> length (recent win ?key t hist) < m"
    using agr by (auto simp: allow_cases Let_def agrees_def not_le)
  have "agrees win t (snd (allow b ip m win ?w))
      (if length (recent win ?key t hist) < m then hist @ [(?key, t)] else hist)"
    unfolding agrees_def
  proof (intro allI impI)
    fix key now assume "t \<le> now"
    then show "retain now win (hits_of (snd (allow b ip m win ?w)) key) =
        recent win key now (if length (recent win ?key t hist) < m then hist @ [(?key, t)] else hist)"
      using hits_of_allow [of ?w now win b ip m key] agr ok
      by (auto simp: agrees_def recent_append)
  qed
  then have "limiter_run win (snd (allow b ip m win ?w)) cs =
      window_run win (if length (recent win ?key t hist) < m then hist @ [(?key, t)] else hist) cs"
    by (rule Cons.IH) (use Cons.prems(2) in \<open>auto simp: c call_time_def\<close>)
  then show ?case using ok by (simp add: c case_prod_beta Let_def)
qed simp

lemma agrees_start: "rate w = Mapping.empty \<Longrightarrow> agrees win T w []"
  by (simp add: agrees_def hits_of_def Mapping.lookup_default_empty retain_def recent_def)

section \<open>The bound\<close>

definition admitted :: "limiter_call list \<Rightarrow> bool list \<Rightarrow> (string \<times> nat) list" where
  "admitted cs oks =
     map (\<lambda>((b, ip, m, t), ok). (bucket_key b ip, t)) (filter snd (zip cs oks))"

text \<open>How many of the calls fall into the window that ends at \<open>t\<close>.\<close>

definition burst :: "duration \<Rightarrow> string \<Rightarrow> nat \<Rightarrow> (string \<times> nat) list \<Rightarrow> nat" where
  "burst win key t hist = length (filter (\<lambda>(k, t'). k = key \<and> t' \<le> t \<and> t - t' < win) hist)"

lemma admitted_Cons:
  "admitted ((b, ip, m, t) # cs) (ok # oks) =
     (if ok then [(bucket_key b ip, t)] else []) @ admitted cs oks"
  by (simp add: admitted_def)

lemma burst_snoc:
  "burst win key t (hist @ [(k, t')]) =
     burst win key t hist + (if k = key \<and> t' \<le> t \<and> t - t' < win then 1 else 0)"
  by (simp add: burst_def)

lemma burst_le_recent:
  "T \<le> t \<Longrightarrow> burst win key t hist \<le> length (recent win key T hist)"
  unfolding burst_def recent_def length_map
  by (induction hist) auto

lemma window_run_bound:
  assumes "sorted (map call_time cs)" and "\<forall>t. burst win key t hist \<le> m"
    and "\<forall>(b, ip, m', t) \<in> set cs. bucket_key b ip = key \<longrightarrow> m' \<le> m"
  shows "burst win key t (hist @ admitted cs (window_run win hist cs)) \<le> m"
  using assms
proof (induction cs arbitrary: hist)
  case Nil
  then show ?case by (simp add: admitted_def)
next
  case (Cons c cs)
  obtain b ip m' T where c: "c = (b, ip, m', T)" by (cases c)
  let ?ok = "length (recent win (bucket_key b ip) T hist) < m'"
  let ?hist = "if ?ok then hist @ [(bucket_key b ip, T)] else hist"
  have "burst win key t' ?hist \<le> m" for t'
  proof (cases "?ok \<and> bucket_key b ip = key \<and> T \<le> t'")
    case True
    then have "burst win key t' hist < m'"
      using burst_le_recent [of T t' win key hist] by auto
    also have "m' \<le> m" using Cons.prems(3) True by (simp add: c)
    finally show ?thesis using True by (simp add: burst_snoc)
  next
    case False
    then show ?thesis using Cons.prems(2) by (auto simp: burst_snoc)
  qed
  then have "burst win key t (?hist @ admitted cs (window_run win ?hist cs)) \<le> m"
    using Cons.prems(1,3) by (intro Cons.IH) auto
  then show ?case by (simp add: c admitted_Cons Let_def split: if_splits)
qed

lemma length_retain: "length (retain now win hits) \<le> length hits"
  by (simp add: retain_def)

lemma length_hits_of_allow:
  "length (hits_of (snd (allow b ip m win w)) key) \<le> length (hits_of w key) + 1"
proof -
  have filter: "length (Mapping.lookup_default [] (if P then Mapping.filter f M else M) key) \<le>
      length (Mapping.lookup_default [] M key)" for P f and M :: "(string, nat list) mapping"
    by (auto simp: Mapping.lookup_default_def Mapping.lookup_filter split: option.split)
  let ?k = "bucket_key b ip"
  let ?hits = "retain (instant w) win (hits_of w ?k)"
  let ?M = "Mapping.update ?k (?hits @ [instant w]) (rate w)"
  have h: "length ?hits \<le> length (hits_of w ?k)" by (rule length_retain)
  show ?thesis
  proof (cases "m \<le> length ?hits")
    case True
    then show ?thesis
      using h by (auto simp: allow_cases Let_def lookup_default_update' hits_of_def)
  next
    case False
    have "length (hits_of (snd (allow b ip m win w)) key) \<le> length (Mapping.lookup_default [] ?M key)"
      unfolding allow_cases Let_def if_not_P [OF False] snd_conv hits_of_rate by (rule filter)
    also have "\<dots> \<le> length (hits_of w key) + 1"
      using h by (auto simp: lookup_default_update' hits_of_def)
    finally show ?thesis .
  qed
qed

section \<open>Buckets and the cleanup\<close>

text \<open>Below 50,000 keys a call touches no other key.\<close>

lemma allow_other_key:
  assumes "k \<noteq> bucket_key b ip" and "finite (Mapping.keys (rate w))"
    and "Mapping.size (rate w) < 50000"
  shows "Mapping.lookup (rate (snd (allow b ip m win w))) k = Mapping.lookup (rate w) k"
proof -
  have "Mapping.size (Mapping.update (bucket_key b ip) v (rate w)) \<le> 50000" for v
    using assms(2,3) by (simp add: Mapping.size_update)
  then show ?thesis
    using assms(1) by (auto simp: allow_cases Let_def not_less [symmetric])
qed

text \<open>Above, a read drops the cooldown of a key that has been quiet for the read window.\<close>

definition crowded :: "string \<Rightarrow> nat \<Rightarrow> world \<Rightarrow> world" where
  "crowded k t w =
     w\<lparr>rate := Mapping.update k [t] (Mapping.tabulate (map show_nat [0..<50001]) (\<lambda>_. []))\<rparr>"

lemma show_nat_inj: "show_nat a = show_nat b \<longleftrightarrow> a = b"
  by (metis digits_val_show_nat option.inject)

lemma crowded_size:
  "50000 < Mapping.size (Mapping.update j v (rate (crowded k t w)))"
proof -
  have "Mapping.size (Mapping.tabulate (map show_nat [0..<50001]) (\<lambda>_. [])) = (50001::nat)"
    by (simp add: distinct_remdups_id distinct_map inj_on_def show_nat_inj del: upt_rec_numeral)
  then show ?thesis
    by (simp add: crowded_def Mapping.size_update keys_update keys_tabulate)
qed

lemma cleanup_forgets:
  assumes "bucket_key b ip \<noteq> k" and "win \<le> instant w - t"
    and "length (retain (instant w) win (hits_of (crowded k t w) (bucket_key b ip))) < m"
  shows "Mapping.lookup (rate (snd (allow b ip m win (crowded k t w)))) k = None"
proof -
  have "instant (crowded k t w) = instant w" by (simp add: crowded_def)
  moreover have "Mapping.lookup (rate (crowded k t w)) k = Some [t]" by (simp add: crowded_def)
  ultimately show ?thesis
    using assms crowded_size [of "bucket_key b ip" _ k t w]
    by (simp add: allow_cases Let_def Mapping.lookup_filter)
qed

end
