(* ===== verification/System.thy ===== *)
theory System
  imports Steps
begin

text \<open>
  All requests together. The shared state evolves by the atomic steps of any number of
  handlers in flight, interleaved in any order, and by the environment: clocks move, SQLite
  statements fail, the Grin node changes its answers. Every handler of the route table is
  shown to do only steps of \<open>Steps\<close>, whatever the others do in between; the
  interpretation of \<open>rely_guarantee\<close> then gives the invariant for every reachable
  state of the service.
\<close>

section \<open>What everyone may rely on\<close>

definition node_answers :: "(string \<Rightarrow> kernel_result \<Rightarrow> bool) \<Rightarrow> world \<Rightarrow> bool" where
  "node_answers K w \<longleftrightarrow>
     (\<forall>nd ex krn. node w = Some nd \<longrightarrow> cs_kernel nd ex = Inr krn \<longrightarrow> K ex krn)"

definition sys_inv ::
  "libs \<Rightarrow> config \<Rightarrow> (string \<Rightarrow> kernel_result \<Rightarrow> bool) \<Rightarrow> world \<Rightarrow> bool" where
  "sys_inv L cfg K w \<longleftrightarrow>
     db_inv (db w) \<and> justified_inv L cfg K (db w) \<and> node_answers K w"

text \<open>A used event id stays on record while it is younger than the replay window.\<close>

definition seen_kept :: "config \<Rightarrow> world \<Rightarrow> world \<Rightarrow> bool" where
  "seen_kept cfg w w' \<longleftrightarrow> instant w \<le> instant w' \<and>
     (\<forall>i t. Mapping.lookup (seen_auth w) i = Some t \<longrightarrow> instant w' - t < replay_window cfg \<longrightarrow>
        Mapping.lookup (seen_auth w') i = Some t)"

definition evolves ::
  "libs \<Rightarrow> config \<Rightarrow> (string \<Rightarrow> kernel_result \<Rightarrow> bool) \<Rightarrow> world \<Rightarrow> world \<Rightarrow> bool" where
  "evolves L cfg K w w' \<longleftrightarrow>
     (sys_inv L cfg K w \<longrightarrow> sys_inv L cfg K w') \<and> db_le (db w) (db w') \<and> seen_kept cfg w w'"

text \<open>One atomic step of a handler.\<close>

definition handler_step ::
  "libs \<Rightarrow> config \<Rightarrow> (string \<Rightarrow> kernel_result \<Rightarrow> bool) \<Rightarrow> world \<Rightarrow> world \<Rightarrow> bool" where
  "handler_step L cfg K w w' \<longleftrightarrow>
     db_step L cfg K (db w) (db w') \<and> node w' = node w \<and> instant w' = instant w \<and>
     sys_time w' = sys_time w \<and> seen_kept cfg w w'"

text \<open>A change that is not a handler's: the tables, the limiter and the replay set stay.\<close>

definition environment ::
  "(string \<Rightarrow> kernel_result \<Rightarrow> bool) \<Rightarrow> world \<Rightarrow> world \<Rightarrow> bool" where
  "environment K w w' \<longleftrightarrow>
     tb_names (db w') = tb_names (db w) \<and> tb_offers (db w') = tb_offers (db w) \<and>
     tb_transfers (db w') = tb_transfers (db w) \<and> rate w' = rate w \<and>
     seen_auth w' = seen_auth w \<and> instant w \<le> instant w' \<and>
     (node_answers K w \<longrightarrow> node_answers K w')"

definition request_handler :: "libs \<Rightarrow> config \<Rightarrow> handler \<Rightarrow> bool" where
  "request_handler L cfg h \<longleftrightarrow> (\<exists>q. h = serve L cfg q)"

text \<open>What an answer of the service says of the database, whatever request it answers: a
  registered name is on record, a lodged offer is on record with its terms, a claimed name has
  a transfer to the buyer.\<close>

definition promised :: "config \<Rightarrow> response \<Rightarrow> world \<Rightarrow> bool" where
  "promised cfg r w \<longleftrightarrow>
     (\<forall>name. resp_body r = Json (JObject (registered_body cfg name)) \<longrightarrow>
        (\<exists>row \<in> set (tb_names (db w)). n_name row = name)) \<and>
     (\<forall>i name x. resp_body r = Json (JObject [(''offer_id'', JString i), (''name'', JString name),
           (''expires_at'', x)]) \<longrightarrow>
        (\<exists>row \<in> set (tb_offers (db w)). o_offer_id row = i \<and> o_name row = name \<and>
           x = json_i64 (o_expiration row))) \<and>
     (\<forall>name buyer. resp_body r = Json (JObject (claim_success name (cfg_domain cfg) buyer)) \<longrightarrow>
        (\<exists>t \<in> set (tb_transfers (db w)). t_name t = name \<and> t_buyer_pubkey t = buyer))"

section \<open>The relations fit together\<close>

lemma seen_kept_refl [simp]: "seen_kept cfg w w"
  by (simp add: seen_kept_def)

lemma seen_kept_trans: "seen_kept cfg w w' \<Longrightarrow> seen_kept cfg w' w'' \<Longrightarrow> seen_kept cfg w w''"
proof -
  assume a: "seen_kept cfg w w'" and b: "seen_kept cfg w' w''"
  have mono: "instant w' - t \<le> instant w'' - t" for t
    using b by (simp add: seen_kept_def diff_le_mono)
  have "Mapping.lookup (seen_auth w'') i = Some t"
    if "Mapping.lookup (seen_auth w) i = Some t" "instant w'' - t < replay_window cfg" for i t
  proof -
    have "instant w' - t < replay_window cfg" using mono that(2) by (rule order_le_less_trans)
    then show ?thesis using a b that by (simp add: seen_kept_def)
  qed
  then show ?thesis using a b by (auto simp: seen_kept_def)
qed

lemma evolves_refl [simp]: "evolves L cfg K w w"
  by (simp add: evolves_def)

lemma evolves_trans: "evolves L cfg K w w' \<Longrightarrow> evolves L cfg K w' w'' \<Longrightarrow> evolves L cfg K w w''"
  unfolding evolves_def using db_le_trans seen_kept_trans by blast

lemma evolves_inv: "evolves L cfg K w w' \<Longrightarrow> sys_inv L cfg K w \<Longrightarrow> sys_inv L cfg K w'"
  by (simp add: evolves_def)

lemma node_answers_cong: "node w' = node w \<Longrightarrow> node_answers K w' = node_answers K w"
  by (simp add: node_answers_def)

lemma handler_step_evolves: "handler_step L cfg K w w' \<Longrightarrow> evolves L cfg K w w'"
proof -
  assume step: "handler_step L cfg K w w'"
  then have db: "db_step L cfg K (db w) (db w')" and nd: "node w' = node w"
    by (simp_all add: handler_step_def)
  have "sys_inv L cfg K w'" if "sys_inv L cfg K w"
    using that db_step_db_inv [OF db] db_step_justified [OF db] node_answers_cong [OF nd]
    by (simp add: sys_inv_def)
  then show ?thesis
    using db_step_db_le [OF db] step by (simp add: evolves_def handler_step_def)
qed

lemma tables_db_inv:
  assumes "tb_names c' = tb_names c" and "tb_offers c' = tb_offers c"
    and "tb_transfers c' = tb_transfers c"
  shows "db_inv c' = db_inv c" and "justified_inv L cfg K c' = justified_inv L cfg K c"
    and "db_le c c'" and "owned c' = owned c"
  using assms
  by (simp_all add: db_inv_def consumed_recorded_def justified_inv_def db_le_def owned_def
      rows_le_refl)

lemma environment_evolves: "environment K w w' \<Longrightarrow> evolves L cfg K w w'"
proof -
  assume env: "environment K w w'"
  then have same: "tb_names (db w') = tb_names (db w)" "tb_offers (db w') = tb_offers (db w)"
    "tb_transfers (db w') = tb_transfers (db w)"
    by (simp_all add: environment_def)
  have "sys_inv L cfg K w'" if "sys_inv L cfg K w"
    using that env tables_db_inv(1) [OF same] tables_db_inv(2) [OF same, of L cfg K]
    by (simp add: sys_inv_def environment_def)
  moreover have "seen_kept cfg w w'" using env by (simp add: environment_def seen_kept_def)
  ultimately show ?thesis using tables_db_inv(3) [OF same] by (simp add: evolves_def)
qed

section \<open>Rules for programs\<close>

definition behaves ::
  "libs \<Rightarrow> config \<Rightarrow> (string \<Rightarrow> kernel_result \<Rightarrow> bool) \<Rightarrow> (world, 'r) prog \<Rightarrow> ('r \<Rightarrow> world \<Rightarrow> bool) \<Rightarrow>
   world \<Rightarrow> bool" where
  "behaves L cfg K p Q w \<longleftrightarrow>
     rg (evolves L cfg K) (handler_step L cfg K) Q p w"

lemma behaves_Ret [simp]: "behaves L cfg K (Ret r) Q w \<longleftrightarrow> Q r w"
  by (simp add: behaves_def)

lemma handler_step_refl [simp]: "handler_step L cfg K w w"
  by (simp add: handler_step_def db_step.same)

lemma behaves_act:
  assumes "sys_inv L cfg K w"
    and "\<And>s. sys_inv L cfg K s \<Longrightarrow> evolves L cfg K w s \<Longrightarrow> handler_step L cfg K s (snd (f s))"
    and "\<And>s s'. sys_inv L cfg K s \<Longrightarrow> sys_inv L cfg K s' \<Longrightarrow> evolves L cfg K w s' \<Longrightarrow>
           snd (f s) = s' \<Longrightarrow> behaves L cfg K (k (fst (f s))) Q s'"
  shows "behaves L cfg K (act f k) Q w"
  unfolding behaves_def
proof (rule rg_actI)
  fix s assume R: "evolves L cfg K w s"
  then have inv: "sys_inv L cfg K s" using assms(1) by (rule evolves_inv)
  show step: "handler_step L cfg K s (snd (f s))" by (rule assms(2) [OF inv R])
  have "evolves L cfg K w (snd (f s))"
    using R handler_step_evolves [OF step] by (rule evolves_trans)
  then show "rg (evolves L cfg K) (handler_step L cfg K) Q (k (fst (f s))) (snd (f s))"
    using assms(3) [OF inv, of "snd (f s)"] assms(1) evolves_inv by (simp add: behaves_def)
qed

lemma behaves_get:
  assumes "sys_inv L cfg K w"
    and "\<And>s. sys_inv L cfg K s \<Longrightarrow> evolves L cfg K w s \<Longrightarrow> behaves L cfg K (k (f s)) Q s"
  shows "behaves L cfg K (get f k) Q w"
  unfolding get_def by (rule behaves_act [OF assms(1)]) (use assms(2) in auto)

lemma behaves_call:
  assumes "behaves L cfg K p Q' w" and "\<And>x s. Q' x s \<Longrightarrow> behaves L cfg K (k x) Q s"
  shows "behaves L cfg K (call p k) Q w"
  using assms unfolding behaves_def by (rule rg_callI)

section \<open>Steps that leave the database alone\<close>

lemma handler_step_quiet:
  assumes "db w' = db w" and "node w' = node w" and "instant w' = instant w"
    and "sys_time w' = sys_time w" and "seen_auth w' = seen_auth w"
  shows "handler_step L cfg K w w'"
  using assms by (simp add: handler_step_def db_step.same seen_kept_def)

lemma limiter_steps [act_defs]:
  "handler_step L cfg K w (snd (allow_read cfg ip w))"
  "handler_step L cfg K w (snd (allow_write cfg b ip w))"
  "handler_step L cfg K w (snd (cooldown_active b k win w))"
  "handler_step L cfg K w (snd (record_op b k w))"
  by (auto intro: handler_step_quiet)

lemma auth_event_fresh_step [act_defs]: "handler_step L cfg K w (snd (auth_event_fresh cfg i w))"
  by (auto simp: handler_step_def db_step.same seen_kept_def intro: auth_event_fresh_keeps)

lemma handler_step_db:
  assumes "db_step L cfg K (db w) (snd (f (db w)))"
  shows "handler_step L cfg K w (snd (db_execute f w))"
  using assms by (simp add: handler_step_def seen_kept_def)

lemma behaves_quiet:
  assumes "sys_inv L cfg K w" and "\<And>s. handler_step L cfg K s (snd (f s))"
    and "\<And>x s. sys_inv L cfg K s \<Longrightarrow> evolves L cfg K w s \<Longrightarrow> behaves L cfg K (k x) Q s"
  shows "behaves L cfg K (act f k) Q w"
  by (rule behaves_act [OF assms(1)]) (use assms(2,3) in auto)

lemmas behaves_limiter =
  behaves_quiet [OF _ limiter_steps(1)] behaves_quiet [OF _ limiter_steps(2)]
  behaves_quiet [OF _ limiter_steps(3)] behaves_quiet [OF _ limiter_steps(4)]

text \<open>A statement whose result the rest only answers with.\<close>

lemma behaves_statement:
  assumes "sys_inv L cfg K w"
    and "\<And>s. sys_inv L cfg K s \<Longrightarrow> evolves L cfg K w s \<Longrightarrow> db_step L cfg K (db s) (snd (f s (db s)))"
    and "\<And>x s. sys_inv L cfg K s \<Longrightarrow> evolves L cfg K w s \<Longrightarrow> behaves L cfg K (k x) Q s"
  shows "behaves L cfg K (act (\<lambda>w. db_execute (f w) w) k) Q w"
  by (rule behaves_act [OF assms(1)]) (auto intro!: handler_step_db assms(2,3))

text \<open>A statement whose result decides the answer.\<close>

lemma behaves_db:
  assumes "sys_inv L cfg K w"
    and "\<And>s. sys_inv L cfg K s \<Longrightarrow> evolves L cfg K w s \<Longrightarrow> db_step L cfg K (db s) (snd (f s (db s)))"
    and "\<And>s s'. sys_inv L cfg K s' \<Longrightarrow> evolves L cfg K w s' \<Longrightarrow> db s' = snd (f s (db s)) \<Longrightarrow>
           behaves L cfg K (k (fst (f s (db s)))) Q s'"
  shows "behaves L cfg K (act (\<lambda>w. db_execute (f w) w) k) Q w"
  by (rule behaves_act [OF assms(1)]) (auto intro!: handler_step_db assms(2,3))

section \<open>An offer once read\<close>

definition offer_known :: "offer_row \<Rightarrow> world \<Rightarrow> bool" where
  "offer_known offer w \<longleftrightarrow> (\<exists>row \<in> set (tb_offers (db w)). terms row = terms offer)"

lemma offer_known_stable: "offer_known offer w \<Longrightarrow> evolves L cfg K w w' \<Longrightarrow> offer_known offer w'"
  unfolding offer_known_def evolves_def using db_le_offers offer_le_terms by metis

lemma get_offer_known: "db_query (get_offer i) w = Some offer \<Longrightarrow> offer_known offer w"
  by (auto simp: db_query_def get_offer_row query_row_def offer_known_def split: if_splits
      dest!: find_SomeD)

lemma behaves_settle_expiry:
  assumes "sys_inv L cfg K w" and "offer_known row w"
  shows "behaves L cfg K (settle_expiry row now)
    (\<lambda>offer s. sys_inv L cfg K s \<and> offer_known offer s) w"
proof (cases "o_status row \<noteq> ''live'' \<or> o_expiration row \<ge> now")
  case True
  then show ?thesis using assms by (simp add: settle_expiry_def)
next
  case False
  have "behaves L cfg K (get observed_tip (\<lambda>end_height.
        act (db_execute (mark_offer_dead (o_offer_id row) ''expired'' end_height now)) (\<lambda>_.
        get (db_query (get_offer (o_offer_id row))) (\<lambda>settled.
        Ret (case settled of Some row' \<Rightarrow> row' | None \<Rightarrow> row)))))
    (\<lambda>offer s. sys_inv L cfg K s \<and> offer_known offer s) w"
  proof (rule behaves_get [OF assms(1)])
    fix s assume s: "sys_inv L cfg K s" "evolves L cfg K w s"
    have known: "offer_known row s" using assms(2) s(2) by (rule offer_known_stable)
    show "behaves L cfg K
        (act (db_execute (mark_offer_dead (o_offer_id row) ''expired'' (observed_tip s) now)) (\<lambda>_.
         get (db_query (get_offer (o_offer_id row))) (\<lambda>settled.
         Ret (case settled of Some row' \<Rightarrow> row' | None \<Rightarrow> row))))
      (\<lambda>offer s. sys_inv L cfg K s \<and> offer_known offer s) s"
    proof (rule behaves_statement [OF s(1)], goal_cases)
      case (1 s')
      then show ?case by (intro db_step.dies) simp
    next
      case (2 x s')
      then show ?case
        by (intro behaves_get)
           (auto split: option.split dest: get_offer_known intro: offer_known_stable [OF known]
              evolves_trans)
    qed
  qed
  with False show ?thesis by (simp add: settle_expiry_def)
qed

section \<open>Answers\<close>

lemma promised_response:
  "promised cfg (json_response c kvs) w \<longleftrightarrow>
     (\<forall>name. kvs = registered_body cfg name \<longrightarrow> (\<exists>row \<in> set (tb_names (db w)). n_name row = name)) \<and>
     (\<forall>i name x. kvs = [(''offer_id'', JString i), (''name'', JString name), (''expires_at'', x)] \<longrightarrow>
        (\<exists>row \<in> set (tb_offers (db w)). o_offer_id row = i \<and> o_name row = name \<and>
           x = json_i64 (o_expiration row))) \<and>
     (\<forall>name buyer. kvs = claim_success name (cfg_domain cfg) buyer \<longrightarrow>
        (\<exists>t \<in> set (tb_transfers (db w)). t_name t = name \<and> t_buyer_pubkey t = buyer))"
  by (simp add: promised_def json_response_def)

text \<open>The other answers promise nothing; their keys tell them apart.\<close>

definition answer_keys :: "response \<Rightarrow> string list" where
  "answer_keys r = (case resp_body r of Json (JObject kvs) \<Rightarrow> map fst kvs | _ \<Rightarrow> [])"

lemma answer_keys_simps [simp]:
  "answer_keys (json_response c kvs) = map fst kvs"
  "answer_keys (err c msg) = [''error'']"
  "answer_keys (public_json L v) = []"
  "answer_keys (revoked_response i) = [''offer_id'', ''status'']"
  "answer_keys (plain_status c) = []"
  "answer_keys \<lparr>status = c, resp_headers = hs, resp_body = Text t\<rparr> = []"
  "answer_keys \<lparr>status = c, resp_headers = hs, resp_body = HtmlPage t\<rparr> = []"
  "answer_keys \<lparr>status = c, resp_headers = hs, resp_body = Json (JObject kvs)\<rparr> = map fst kvs"
  by (simp_all add: answer_keys_def json_response_def err_def public_json_def revoked_response_def
      plain_status_def)

lemma promised_other [simp]:
  assumes "answer_keys r \<noteq> [''name'', ''nip05'']" and "answer_keys r \<noteq> [''offer_id'', ''name'', ''expires_at'']"
    and "answer_keys r \<noteq> [''name'', ''nip05'', ''pubkey'']"
  shows "promised cfg r w"
  using assms by (auto simp: promised_def answer_keys_def registered_body_def claim_success_def)

text \<open>The three statements that make a promise true.\<close>

lemma registered_promised:
  "\<exists>row \<in> set (tb_names (db w)). n_name row = name \<Longrightarrow>
   promised cfg (json_response c (registered_body cfg name)) w"
  by (simp add: promised_response registered_body_def claim_success_def)

lemma claimed_promised:
  "\<exists>t \<in> set (tb_transfers (db w)). t_name t = name \<and> t_buyer_pubkey t = buyer \<Longrightarrow>
   promised cfg (json_response c (claim_success name (cfg_domain cfg) buyer)) w"
  by (simp add: promised_response registered_body_def claim_success_def)

lemma looked_up_promised:
  "db_query (lookup name) w = Some k \<Longrightarrow> promised cfg (json_response c (registered_body cfg name)) w"
  by (rule registered_promised)
     (auto simp: db_query_def owned_def owner_of_def dest!: lookup_SomeD find_SomeD)

lemma db_le_names:
  assumes "db_le c c'" and "r \<in> set (tb_names c)"
  shows "\<exists>r' \<in> set (tb_names c'). n_name r' = n_name r"
proof -
  have "rows_le (\<lambda>r r'. n_name r = n_name r') (tb_names c) (tb_names c')"
    using assms(1) by (simp add: db_le_def)
  from rows_leD [OF this assms(2)] show ?thesis by force
qed

lemma register_promised:
  assumes "fst (register_name name k t c) = Inr (Suc n)" and "db w = snd (register_name name k t c)"
  shows "promised cfg (json_response code' (registered_body cfg name)) w"
proof (rule registered_promised)
  show "\<exists>row \<in> set (tb_names (db w)). n_name row = name"
  proof (cases "\<exists>r \<in> set (tb_names c). n_name r = name")
    case True
    then have "\<exists>row \<in> set (tb_names (snd (register_name name k t c))). n_name row = name"
      using db_le_names [OF register_name_db_le, of _ c name k t] by blast
    then show ?thesis by (simp add: assms(2))
  next
    case False
    then have "List.find (\<lambda>r. n_name r = name) (tb_names c) = None" by (simp add: find_None_iff)
    then show ?thesis using assms(1) by (auto simp: assms(2) register_name_def split: if_splits)
  qed
qed

lemma lodge_promised:
  assumes "fst (insert_offer i e name s b p a x t c) = Inr n" and "db w = snd (insert_offer i e name s b p a x t c)"
  shows "promised cfg (json_response code'
     [(''offer_id'', JString i), (''name'', JString name), (''expires_at'', json_i64 x)]) w"
  using assms(1)
  by (auto simp: promised_response registered_body_def claim_success_def assms(2) insert_offer_def
      split: if_splits)

lemma claim_promised:
  assumes "fst (run_claim_txn offer ex kh t c) = Inr u" and "db w = snd (run_claim_txn offer ex kh t c)"
  shows "promised cfg (json_response code'
     (claim_success (o_name offer) (cfg_domain cfg) (o_buyer_pubkey offer))) w"
  by (rule claimed_promised)
     (use assms(1) in \<open>simp add: assms(2) run_claim_txn_done(4) transfer_record_def\<close>)

lemma retried_promised:
  "db_query (transfer_for_offer i) w = Some (ex, name, buyer) \<Longrightarrow>
   promised cfg (json_response c (claim_success name (cfg_domain cfg) buyer)) w"
  by (rule claimed_promised)
     (auto simp: db_query_def transfer_for_offer_def query_row_def split: if_splits dest!: find_SomeD)

text \<open>No later step takes a promise back.\<close>

lemma terms_fields:
  assumes "terms r = terms r'"
  shows "o_offer_id r = o_offer_id r'" and "o_name r = o_name r'" and "o_expiration r = o_expiration r'"
proof -
  have "o_offer_id (terms r) = o_offer_id (terms r')" "o_name (terms r) = o_name (terms r')"
    "o_expiration (terms r) = o_expiration (terms r')"
    using assms by simp_all
  then show "o_offer_id r = o_offer_id r'" and "o_name r = o_name r'" and "o_expiration r = o_expiration r'"
    by (simp_all add: terms_def)
qed

lemma promised_stable:
  assumes "promised cfg r w" and "evolves L cfg K w w'"
  shows "promised cfg r w'"
proof -
  have le: "db_le (db w) (db w')" using assms(2) by (simp add: evolves_def)
  have "\<exists>row \<in> set (tb_names (db w')). n_name row = name"
    if "\<exists>row \<in> set (tb_names (db w)). n_name row = name" for name
    using that db_le_names [OF le] by metis
  moreover have "\<exists>row \<in> set (tb_offers (db w')). o_offer_id row = i \<and> o_name row = name \<and>
           x = json_i64 (o_expiration row)"
    if kept: "\<exists>row \<in> set (tb_offers (db w)). o_offer_id row = i \<and> o_name row = name \<and>
           x = json_i64 (o_expiration row)" for i name x
  proof -
    obtain row where row: "row \<in> set (tb_offers (db w))" "o_offer_id row = i" "o_name row = name"
      "x = json_i64 (o_expiration row)" using kept by blast
    then obtain row' where "row' \<in> set (tb_offers (db w'))" "terms row = terms row'"
      using db_le_offers [OF le] offer_le_terms by blast
    then show ?thesis using row terms_fields by metis
  qed
  moreover note db_le_transfers [OF le]
  ultimately show ?thesis using assms(1) unfolding promised_def by blast
qed

section \<open>The handlers\<close>

lemma behaves_authenticate:
  assumes "sys_inv L cfg K w"
    and "\<And>key s. sys_inv L cfg K s \<Longrightarrow> evolves L cfg K w s \<Longrightarrow>
           signed_request L cfg key meth path body \<Longrightarrow> behaves L cfg K (k key) (promised cfg) s"
  shows "behaves L cfg K (authenticate L cfg hs meth path body k) (promised cfg) w"
  unfolding authenticate_def
proof (rule behaves_get [OF assms(1)])
  fix s assume s: "sys_inv L cfg K s" "evolves L cfg K w s"
  show "behaves L cfg K
      (case verify_nip98 L (unix_now s) hs meth path body (cfg_base_url cfg)
             (cfg_auth_max_age_secs cfg) of
         Inl (c, msg) \<Rightarrow> Ret (err c msg)
       | Inr (auth_pubkey, auth_id) \<Rightarrow>
           act (auth_event_fresh cfg auth_id) (\<lambda>fresh.
             if \<not> fresh then Ret (err UNAUTHORIZED ''auth event replayed'') else k auth_pubkey))
      (promised cfg) s"
  proof (cases "verify_nip98 L (unix_now s) hs meth path body (cfg_base_url cfg)
             (cfg_auth_max_age_secs cfg)")
    case (Inr r)
    obtain key i where r: "r = (key, i)" by (cases r)
    have signed: "signed_request L cfg key meth path body"
      using Inr r by (auto simp: signed_request_def)
    show ?thesis
      using signed s assms(2) evolves_trans [OF s(2)]
      by (auto simp: Inr r intro!: behaves_quiet [OF s(1) auth_event_fresh_step])
  qed (simp split: prod.split)
qed

lemma behaves_well_known: "sys_inv L cfg K w \<Longrightarrow> behaves L cfg K (well_known L cfg hs p) (promised cfg) w"
  unfolding well_known_def Let_def
  by (auto intro!: behaves_limiter behaves_get split: option.split)

lemma behaves_availability:
  "sys_inv L cfg K w \<Longrightarrow> behaves L cfg K (availability L cfg hs n) (promised cfg) w"
  unfolding availability_def Let_def
  by (auto intro!: behaves_limiter behaves_get split: option.split)

lemma behaves_profile: "sys_inv L cfg K w \<Longrightarrow> behaves L cfg K (profile L cfg hs n) (promised cfg) w"
  unfolding profile_def Let_def
  by (auto intro!: behaves_limiter behaves_get split: option.split)

lemma behaves_by_pubkey: "sys_inv L cfg K w \<Longrightarrow> behaves L cfg K (by_pubkey L cfg hs k) (promised cfg) w"
  unfolding by_pubkey_def Let_def
  by (auto intro!: behaves_limiter behaves_get split: option.split)

lemma behaves_register_claim:
  assumes "sys_inv L cfg K w" and "name_allowed cfg (to_lowercase (unicode_lower L) rn)"
    and "valid_pubkey_hex k" and "signed_request L cfg k ''POST'' ''/api/v1/register'' body"
    and "register_body_from_slice L body = Some (rn, rk)"
  shows "behaves L cfg K (register_claim cfg (to_lowercase (unicode_lower L) rn) k) (promised cfg) w"
  unfolding register_claim_def
  using assms(1) db_step.registers [OF assms(2-5) refl]
  by (auto intro!: behaves_get behaves_db split: option.split sum.split sql_error.split nat.split)
     (erule (1) register_promised, erule looked_up_promised)

lemma behaves_register: "sys_inv L cfg K w \<Longrightarrow> behaves L cfg K (register L cfg hs body) (promised cfg) w"
  unfolding register_def Let_def
  by (auto intro!: behaves_limiter behaves_authenticate behaves_register_claim
      simp: name_allowed_def split: option.split)

lemma behaves_release_owned:
  assumes "sys_inv L cfg K w" and "signed_request L cfg key ''DELETE'' (unregister_path name) []"
  shows "behaves L cfg K (release_owned name key) (promised cfg) w"
  unfolding release_owned_def using assms(1) db_step.releases [OF assms(2)]
  by (auto intro!: behaves_limiter behaves_get behaves_statement split: option.split sum.split)

lemma behaves_unregister: "sys_inv L cfg K w \<Longrightarrow> behaves L cfg K (unregister L cfg n hs) (promised cfg) w"
  unfolding unregister_def Let_def
  by (auto intro!: behaves_limiter behaves_authenticate behaves_release_owned)

lemma check_offer_Inr:
  assumes "check_offer L cfg key body = Inr lt"
  shows "ev_pubkey (lt_event lt) = key"
    and "offer_of_event L cfg (lt_event lt) \<lparr>o_offer_id = ev_id (lt_event lt),
      o_event_json = event_as_json L (lt_event lt), o_name = lt_name lt, o_seller_pubkey = key,
      o_buyer_pubkey = lt_buyer lt, o_price_nanogrin = u64_as_i64 (lt_price lt),
      o_proof_address = lt_proof_address lt, o_expiration = lt_expiration lt,
      o_status = ''live'', o_end_height = None, o_state_changed_at = None, o_created_at = t\<rparr>"
  using assms
  by (auto simp: check_offer_def invalid_offer_def offer_of_event_def Let_def
      split: option.split_asm if_split_asm)

lemma behaves_lodge_offer:
  "sys_inv L cfg K w \<Longrightarrow> behaves L cfg K (lodge_offer L cfg hs body) (promised cfg) w"
  unfolding lodge_offer_def lodge_checked_def Let_def
proof (rule behaves_quiet, assumption, rule act_defs, goal_cases)
  case (1 allowed s)
  have "behaves L cfg K (lodge_terms L cfg lt) (promised cfg) s'"
    if lt: "check_offer L cfg key body = Inr lt" and inv: "sys_inv L cfg K s'"
      and signed: "signed_request L cfg key ''POST'' ''/api/v1/transfer/offer'' body" for key lt s'
  proof -
    note event = check_offer_Inr [OF lt]
    show ?thesis
      unfolding lodge_terms_def Let_def
      using inv db_step.lodges [OF event(2) signed] event(1)
      by (auto intro!: behaves_get behaves_db split: sum.split sql_error.split) (erule (1) lodge_promised)
  qed
  then show ?case
    using 1(2) by (auto intro!: behaves_authenticate split: sum.split)
qed

lemma behaves_read_offer:
  "sys_inv L cfg K w \<Longrightarrow> behaves L cfg K (read_offer L cfg i hs) (promised cfg) w"
  unfolding read_offer_def Let_def
  by (auto intro!: behaves_limiter behaves_get
        behaves_call [OF behaves_settle_expiry] split: option.split)
     (blast dest: get_offer_known intro: offer_known_stable)

lemma behaves_revoke_offer:
  "sys_inv L cfg K w \<Longrightarrow> behaves L cfg K (revoke_offer L cfg i hs) (promised cfg) w"
  unfolding revoke_offer_def revoke_owned_def Let_def
  by (auto intro!: behaves_limiter behaves_authenticate behaves_get behaves_statement
        db_step.dies db_step.flips split: option.split)

lemma proof_gate_Inr:
  "proof_gate L offer prf = Inr () \<Longrightarrow> payment_proved L offer (pp_excess_hex prf)"
  by (auto simp: proof_gate_def payment_proved_def split: if_splits)

lemma kernel_gate_Inr:
  assumes "kernel_gate cfg offer d (observed_kernel ex w) = Inr kh" and "node_answers K w"
  shows "kernel_confirmed cfg K ex kh"
  using assms
  by (fastforce simp: kernel_gate_def observed_kernel_def kernel_confirmed_def node_answers_def
        Let_def not_less
      split: sum.splits if_splits option.splits)

lemma behaves_claim_execute:
  assumes "sys_inv L cfg K w" and "offer_known offer w"
    and "signed_request L cfg (o_buyer_pubkey offer) ''POST'' ''/api/v1/transfer/claim'' body"
    and "payment_proved L offer (pp_excess_hex prf)"
    and "kernel_confirmed cfg K (pp_excess_hex prf) kh"
  shows "behaves L cfg K (claim_execute cfg offer prf kh now) (promised cfg) w"
proof -
  have "db_step L cfg K (db s) (snd (run_claim_txn offer (pp_excess_hex prf) kh now (db s)))"
    if "evolves L cfg K w s" for s
    using offer_known_stable [OF assms(2) that] assms(3-5)
    by (auto simp: offer_known_def intro: db_step.claims)
  then show ?thesis
    unfolding claim_execute_def using assms(1)
    by (auto intro!: behaves_get behaves_db behaves_limiter
        split: option.split sum.split tx_err.split)
       (blast intro: evolves_trans claim_promised promised_stable)+
qed

lemma behaves_claim_offer:
  assumes "sys_inv L cfg K w" and "offer_known offer w"
    and "signed_request L cfg key ''POST'' ''/api/v1/transfer/claim'' body"
  shows "behaves L cfg K (claim_offer L cfg key offer prf now) (promised cfg) w"
proof -
  have "behaves L cfg K (get (observed_kernel (pp_excess_hex prf)) (\<lambda>answer.
        case kernel_gate cfg offer d answer of
          Inl (c, msg) \<Rightarrow> Ret (err c msg)
        | Inr kernel_height \<Rightarrow> claim_execute cfg offer prf kernel_height now)) (promised cfg) s"
    if inv: "sys_inv L cfg K s" and R: "evolves L cfg K w s" and "key = o_buyer_pubkey offer"
      and "proof_gate L offer prf = Inr ()" for s d
  proof (rule behaves_get [OF inv])
    fix s' assume s': "sys_inv L cfg K s'" "evolves L cfg K s s'"
    have known: "offer_known offer s'"
      by (rule offer_known_stable [OF assms(2) evolves_trans [OF R s'(2)]])
    have "behaves L cfg K (claim_execute cfg offer prf kh now) (promised cfg) s'"
      if "kernel_gate cfg offer d (observed_kernel (pp_excess_hex prf) s') = Inr kh" for kh
      using behaves_claim_execute [OF s'(1) known] assms(3) \<open>key = o_buyer_pubkey offer\<close>
        proof_gate_Inr [OF \<open>proof_gate L offer prf = Inr ()\<close>] kernel_gate_Inr [OF that] s'(1)
      by (simp add: sys_inv_def)
    then show "behaves L cfg K
        (case kernel_gate cfg offer d (observed_kernel (pp_excess_hex prf) s') of
           Inl (c, msg) \<Rightarrow> Ret (err c msg)
         | Inr kernel_height \<Rightarrow> claim_execute cfg offer prf kernel_height now) (promised cfg) s'"
      by (auto split: sum.split)
  qed
  then show ?thesis
    unfolding claim_offer_def using assms(1)
    by (auto intro!: behaves_get split: sum.split)
qed

lemma behaves_claim_consumed:
  "sys_inv L cfg K w \<Longrightarrow> behaves L cfg K (claim_consumed cfg i prf) (promised cfg) w"
  unfolding claim_consumed_def by (auto intro!: behaves_get intro: retried_promised split: option.split)

lemma behaves_claim_settled:
  assumes "sys_inv L cfg K w" and "offer_known row w"
    and "signed_request L cfg key ''POST'' ''/api/v1/transfer/claim'' body"
  shows "behaves L cfg K (call (settle_expiry row now) (\<lambda>offer.
      if o_status offer = ''consumed'' then claim_consumed cfg i prf
      else claim_offer L cfg key offer prf now)) (promised cfg) w"
  by (rule behaves_call [OF behaves_settle_expiry [OF assms(1,2)]])
     (simp add: behaves_claim_consumed behaves_claim_offer [OF _ _ assms(3)])

lemma behaves_claim: "sys_inv L cfg K w \<Longrightarrow> behaves L cfg K (claim L cfg hs body) (promised cfg) w"
  unfolding claim_def claim_authenticated_def Let_def
  by (auto intro!: behaves_limiter behaves_authenticate behaves_get
      split: option.split sum.split)
     (blast intro: behaves_claim_settled offer_known_stable dest: get_offer_known)

lemma behaves_serve: "sys_inv L cfg K w \<Longrightarrow> behaves L cfg K (serve L cfg q) (promised cfg) w"
  by (auto simp: serve_def routes_def base_routes_def transfer_routes_def health_def landing_def
        Let_def
      intro!: behaves_well_known behaves_availability behaves_register behaves_unregister
        behaves_profile behaves_by_pubkey behaves_lodge_offer behaves_read_offer
        behaves_revoke_offer behaves_claim)

section \<open>The service\<close>

interpretation service: rely_guarantee "sys_inv L cfg K" "evolves L cfg K" "handler_step L cfg K"
  "environment K" "request_handler L cfg" "promised cfg"
  for L cfg K
proof unfold_locales
  show "rg (evolves L cfg K) (handler_step L cfg K) (promised cfg) p s"
    if "request_handler L cfg p" and "sys_inv L cfg K s" for p s
    using that behaves_serve by (auto simp: request_handler_def behaves_def)
qed (auto intro: evolves_trans evolves_inv handler_step_evolves environment_evolves)

abbreviation reaches ::
  "libs \<Rightarrow> config \<Rightarrow> (string \<Rightarrow> kernel_result \<Rightarrow> bool) \<Rightarrow>
   world \<times> handler list \<Rightarrow> world \<times> handler list \<Rightarrow> bool" where
  "reaches L cfg K \<equiv> scheds (environment K) (request_handler L cfg)"

end
