(* ===== verification/Replay.thy ===== *)
theory Replay
  imports System Undisturbed
begin

text \<open>
  Single use of an auth event. The replay set forgets an event id after
  \<open>auth_max_age_secs + 5\<close> seconds of the monotonic clock; the freshness check bounds the
  age of an event by whole seconds of the system clock. The lemmas relate the two clocks.
\<close>

section \<open>Clocks\<close>

text \<open>The system clock of a process that runs between 1970 and the year 2262.\<close>

definition sane_clock :: "world \<Rightarrow> bool" where
  "sane_clock w \<longleftrightarrow> 0 \<le> sys_time w \<and> sys_time w < 2 ^ 63"

definition sane_config :: "config \<Rightarrow> bool" where
  "sane_config cfg \<longleftrightarrow> 0 \<le> cfg_auth_max_age_secs cfg \<and> cfg_auth_max_age_secs cfg < 2 ^ 62"

lemma unix_now_secs:
  assumes "sane_clock w"
  shows "unix_now w = sys_time w div 1000000000"
proof -
  have "0 \<le> sys_time w div 1000000000" "sys_time w div 1000000000 < 2 ^ 63"
    using assms by (auto simp: sane_clock_def)
  then have "uint (word_of_int (sys_time w div 1000000000) :: u64) = sys_time w div 1000000000"
    by (simp add: uint_word_of_int)
  moreover from this have "u64_as_i64 (word_of_int (sys_time w div 1000000000)) =
      sys_time w div 1000000000"
    using \<open>sys_time w div 1000000000 < 2 ^ 63\<close> by (subst u64_as_i64_small) simp_all
  ultimately show ?thesis using assms by (simp add: unix_now_def sane_clock_def)
qed

lemma replay_window_secs:
  assumes "sane_config cfg"
  shows "int (replay_window cfg) = (cfg_auth_max_age_secs cfg + 5) * 1000000000"
proof -
  let ?a = "cfg_auth_max_age_secs cfg"
  have a: "0 \<le> ?a" "?a < 2 ^ 62" using assms by (simp_all add: sane_config_def)
  have "i64_as_u64 ?a + 5 = word_of_int (?a + 5)" by (simp add: i64_as_u64_def)
  also have "uint (word_of_int (?a + 5) :: u64) = ?a + 5"
  proof -
    have "uint (word_of_int (?a + 5) :: u64) = (?a + 5) mod 2 ^ 64"
      by (rule trans [OF uint_word_of_int]) simp
    also have "\<dots> = ?a + 5" using a by simp
    finally show ?thesis .
  qed
  finally have "int (unat (i64_as_u64 ?a + 5)) = ?a + 5" by simp
  then show ?thesis by (simp add: replay_window_def from_secs_def)
qed

section \<open>A token's second use\<close>

lemma prologue_event:
  assumes "prologue L cfg bucket hs meth path body w = Inr (key, w2)"
  shows "\<exists>e. carried_event L hs = Some e \<and>
    verify_event L (unix_now w) e meth (cfg_base_url cfg @ path) body (cfg_auth_max_age_secs cfg) \<and>
    key = ev_pubkey e \<and> fst (auth_event_fresh cfg (ev_id e) w) \<and>
    Mapping.lookup (seen_auth w2) (ev_id e) = Some (instant w)"
proof -
  let ?w1 = "snd (allow_write cfg bucket (client_ip hs) w)"
  obtain i where i: "authorised_by L cfg ?w1 hs meth path body = Inr (key, i)"
    "fst (auth_event_fresh cfg i ?w1)" "w2 = snd (auth_event_fresh cfg i ?w1)"
    using assms by (auto simp: prologue_def case_prod_beta Let_def split: if_splits sum.splits)
  then obtain e where e: "carried_event L hs = Some e"
    "verify_event L (unix_now w) e meth (cfg_base_url cfg @ path) body (cfg_auth_max_age_secs cfg)"
    "key = ev_pubkey e" "i = ev_id e"
    by (auto simp: authorised_by_def verify_nip98_Inr)
  have "fst (auth_event_fresh cfg i w)"
    using i(2) by (simp add: auth_event_fresh_iff)
  moreover have "Mapping.lookup (seen_auth w2) i = Some (instant w)"
    using auth_event_fresh_records [OF i(2)] i(3) by simp
  ultimately show ?thesis using e by blast
qed

text \<open>A used event id is refused in every later state while it is younger than the window.\<close>

lemma seen_refused:
  assumes "seen_kept cfg w1 w2" and "Mapping.lookup (seen_auth w1) i = Some t"
    and "instant w2 - t < replay_window cfg"
  shows "\<not> fst (auth_event_fresh cfg i w2)"
proof (rule auth_event_fresh_refuses)
  show "Mapping.lookup (seen_auth w2) i = Some t"
    using assms by (simp add: seen_kept_def)
qed (rule assms(3))

text \<open>Whole seconds: an event used at an age of at least minus four seconds is too old before
  the window ends.\<close>

lemma second_use_within_window:
  fixes s1 s2 c a :: int
  assumes "-4 \<le> s1 div 1000000000 - c" and "s2 div 1000000000 - c \<le> a"
  shows "s2 - s1 < (a + 5) * 1000000000"
proof -
  let ?q1 = "s1 div 1000000000" and ?q2 = "s2 div 1000000000"
  have "?q1 * 1000000000 \<le> s1"
    using div_mult_mod_eq [of s1 1000000000] pos_mod_sign [of 1000000000 s1] by linarith
  moreover have "s2 < (?q2 + 1) * 1000000000"
  proof -
    have "s2 mod 1000000000 < 1000000000" by simp
    then show ?thesis
      using div_mult_mod_eq [of s2 1000000000] unfolding distrib_right by linarith
  qed
  moreover have "?q2 - ?q1 \<le> a + 4" using assms by simp
  ultimately show ?thesis by simp
qed

lemma verify_event_age:
  "verify_event L now e meth url body a \<Longrightarrow> auth_age now e \<le> a"
  by (simp add: verify_event_def)

lemma second_use_refused:
  assumes cfg: "sane_config cfg"
    and first: "prologue L cfg b hs m p body w = Inr (key, w1)"
    and event: "carried_event L hs = Some e" "uint (ev_created_at e) < 2 ^ 62"
    and fresh: "-4 \<le> auth_age (unix_now w) e"
    and clocks: "sane_clock w" "sane_clock w2"
      "sys_time w2 - sys_time w = int (instant w2) - int (instant w)"
    and later: "seen_kept cfg w1 w2"
  shows "isl (prologue L cfg b' hs m' p' body' w2)"
proof (rule ccontr)
  assume "\<not> isl (prologue L cfg b' hs m' p' body' w2)"
  then obtain key' w3 where second: "prologue L cfg b' hs m' p' body' w2 = Inr (key', w3)"
    by (cases "prologue L cfg b' hs m' p' body' w2") auto
  have use1: "Mapping.lookup (seen_auth w1) (ev_id e) = Some (instant w)"
    using prologue_event [OF first] event(1) by auto
  have use2: "auth_age (unix_now w2) e \<le> cfg_auth_max_age_secs cfg"
    "fst (auth_event_fresh cfg (ev_id e) w2)"
    using prologue_event [OF second] event(1) by (auto dest: verify_event_age)
  have small: "0 \<le> unix_now v \<and> unix_now v < 2 ^ 63" if "sane_clock v" for v
  proof -
    have "0 \<le> sys_time v div 1000000000" "sys_time v div 1000000000 < 2 ^ 63"
      using that by (auto simp: sane_clock_def)
    then show ?thesis by (simp add: unix_now_secs [OF that])
  qed
  have age: "auth_age (unix_now v) e = sys_time v div 1000000000 - uint (ev_created_at e)"
    if "sane_clock v" for v
    using auth_age_small [of "unix_now v" e] small [OF that] event(2) unix_now_secs [OF that] by simp
  have "sys_time w2 - sys_time w < (cfg_auth_max_age_secs cfg + 5) * 1000000000"
    using second_use_within_window fresh use2(1) age [OF clocks(1)] age [OF clocks(2)] by simp
  then have "int (instant w2) - int (instant w) < int (replay_window cfg)"
    using clocks(3) replay_window_secs [OF cfg] by simp
  then have "instant w2 - instant w < replay_window cfg"
    using cfg replay_window_secs [OF cfg] by (auto simp: sane_config_def)
  then have "\<not> fst (auth_event_fresh cfg (ev_id e) w2)"
    by (rule seen_refused [OF later use1])
  with use2(2) show False by simp
qed

end
