(* ===== verification/Example.thy ===== *)
theory Example
  imports Limiter Replay
begin

text \<open>
  A concrete instance: library functions, a configuration, requests and states on which the
  handlers are evaluated. The library functions are simple concrete functions (a request is
  told from another by the length of its bytes); the properties are applied to this instance
  to show that what they assume can hold.
\<close>

section \<open>Keys, events, library functions\<close>

definition key_a :: string where "key_a = replicate 64 (CHR ''a'')"
definition key_b :: string where "key_b = replicate 64 (CHR ''b'')"
definition offer_c :: string where "offer_c = replicate 64 (CHR ''c'')"
definition offer_d :: string where "offer_d = replicate 64 (CHR ''d'')"
definition excess_0 :: string where "excess_0 = replicate 66 (CHR ''0'')"
definition sig_0 :: string where "sig_0 = replicate 128 (CHR ''0'')"

definition demo_auth :: "string \<Rightarrow> string \<Rightarrow> string \<Rightarrow> string \<Rightarrow> string list list \<Rightarrow> event" where
  "demo_auth i key meth path payload =
     \<lparr>ev_id = i, ev_pubkey = key, ev_created_at = 1000, ev_kind = http_auth_kind,
      ev_tags = [[''u'', ''https://goblin.st'' @ path], [''method'', meth]] @ payload,
      ev_content = [], ev_sig = ''ok''\<rparr>"

definition demo_offer :: event where
  "demo_offer =
     \<lparr>ev_id = offer_c, ev_pubkey = key_a, ev_created_at = 1000, ev_kind = OFFER_KIND,
      ev_tags = [[''name'', ''alice''], [''domain'', ''goblin.st''], [''p'', key_b],
        [''price'', ''5''], [''proof_address'', ''grin1a''], [''expiration'', ''2000'']],
      ev_content = [], ev_sig = ''ok''\<rparr>"

definition demo_proof :: parsed_payment_proof where
  "demo_proof =
     \<lparr>pp_amount = 5, pp_excess_hex = excess_0, pp_recipient_address = ''grin1a'',
      pp_recipient_sig_hex = sig_0, pp_sender_address = ''grin1b'', pp_sender_sig_hex = sig_0\<rparr>"

definition demo_libs :: libs where
  "demo_libs =
     \<lparr>unicode_lower = (\<lambda>s. s),
      base64_decode = (\<lambda>s. Some (replicate (length s) 0)),
      hex_encode = (\<lambda>bs. ''00''),
      hex_decode = (\<lambda>s. Some (replicate (length s div 2) 0)),
      sha256_digest = (\<lambda>bs. bs),
      event_from_json = (\<lambda>bs.
        if length bs = 1
        then Some (demo_auth ''e1'' key_a ''POST'' ''/api/v1/register'' [[''payload'', ''00'']])
        else if length bs = 2
        then Some (demo_auth ''e2'' key_a ''DELETE'' ''/api/v1/register/alice'' [])
        else if length bs = 3
        then Some (demo_auth ''e3'' key_a ''POST'' ''/api/v1/transfer/offer'' [[''payload'', ''00'']])
        else if length bs = 4
        then Some (demo_auth ''e4'' key_b ''POST'' ''/api/v1/transfer/claim'' [[''payload'', ''00'']])
        else if length bs = 5
        then Some (demo_auth ''e5'' key_a ''DELETE'' (revoke_path offer_c) [])
        else if length bs = 6
        then Some (demo_auth ''e6'' key_a ''POST'' ''/api/v1/transfer/offer'' [[''payload'', ''00'']])
        else if length bs = 7 then Some demo_offer
        else Some (demo_offer\<lparr>ev_id := offer_d\<rparr>)),
      event_verify = (\<lambda>e. ev_sig e = ''ok''),
      event_as_json = ev_id,
      json_from_slice = (\<lambda>bs.
        if length bs = 3 then Some (JObject [(''offer'', JNull)])
        else if length bs = 6 then Some (JObject [(''offer'', JBool True)])
        else if length bs = 4
        then Some (JObject [(''offer_id'', JString offer_c), (''proof'', proof_to_json demo_proof)])
        else None),
      json_to_string = (\<lambda>v. if v = JNull then ''offer C'' else ''offer  D''),
      register_body_from_slice = (\<lambda>bs. if length bs = 1 then Some (''Alice'', key_a) else None),
      bech32_encode = (\<lambda>hrp d. Some (hrp @ CHR ''1'' # map (\<lambda>w. char_of (unat w + 97)) d)),
      bech32_decode = (\<lambda>s. if s = ''grin1a'' then Some (''grin'', replicate 52 0)
        else if s = ''grin1b'' then Some (''grin'', replicate 52 1) else None),
      to_base32 = (\<lambda>bs. map ucast bs),
      from_base32 = (\<lambda>d. Some (map ucast (take 32 d))),
      ed25519_key_ok = (\<lambda>k. length k = 32),
      ed25519_verify = (\<lambda>k m s. length m = 73 \<and> length s = 64)\<rparr>"

definition demo_cfg :: config where
  "demo_cfg =
     \<lparr>cfg_domain = ''goblin.st'', cfg_base_url = ''https://goblin.st'',
      cfg_relays = [''wss://relay''], cfg_bind_addr = ''127.0.0.1:0'', cfg_db_path = '':memory:'',
      cfg_name_change_cooldown = from_secs 600, cfg_auth_max_age_secs = 60, cfg_name_min = 3,
      cfg_name_max = 20, cfg_read_rate_max = 10, cfg_read_rate_window = from_secs 60,
      cfg_write_rate_max = 10, cfg_write_rate_window = from_secs 3600, cfg_extra_reserved = [],
      cfg_allow_transfers = True, cfg_grin_node_url = Some ''http://node'',
      cfg_transfer_min_conf = 10, cfg_transfer_max_offer_ttl = 2592000,
      cfg_transfer_claim_grace = 86400\<rparr>"

section \<open>States and requests\<close>

definition alice_row :: name_row where
  "alice_row = \<lparr>n_name = ''alice'', n_pubkey = key_a, n_created_at = 900, n_released_at = None\<rparr>"

definition demo_row :: offer_row where
  "demo_row =
     \<lparr>o_offer_id = offer_c, o_event_json = offer_c, o_name = ''alice'', o_seller_pubkey = key_a,
      o_buyer_pubkey = key_b, o_price_nanogrin = 5, o_proof_address = ''grin1a'',
      o_expiration = 2000, o_status = ''live'', o_end_height = None, o_state_changed_at = None,
      o_created_at = 1000\<rparr>"

definition demo_node :: chain_source where
  "demo_node = test_chain demo_libs
     (set_kernel demo_libs excess_0 500 20 (test_source_new 519))"

definition demo_conn :: "name_row list \<Rightarrow> offer_row list \<Rightarrow> conn" where
  "demo_conn names offers =
     \<lparr>tb_names = names, tb_offers = offers, tb_transfers = [], io_err = (\<lambda>_. False)\<rparr>"

definition demo_world :: "name_row list \<Rightarrow> offer_row list \<Rightarrow> world" where
  "demo_world names offers =
     open_with_node (demo_conn names offers) (Some demo_node) 1000000000000 1000000000000"

definition demo_headers :: "nat \<Rightarrow> headers" where
  "demo_headers n =
     [(''x-real-ip'', Some ''1.2.3.4''),
      (''authorization'', Some (''Nostr '' @ replicate n (CHR ''x'')))]"

definition demo_body :: "nat \<Rightarrow> bytes" where
  "demo_body n = replicate n 0"

definition demo_request :: "string \<Rightarrow> string \<Rightarrow> nat \<Rightarrow> nat \<Rightarrow> string \<Rightarrow> request" where
  "demo_request meth tmpl tok body param =
     \<lparr>rq_template = tmpl, rq_param = param, rq_query_name = None, rq_method = meth,
      rq_headers = demo_headers tok, rq_body = demo_body body\<rparr>"

section \<open>Evaluation\<close>

lemmas demo_defs =
  key_a_def key_b_def offer_c_def excess_0_def sig_0_def demo_auth_def demo_offer_def
  demo_proof_def demo_libs_def demo_cfg_def alice_row_def demo_row_def demo_conn_def
  demo_world_def demo_headers_def demo_body_def open_with_node_def

lemma demo_header:
  "header_str (demo_headers n) ''authorization'' = Some (''Nostr '' @ replicate n (CHR ''x''))"
  by (simp add: demo_headers_def header_str_def)

lemma demo_ip: "client_ip (demo_headers n) = ''1.2.3.4''"
  by (simp add: client_ip_def demo_headers_def header_str_def)

lemma trim_replicate_x [simp]: "trim (replicate n (CHR ''x'')) = replicate n (CHR ''x'')"
  by (intro trim_graphic) (simp add: list_all_iff is_graphic_def)

lemma demo_base64 [simp]: "base64_decode demo_libs s = Some (replicate (length s) 0)"
  by (simp add: demo_libs_def)

lemma demo_carried:
  "carried_event demo_libs (demo_headers n) = event_from_json demo_libs (replicate n 0)"
  by (simp only: carried_event_def demo_header bind.bind_lunit strip_prefix_append demo_base64
      trim_replicate_x length_replicate)

lemma demo_now [simp]: "unix_now (demo_world names offers) = 1000"
  by (simp add: demo_world_def open_with_node_def unix_now_def u64_as_i64_def)

text \<open>A state in which the demo client may log in with a token.\<close>

definition demo_unused :: "string \<Rightarrow> string \<Rightarrow> world \<Rightarrow> bool" where
  "demo_unused bucket i w \<longleftrightarrow>
     length (hits_of w (bucket_key bucket ''1.2.3.4'')) < 10 \<and>
     (\<forall>t. Mapping.lookup (seen_auth w) i = Some t \<longrightarrow> replay_window demo_cfg \<le> instant w - t)"

definition demo_open :: "string \<Rightarrow> string \<Rightarrow> world \<Rightarrow> bool" where
  "demo_open bucket i w \<longleftrightarrow> unix_now w = 1000 \<and> demo_unused bucket i w"

lemma demo_open_start [simp]: "demo_open bucket i (demo_world names offers)"
  by (simp add: demo_open_def demo_unused_def hits_of_def)
     (simp add: demo_world_def open_with_node_def Mapping.lookup_default_empty)

lemma demo_auth_step:
  assumes "event_from_json demo_libs (replicate n 0) = Some e"
    and "verify_event demo_libs (unix_now w) e meth (''https://goblin.st'' @ path) body 60"
    and w: "demo_unused bucket (ev_id e) w"
  defines "w1 \<equiv> snd (allow_write demo_cfg bucket ''1.2.3.4'' w)"
  shows "fst (allow_write demo_cfg bucket ''1.2.3.4'' w)"
    and "authorised_by demo_libs demo_cfg w1 (demo_headers n) meth path body = Inr (ev_pubkey e, ev_id e)"
    and "fst (auth_event_fresh demo_cfg (ev_id e) w1)"
proof -
  have "length (retain (instant w) win (hits_of w (bucket_key bucket ''1.2.3.4''))) < 10" for win
    using w length_retain [of "instant w" win "hits_of w (bucket_key bucket ''1.2.3.4'')"]
    unfolding demo_unused_def by linarith
  then show "fst (allow_write demo_cfg bucket ''1.2.3.4'' w)"
    by (simp add: allow_write_def allow_cases Let_def not_le) (simp add: demo_cfg_def)
  show "authorised_by demo_libs demo_cfg w1 (demo_headers n) meth path body = Inr (ev_pubkey e, ev_id e)"
    unfolding authorised_by_def verify_nip98_Inr w1_def using assms(1,2)
    by (simp add: demo_carried) (simp add: demo_cfg_def)
  show "fst (auth_event_fresh demo_cfg (ev_id e) w1)"
    using w by (simp add: w1_def auth_event_fresh_iff demo_unused_def)
qed

lemma demo_prologue:
  assumes "event_from_json demo_libs (replicate n 0) = Some e"
    and "verify_event demo_libs (unix_now w) e meth (''https://goblin.st'' @ path) body 60"
    and "demo_unused bucket (ev_id e) w"
  obtains w2 where "prologue demo_libs demo_cfg bucket (demo_headers n) meth path body w =
      Inr (ev_pubkey e, w2)"
proof -
  let ?w1 = "snd (allow_write demo_cfg bucket ''1.2.3.4'' w)"
  show ?thesis
    by (rule that [of "snd (auth_event_fresh demo_cfg (ev_id e) ?w1)"])
       (use demo_auth_step [OF assms] in \<open>simp add: prologue_def case_prod_beta Let_def demo_ip\<close>)
qed

text \<open>The tokens.\<close>

lemma demo_verify_auth:
  assumes "payload = (if body = [] then [] else [[''payload'', ''00'']])"
    and "995 \<le> now" and "now \<le> 1060"
  shows "verify_event demo_libs now (demo_auth i key meth path payload) meth
    (''https://goblin.st'' @ path) body 60"
proof -
  have "auth_age now (demo_auth i key meth path payload) = now - 1000"
    using assms(2,3) by (subst auth_age_small) (simp_all add: demo_auth_def)
  moreover have "event_binds demo_libs (demo_auth i key meth path payload) meth
      (''https://goblin.st'' @ path) body"
    unfolding event_binds_def
    by (simp add: demo_auth_def demo_libs_def assms(1) last_value_def last_payload_def second_def)
  ultimately show ?thesis
    using assms(2,3) unfolding verify_event_def by (simp add: demo_auth_def) (simp add: demo_libs_def)
qed

lemma demo_tokens:
  "event_from_json demo_libs (replicate 1 0) =
     Some (demo_auth ''e1'' key_a ''POST'' ''/api/v1/register'' [[''payload'', ''00'']])"
  "event_from_json demo_libs (replicate 2 0) =
     Some (demo_auth ''e2'' key_a ''DELETE'' ''/api/v1/register/alice'' [])"
  "event_from_json demo_libs (replicate 3 0) =
     Some (demo_auth ''e3'' key_a ''POST'' ''/api/v1/transfer/offer'' [[''payload'', ''00'']])"
  "event_from_json demo_libs (replicate 4 0) =
     Some (demo_auth ''e4'' key_b ''POST'' ''/api/v1/transfer/claim'' [[''payload'', ''00'']])"
  "event_from_json demo_libs (replicate 5 0) =
     Some (demo_auth ''e5'' key_a ''DELETE'' (revoke_path offer_c) [])"
  "event_from_json demo_libs (replicate 6 0) =
     Some (demo_auth ''e6'' key_a ''POST'' ''/api/v1/transfer/offer'' [[''payload'', ''00'']])"
  by (simp_all add: demo_libs_def)

lemma demo_key [simp]: "ev_pubkey (demo_auth i key meth path payload) = key"
  by (simp add: demo_auth_def)

lemma demo_id [simp]: "ev_id (demo_auth i key meth path payload) = i"
  by (simp add: demo_auth_def)

lemma demo_times: "(995::int) \<le> 1000" "(1000::int) \<le> 1060"
  by simp_all

lemma demo_login:
  assumes "event_from_json demo_libs (replicate n 0) = Some (demo_auth i key meth path payload)"
    and "payload = (if body = [] then [] else [[''payload'', ''00'']])"
    and "demo_open bucket i w"
  shows "\<exists>w2. prologue demo_libs demo_cfg bucket (demo_headers n) meth path body w = Inr (key, w2)"
  using demo_prologue [OF assms(1) demo_verify_auth [OF assms(2)], of w bucket] assms(3)
  by (metis demo_key demo_id demo_open_def order_refl demo_times)

lemma demo_logins:
  "demo_open bucket ''e1'' w \<Longrightarrow> \<exists>w2. prologue demo_libs demo_cfg bucket (demo_headers 1) ''POST''
    ''/api/v1/register'' (demo_body 1) w = Inr (key_a, w2)"
  "demo_open bucket ''e2'' w \<Longrightarrow> \<exists>w2. prologue demo_libs demo_cfg bucket (demo_headers 2) ''DELETE''
    ''/api/v1/register/alice'' [] w = Inr (key_a, w2)"
  "demo_open bucket ''e3'' w \<Longrightarrow> \<exists>w2. prologue demo_libs demo_cfg bucket (demo_headers 3) ''POST''
    ''/api/v1/transfer/offer'' (demo_body 3) w = Inr (key_a, w2)"
  "demo_open bucket ''e4'' w \<Longrightarrow> \<exists>w2. prologue demo_libs demo_cfg bucket (demo_headers 4) ''POST''
    ''/api/v1/transfer/claim'' (demo_body 4) w = Inr (key_b, w2)"
  "demo_open bucket ''e5'' w \<Longrightarrow> \<exists>w2. prologue demo_libs demo_cfg bucket (demo_headers 5) ''DELETE''
    (revoke_path offer_c) [] w = Inr (key_a, w2)"
  "demo_open bucket ''e6'' w \<Longrightarrow> \<exists>w2. prologue demo_libs demo_cfg bucket (demo_headers 6) ''POST''
    ''/api/v1/transfer/offer'' (demo_body 6) w = Inr (key_a, w2)"
  by (rule demo_login, rule demo_tokens, simp add: demo_body_def, assumption)+

section \<open>The database of the example\<close>

lemma demo_db [simp]:
  "db (demo_world names offers) = demo_conn names offers"
  "node (demo_world names offers) = Some demo_node"
  "rate (demo_world names offers) = Mapping.empty"
  "seen_auth (demo_world names offers) = Mapping.empty"
  by (simp_all add: demo_world_def open_with_node_def)

lemma demo_conn_tables [simp]:
  "tb_names (demo_conn names offers) = names"
  "tb_offers (demo_conn names offers) = offers"
  "tb_transfers (demo_conn names offers) = []"
  "\<not> io_err (demo_conn names offers) k"
  by (simp_all add: demo_conn_def)

lemma demo_inv:
  "db_inv (demo_conn [] [])" "db_inv (demo_conn [alice_row] [])"
  "db_inv (demo_conn [alice_row] [demo_row])"
  by (simp_all add: db_inv_def names_inv_def offers_inv_def transfers_inv_def consumed_recorded_def
      demo_row_def offer_statuses_def)

lemma demo_owned [simp]:
  "owned (demo_conn [] offers) = Map.empty"
  "owned (demo_conn [alice_row] offers) = [''alice'' \<mapsto> key_a]"
  by (auto simp: owned_def owner_of_def alice_row_def active_def fun_eq_iff)

lemma demo_keys [simp]:
  "key_a \<noteq> key_b" "key_b \<noteq> key_a" "valid_pubkey_hex key_a" "valid_pubkey_hex key_b"
  by (simp_all add: key_a_def key_b_def valid_pubkey_hex_def list_all_iff str_defs)

section \<open>The offer and the proof\<close>

definition demo_terms :: lodged_terms where
  "demo_terms =
     \<lparr>lt_event = demo_offer, lt_name = ''alice'', lt_buyer = key_b, lt_price = 5,
      lt_proof_address = ''grin1a'', lt_expiration = 2000\<rparr>"

lemma demo_offer_event:
  "offer_event demo_libs (demo_body 3) = Some demo_offer"
  "offer_event demo_libs (demo_body 6) = Some (demo_offer\<lparr>ev_id := offer_d\<rparr>)"
  by (simp_all add: offer_event_def demo_libs_def demo_body_def as_bytes_def)

lemma demo_offer_tags:
  "extract_offer_tags demo_offer = Some \<lparr>ot_name = ''alice'', ot_domain = ''goblin.st'',
     ot_buyer = key_b, ot_price = ''5'', ot_proof_address = ''grin1a'', ot_expiration = ''2000''\<rparr>"
  by (simp add: extract_offer_tags_def demo_offer_def offer_tag_def second_def)

lemma demo_trims [simp]:
  "trim ''5'' = ''5''" "trim ''2000'' = ''2000''" "trim ''grin1a'' = ''grin1a''"
  "trim ''grin1b'' = ''grin1b''"
  by (simp_all add: trim_graphic is_graphic_def)

lemma demo_parsed [simp]: "parse_u64 ''5'' = Some 5" "parse_i64 ''2000'' = Some 2000"
  by (simp_all add: parse_u64_def parse_usize_def parse_i64_def strip_prefix_def digits_val_def
      str_defs)

lemma demo_normal [simp]:
  "normalize_grin_address demo_libs ''grin1a'' = ''grin1a''"
  "normalize_grin_address demo_libs ''grin1b'' = ''grin1b''"
  by (simp_all add: normalize_grin_address_def to_lowercase_def to_ascii_lowercase_def str_defs)

lemma demo_address [simp]:
  "decode_grin_address demo_libs ''grin1a'' = Some (replicate 32 0)"
  "decode_grin_address demo_libs ''grin1b'' = Some (replicate 32 1)"
  by (simp_all add: decode_grin_address_Some) (simp_all add: demo_libs_def)

lemma demo_valid_alice: "valid_name ''alice'' 3 20"
  by (simp add: valid_name_iff ok_char_def is_ascii_lower_alnum_def str_defs)

lemma demo_check:
  "check_offer demo_libs demo_cfg key_a (demo_body 3) = Inr demo_terms"
  "check_offer demo_libs demo_cfg key_a (demo_body 6) =
     Inr (demo_terms\<lparr>lt_event := demo_offer\<lparr>ev_id := offer_d\<rparr>\<rparr>)"
proof -
  have e: "event_verify demo_libs (demo_offer\<lparr>ev_id := i\<rparr>)" "event_verify demo_libs demo_offer"
    "ev_kind demo_offer = OFFER_KIND" "ev_pubkey demo_offer = key_a"
    "extract_offer_tags (demo_offer\<lparr>ev_id := i\<rparr>) = extract_offer_tags demo_offer" for i
    by (simp_all add: demo_libs_def demo_offer_def extract_offer_tags_def)
  have c: "cfg_name_min demo_cfg = 3" "cfg_name_max demo_cfg = 20"
    "cfg_domain demo_cfg = ''goblin.st''"
    by (simp_all add: demo_cfg_def)
  show "check_offer demo_libs demo_cfg key_a (demo_body 3) = Inr demo_terms"
    and "check_offer demo_libs demo_cfg key_a (demo_body 6) =
     Inr (demo_terms\<lparr>lt_event := demo_offer\<lparr>ev_id := offer_d\<rparr>\<rparr>)"
    by (simp_all add: check_offer_def demo_offer_event demo_offer_tags demo_valid_alice Let_def
        valid_pubkey_hex_lowercase demo_terms_def e c)
qed

lemma demo_lowercase_hex:
  "lowercase_hex excess_0" "lowercase_hex sig_0" "is_offer_id offer_c"
  "to_lowercase ul offer_c = offer_c"
  by (simp_all add: lowercase_hex_def excess_0_def sig_0_def is_offer_id_def offer_c_def
      list_all_iff str_defs to_lowercase_def to_ascii_lowercase_def)

lemma demo_claim_request: "claim_request demo_libs (demo_body 4) = Inr (offer_c, demo_proof)"
proof -
  have "parse_payment_proof demo_libs (proof_to_json demo_proof) = Some demo_proof"
    by (rule parse_proof_to_json) (simp_all add: demo_proof_def demo_lowercase_hex)
  moreover have "json_from_slice demo_libs (demo_body 4) =
      Some (JObject [(''offer_id'', JString offer_c), (''proof'', proof_to_json demo_proof)])"
    by (simp add: demo_libs_def demo_body_def)
  ultimately show ?thesis by (simp add: claim_request_def Let_def demo_lowercase_hex)
qed

lemma demo_signatures: "verify_signatures demo_libs demo_proof"
proof -
  have hex: "hex_decode demo_libs s = Some (replicate (length s div 2) 0)" for s
    by (simp add: demo_libs_def)
  have "payment_proof_message demo_libs 5 excess_0 (replicate 32 1) =
      Some (amount_to_be_u64 5 @ replicate 33 0 @ replicate 32 1)"
    by (simp add: payment_proof_message_def hex excess_0_def)
  then show ?thesis
    by (simp add: verify_signatures_def demo_proof_def hex sig_0_def verify_ed25519_iff)
      (simp add: demo_libs_def)
qed

lemma demo_gates:
  "death_gate demo_cfg demo_row 1000 = Inr None"
  "proof_gate demo_libs demo_row demo_proof = Inr ()"
  "kernel_gate demo_cfg demo_row None (cs_kernel demo_node excess_0) = Inr (Some 500)"
proof -
  show "death_gate demo_cfg demo_row 1000 = Inr None"
    by (simp add: death_gate_def demo_row_def)
  show "proof_gate demo_libs demo_row demo_proof = Inr ()"
    by (simp add: proof_gate_def demo_signatures) (simp add: demo_proof_def demo_row_def i64_as_u64_def)
  have "cs_kernel demo_node excess_0 =
      Inr \<lparr>k_found = True, k_confirmations = 20, k_height = Some 500\<rparr>"
    by (simp add: demo_node_def test_chain_def set_kernel_def)
  then show "kernel_gate demo_cfg demo_row None (cs_kernel demo_node excess_0) = Inr (Some 500)"
    by (simp add: kernel_gate_def demo_cfg_def u64_as_i64_def)
qed

section \<open>The example can start\<close>

definition demo_chain :: "string \<Rightarrow> kernel_result \<Rightarrow> bool" where
  "demo_chain ex krn \<longleftrightarrow> cs_kernel demo_node ex = Inr krn"

lemma demo_answers: "node_answers demo_chain (demo_world names offers)"
  by (simp add: node_answers_def demo_chain_def)

lemma demo_name_allowed: "name_allowed demo_cfg ''alice''"
proof -
  have "\<not> is_reserved ''alice'' []"
    by (simp add: is_reserved_def RESERVED_def fold_lookalike_def fold_char_def map_filter_simps)
  moreover have "cfg_name_min demo_cfg = 3" "cfg_name_max demo_cfg = 20" "cfg_extra_reserved demo_cfg = []"
    by (simp_all add: demo_cfg_def)
  ultimately show ?thesis by (simp add: name_allowed_def demo_valid_alice)
qed

lemma demo_row_lodged: "lodged_row demo_libs demo_terms 1000 = demo_row"
  by (simp add: lodged_row_def demo_terms_def demo_row_def demo_offer_def u64_as_i64_def)
     (simp add: demo_libs_def)

lemma demo_offer_authentic: "offer_authentic demo_libs demo_cfg demo_row"
proof -
  have "ev_pubkey demo_offer = key_a" by (simp add: demo_offer_def)
  then show ?thesis
    using check_offer_Inr(2) [OF demo_check(1), of 1000] demo_row_lodged
    unfolding offer_authentic_def lodged_row_def by (auto simp: demo_terms_def)
qed

lemma demo_sys_inv:
  "sys_inv demo_libs demo_cfg demo_chain (demo_world [] [])"
  "sys_inv demo_libs demo_cfg demo_chain (demo_world [alice_row] [])"
  "sys_inv demo_libs demo_cfg demo_chain (demo_world [alice_row] [demo_row])"
  using demo_name_allowed demo_offer_authentic
  by (simp_all add: sys_inv_def demo_inv demo_answers justified_inv_def name_row_ok_def)
     (simp_all add: alice_row_def)


lemma request_handler_serve [simp]: "request_handler L cfg (serve L cfg q)"
  by (auto simp: request_handler_def)

text \<open>A request served alone, and one overtaken by another after \<open>n\<close> of its steps.\<close>

lemma reaches_served:
  "reaches L cfg K (w, []) (snd (run (serve L cfg q) w), [Ret (fst (run (serve L cfg q) w))])"
  by (rule scheds_alone [where A = "request_handler L cfg"]) simp

lemma reaches_overtaken:
  fixes L cfg q q' w n
  defines "w1 \<equiv> fst (advance n (serve L cfg q) w)" and "p1 \<equiv> snd (advance n (serve L cfg q) w)"
  shows "reaches L cfg K (w, []) (snd (run p1 (snd (run (serve L cfg q') w1))),
    [Ret (fst (run p1 (snd (run (serve L cfg q') w1)))), Ret (fst (run (serve L cfg q') w1))])"
  unfolding w1_def p1_def
  by (rule scheds_overtaken [where A = "request_handler L cfg"]) simp_all

section \<open>Requests served\<close>

definition rq_register :: request where
  "rq_register = demo_request ''POST'' ''/api/v1/register'' 1 1 []"
definition rq_release :: request where
  "rq_release = demo_request ''DELETE'' ''/api/v1/register/{name}'' 2 0 ''alice''"
definition rq_lodge :: request where
  "rq_lodge = demo_request ''POST'' ''/api/v1/transfer/offer'' 3 3 []"
definition rq_claim :: request where
  "rq_claim = demo_request ''POST'' ''/api/v1/transfer/claim'' 4 4 []"
definition rq_revoke :: request where
  "rq_revoke = demo_request ''DELETE'' ''/api/v1/transfer/offer/{offer_id}'' 5 0 offer_c"
definition rq_lodge2 :: request where
  "rq_lodge2 = demo_request ''POST'' ''/api/v1/transfer/offer'' 6 6 []"

lemma demo_served:
  "serve demo_libs demo_cfg rq_register = register demo_libs demo_cfg (demo_headers 1) (demo_body 1)"
  "serve demo_libs demo_cfg rq_release = unregister demo_libs demo_cfg ''alice'' (demo_headers 2)"
  "serve demo_libs demo_cfg rq_lodge = lodge_offer demo_libs demo_cfg (demo_headers 3) (demo_body 3)"
  "serve demo_libs demo_cfg rq_claim = claim demo_libs demo_cfg (demo_headers 4) (demo_body 4)"
  "serve demo_libs demo_cfg rq_revoke = revoke_offer demo_libs demo_cfg offer_c (demo_headers 5)"
  "serve demo_libs demo_cfg rq_lodge2 = lodge_offer demo_libs demo_cfg (demo_headers 6) (demo_body 6)"
proof -
  have on: "cfg_allow_transfers demo_cfg" by (simp add: demo_cfg_def)
  show
  "serve demo_libs demo_cfg rq_register = register demo_libs demo_cfg (demo_headers 1) (demo_body 1)"
  "serve demo_libs demo_cfg rq_release = unregister demo_libs demo_cfg ''alice'' (demo_headers 2)"
  "serve demo_libs demo_cfg rq_lodge = lodge_offer demo_libs demo_cfg (demo_headers 3) (demo_body 3)"
  "serve demo_libs demo_cfg rq_claim = claim demo_libs demo_cfg (demo_headers 4) (demo_body 4)"
  "serve demo_libs demo_cfg rq_revoke = revoke_offer demo_libs demo_cfg offer_c (demo_headers 5)"
  "serve demo_libs demo_cfg rq_lodge2 = lodge_offer demo_libs demo_cfg (demo_headers 6) (demo_body 6)"
    by (simp_all add: serve_def routes_def base_routes_def transfer_routes_def demo_request_def on
        rq_register_def rq_release_def rq_lodge_def rq_claim_def rq_revoke_def rq_lodge2_def)
qed

lemma demo_get_offer [simp]:
  "get_offer offer_c (demo_conn names [demo_row]) = Some demo_row"
  by (simp add: get_offer_row query_row_def demo_row_def)

lemma demo_settled [simp]: "run (settle_expiry demo_row 1000) w = (demo_row, w)"
  by (simp add: settle_expiry_def demo_row_def)

lemma demo_row_fields [simp]:
  "o_offer_id demo_row = offer_c" "o_name demo_row = ''alice''" "o_seller_pubkey demo_row = key_a"
  "o_buyer_pubkey demo_row = key_b" "o_status demo_row = ''live''"
  "pp_excess_hex demo_proof = excess_0"
  by (simp_all add: demo_row_def demo_proof_def)

lemma demo_claim_ok:
  assumes "node w = Some demo_node" and "owned (db w) = [''alice'' \<mapsto> key_a]"
    and "tb_transfers (db w) = []"
  shows "claim_ok demo_libs demo_cfg key_b demo_row demo_proof 1000 w (Some 500)"
  using assms by (simp add: claim_ok_def demo_gates observed_kernel_def)

definition sold_conn :: conn where
  "sold_conn =
     \<lparr>tb_names = [alice_row\<lparr>n_pubkey := key_b, n_created_at := 1000\<rparr>],
      tb_offers = [demo_row\<lparr>o_status := ''consumed''\<rparr>],
      tb_transfers = [transfer_record demo_row excess_0 (Some 500) 1000],
      io_err = (\<lambda>_. False)\<rparr>"

lemma demo_txn:
  "run_claim_txn demo_row excess_0 (Some 500) 1000 (demo_conn [alice_row] [demo_row]) = (Inr (), sold_conn)"
  by (simp add: run_claim_txn_def reassign_name_def insert_transfer_def consume_offer_def Let_def
      update_rows_def alice_row_def active_def pubkey_active_elsewhere_def sold_conn_def
      transfer_record_def)
     (simp add: demo_conn_def)

lemma demo_claim_asked:
  assumes "demo_open ''transfer'' ''e4'' w" and "get_offer offer_c (db w) = Some row"
  shows "claim_asked demo_libs demo_cfg (demo_headers 4) (demo_body 4) w key_b row demo_proof"
  using demo_logins(4) [OF assms(1)] assms(2) demo_claim_request unfolding claim_asked_def by blast

lemma demo_claimed:
  assumes "demo_open ''transfer'' ''e4'' w" and "node w = Some demo_node"
    and "db w = demo_conn [alice_row] [demo_row]"
  shows "status (fst (run (serve demo_libs demo_cfg rq_claim) w)) = CREATED"
    and "db (snd (run (serve demo_libs demo_cfg rq_claim) w)) = sold_conn"
proof -
  have now: "unix_now w = 1000" using assms(1) by (simp add: demo_open_def)
  obtain w2 where pro: "prologue demo_libs demo_cfg ''transfer'' (demo_headers 4) ''POST''
      ''/api/v1/transfer/claim'' (demo_body 4) w = Inr (key_b, w2)"
    using demo_logins(4) [OF assms(1)] by blast
  have asked: "claim_asked demo_libs demo_cfg (demo_headers 4) (demo_body 4) w key_b demo_row demo_proof"
    using pro assms(3) by (simp add: claim_asked_def demo_claim_request)
  have st: "settled demo_row w = demo_row" by (simp add: settled_def now)
  have inv: "db_inv (db w)" using assms(3) demo_inv(3) by simp
  have io: "\<not> io_err (db w) k" for k using assms(3) by simp
  have ok: "claim_ok demo_libs demo_cfg key_b (settled demo_row w) demo_proof (unix_now w) w (Some 500)"
    using assms(2,3) by (simp add: st now demo_claim_ok)
  note run = run_claim [OF inv io asked]
  show "status (fst (run (serve demo_libs demo_cfg rq_claim) w)) = CREATED"
    using run(1) ok by (auto simp: demo_served st)
  show "db (snd (run (serve demo_libs demo_cfg rq_claim) w)) = sold_conn"
    using run(2) [OF _ ok] by (simp add: demo_served st now assms(3) demo_txn)
qed

text \<open>The state after the claim has been served.\<close>

definition sold_world :: world where
  "sold_world = snd (run (serve demo_libs demo_cfg rq_claim) (demo_world [alice_row] [demo_row]))"

definition sold_answer :: response where
  "sold_answer = fst (run (serve demo_libs demo_cfg rq_claim) (demo_world [alice_row] [demo_row]))"

lemma sold_world_db [simp]: "db sold_world = sold_conn"
  unfolding sold_world_def by (rule demo_claimed) simp_all

lemma sold_world_reached:
  "reaches demo_libs demo_cfg demo_chain (demo_world [alice_row] [demo_row], [])
     (sold_world, [Ret sold_answer])"
  unfolding sold_world_def sold_answer_def by (rule reaches_served)

lemma sold_conn_facts:
  "transfer_record demo_row excess_0 (Some 500) 1000 \<in> set (tb_transfers sold_conn)"
  "owned sold_conn = [''alice'' \<mapsto> key_b]"
  by (auto simp: sold_conn_def owned_def owner_of_def alice_row_def active_def fun_eq_iff)

text \<open>The register token at other times of the system clock.\<close>

lemma demo_register_event:
  "995 \<le> now \<Longrightarrow> now \<le> 1060 \<Longrightarrow> verify_event demo_libs now
     (demo_auth ''e1'' key_a ''POST'' ''/api/v1/register'' [[''payload'', ''00'']]) ''POST''
     (''https://goblin.st'' @ ''/api/v1/register'') (demo_body 1) 60"
  by (rule demo_verify_auth) (simp add: demo_body_def)

lemma demo_register_token:
  assumes "sane_clock w" and "995000000000 \<le> sys_time w" and "sys_time w < 1061000000000"
    and "demo_unused ''reg'' ''e1'' w"
  shows "\<exists>w2. prologue demo_libs demo_cfg ''reg'' (demo_headers 1) ''POST''
    ''/api/v1/register'' (demo_body 1) w = Inr (key_a, w2)"
proof -
  have now: "995 \<le> unix_now w" "unix_now w \<le> 1060"
    using assms(2,3) by (simp_all add: unix_now_secs [OF assms(1)])
  show ?thesis
    using demo_prologue [OF demo_tokens(1) demo_register_event [OF now], of "''reg''"]
      assms(4) by (metis demo_id demo_key)
qed

lemma demo_replay_window: "replay_window demo_cfg = 65000000000"
  using replay_window_secs [of demo_cfg] by (simp add: sane_config_def demo_cfg_def)

text \<open>A state with its two clocks set.\<close>

definition at_time :: "nat \<Rightarrow> int \<Rightarrow> world \<Rightarrow> world" where
  "at_time t st w = w\<lparr>instant := t, sys_time := st\<rparr>"

text \<open>The register handler up to its replay check.\<close>

definition register_waiting :: handler where
  "register_waiting = snd (advance 2 (serve demo_libs demo_cfg rq_register) (demo_world [] []))"

definition register_world :: world where
  "register_world = fst (advance 2 (serve demo_libs demo_cfg rq_register) (demo_world [] []))"

lemma reaches_advance:
  "reaches L cfg K (w, []) (fst (advance n (serve L cfg q) w), [snd (advance n (serve L cfg q) w)])"
proof -
  have "reaches L cfg K (w, []) (w, [serve L cfg q])"
    by (rule r_into_rtranclp, rule sched.arrive [where ps = "[]", simplified]) simp
  also have "reaches L cfg K (w, [serve L cfg q])
      (fst (advance n (serve L cfg q) w), [snd (advance n (serve L cfg q) w)])"
    using scheds_advance [where i = 0 and ps = "[serve L cfg q]"] by simp
  finally show ?thesis .
qed

lemma register_waiting_act:
  obtains k where "register_waiting = act (auth_event_fresh demo_cfg ''e1'') k"
    and "fst (auth_event_fresh demo_cfg ''e1'' register_world)"
    and "instant register_world = 1000000000000"
    and "prologue demo_libs demo_cfg ''reg'' (demo_headers 1) ''POST'' ''/api/v1/register''
      (demo_body 1) (demo_world [] []) =
      Inr (key_a, snd (auth_event_fresh demo_cfg ''e1'' register_world))"
proof -
  let ?w = "demo_world [] []" and ?p = "serve demo_libs demo_cfg rq_register"
  let ?w1 = "snd (allow_write demo_cfg ''reg'' ''1.2.3.4'' ?w)"
  have unused: "demo_unused ''reg'' ''e1'' ?w" using demo_open_start by (simp add: demo_open_def)
  note step = demo_auth_step [OF demo_tokens(1) demo_register_event, of ?w "''reg''",
      unfolded demo_now demo_id demo_key, OF demo_times unused]
  obtain k where adv: "advance 2 ?p ?w = (?w1, act (auth_event_fresh demo_cfg ''e1'') k)"
    using step
    by (simp add: numeral_2_eq_2 demo_served register_def Let_def demo_ip authenticate_def
        authorised_by_def)
  show ?thesis
    by (rule that [of k])
       (use step adv in \<open>simp_all add: register_waiting_def register_world_def prologue_def
          case_prod_beta Let_def demo_ip\<close>, simp add: demo_world_def open_with_node_def)
qed

lemma register_step:
  assumes "register_waiting = act (auth_event_fresh demo_cfg ''e1'') k"
  shows "sched (environment demo_chain) (request_handler demo_libs demo_cfg)
    (register_world, [register_waiting])
    (snd (auth_event_fresh demo_cfg ''e1'' register_world),
     [k (fst (auth_event_fresh demo_cfg ''e1'' register_world))])"
  unfolding assms by (rule sched_act)

lemma register_reached:
  "reaches demo_libs demo_cfg demo_chain (demo_world [] [], []) (register_world, [register_waiting])"
  unfolding register_world_def register_waiting_def by (rule reaches_advance)

text \<open>The clocks and the event of the register token.\<close>

lemma demo_clocks:
  assumes "prologue demo_libs demo_cfg b hs m p body (demo_world [] []) = Inr (key, w1)"
  shows "sane_config demo_cfg" and "sane_clock (demo_world [] [])" and "sane_clock w1"
    and "sys_time w1 = sys_time (demo_world [] [])" and "instant w1 = instant (demo_world [] [])"
    and "uint (ev_created_at (demo_auth i k meth path payload)) < 4611686018427387904"
    and "- 4 \<le> auth_age 1000 (demo_auth i k meth path payload)"
proof -
  show "sane_config demo_cfg" by (simp add: sane_config_def demo_cfg_def)
  show start: "sane_clock (demo_world [] [])"
    by (simp add: sane_clock_def demo_world_def open_with_node_def)
  show same: "sys_time w1 = sys_time (demo_world [] [])" "instant w1 = instant (demo_world [] [])"
    using prologue_Inr(4,6) [OF assms] by simp_all
  show "sane_clock w1" using start by (simp add: sane_clock_def same)
  show "uint (ev_created_at (demo_auth i k meth path payload)) < 4611686018427387904"
    by (simp add: demo_auth_def)
  show "- 4 \<le> auth_age 1000 (demo_auth i k meth path payload)"
    by (subst auth_age_small) (simp_all add: demo_auth_def)
qed

text \<open>After a first use of the register token the client's bucket has room, and the token is
  on record with the time of that use.\<close>

lemma demo_unused_again:
  assumes "prologue demo_libs demo_cfg ''reg'' (demo_headers 1) ''POST'' ''/api/v1/register''
      (demo_body 1) w = Inr (key_a, w1)"
    and "hits_of w (bucket_key ''reg'' ''1.2.3.4'') = []"
  shows "length (hits_of w1 (bucket_key ''reg'' ''1.2.3.4'')) < 10"
    and "Mapping.lookup (seen_auth w1) ''e1'' = Some (instant w)"
proof -
  have "hits_of w1 = hits_of (snd (allow_write demo_cfg ''reg'' (client_ip (demo_headers 1)) w))"
    using prologue_Inr(5) [OF assms(1)] by (simp add: hits_of_def fun_eq_iff)
  moreover have "length (hits_of (snd (allow_write demo_cfg ''reg'' (client_ip (demo_headers 1)) w))
      (bucket_key ''reg'' ''1.2.3.4'')) \<le> length (hits_of w (bucket_key ''reg'' ''1.2.3.4'')) + 1"
    unfolding allow_write_def by (rule length_hits_of_allow)
  ultimately have hits: "length (hits_of w1 (bucket_key ''reg'' ''1.2.3.4'')) \<le> 1"
    using assms(2) by simp
  then show "length (hits_of w1 (bucket_key ''reg'' ''1.2.3.4'')) < 10"
    using hits by simp
  show "Mapping.lookup (seen_auth w1) ''e1'' = Some (instant w)"
    using prologue_event [OF assms(1)] demo_tokens(1) by (auto simp: demo_carried)
qed

end
