(* ===== verification/Refusal_Tables.thy ===== *)
theory Refusal_Tables
  imports Example
begin

text \<open>
  The error answers of the write endpoints, as tables: each handler checks one thing after the
  other and is refused by the first check that fails. A table lists the checks in their order,
  each with its condition on the request and the state, its status and its message. The lemmas
  show that \<open>register\<close>, \<open>unregister\<close> and \<open>lodge_offer\<close>, served alone, refuse exactly as
  their tables say; \<open>Refusals\<close> does the same for a claim.
\<close>

section \<open>Refusals\<close>

text \<open>What a request is refused with: the status and the \<open>error\<close> text.\<close>

definition refusal :: "response \<Rightarrow> (nat \<times> string) option" where
  "refusal r =
     (case resp_body r of
        Json (JObject ((k, JString msg) # _)) \<Rightarrow> if k = ''error'' then Some (status r, msg) else None
      | _ \<Rightarrow> None)"

lemma refusal_simps [simp]:
  "refusal (err c m) = Some (c, m)"
  "refusal (json_response c ((''error'', JString m) # kvs)) = Some (c, m)"
  "refusal (json_response c (claim_success n d b)) = None"
  "refusal (json_response c (registered_body cfg n)) = None"
  "refusal (json_response c ((''name'', JString n) # kvs)) = None"
  "refusal (json_response c ((''offer_id'', JString n) # kvs)) = None"
  "refusal (revoked_response n) = None"
  by (simp_all add: refusal_def err_def json_response_def claim_success_def registered_body_def revoked_response_def)

lemma refusal_status: "refusal r = Some (c, msg) \<Longrightarrow> status r = c"
  by (auto simp: refusal_def split: payload.splits json.splits list.splits if_splits)

type_synonym refusals = "(bool \<times> nat \<times> string) list"

text \<open>The answer of the first check that fails.\<close>

definition first_failure :: "refusals \<Rightarrow> (nat \<times> string) option" where
  "first_failure checks = map_option snd (List.find fst checks)"

lemma first_failure_simps [simp]:
  "first_failure [] = None"
  "first_failure ((failed, answer) # checks) = (if failed then Some answer else first_failure checks)"
  by (simp_all add: first_failure_def)

lemma first_failure_append:
  "first_failure (checks @ checks') =
     (case first_failure checks of None \<Rightarrow> first_failure checks' | Some answer \<Rightarrow> Some answer)"
  by (induction checks) (auto split: option.split)

lemma first_failure_None: "first_failure checks = None \<longleftrightarrow> list_all (\<lambda>(failed, answer). \<not> failed) checks"
  by (induction checks) (auto split: if_splits)

section \<open>The entry of every authenticated handler\<close>

text \<open>The limiter, the authorization (whose messages are those of \<open>verify_nip98\<close>), the replay
  set; and the key of a request that passes them.\<close>

definition entry_refusals ::
  "libs \<Rightarrow> config \<Rightarrow> string \<Rightarrow> headers \<Rightarrow> string \<Rightarrow> string \<Rightarrow> bytes \<Rightarrow> world \<Rightarrow> refusals" where
  "entry_refusals L cfg bucket hs meth path body w =
     (let w1 = snd (allow_write cfg bucket (client_ip hs) w);
          auth = authorised_by L cfg w1 hs meth path body
      in [(\<not> fst (allow_write cfg bucket (client_ip hs) w), (TOO_MANY_REQUESTS, ''rate_limited'')),
          (isl auth, projl auth),
          (\<not> fst (auth_event_fresh cfg (snd (projr auth)) w1), (UNAUTHORIZED, ''auth event replayed''))])"

definition requester ::
  "libs \<Rightarrow> config \<Rightarrow> string \<Rightarrow> headers \<Rightarrow> string \<Rightarrow> string \<Rightarrow> bytes \<Rightarrow> world \<Rightarrow> string" where
  "requester L cfg bucket hs meth path body w =
     fst (projr (authorised_by L cfg (snd (allow_write cfg bucket (client_ip hs) w)) hs meth path body))"

lemma entry_refused:
  assumes "prologue L cfg bucket hs meth path body w = Inl r"
  shows "refusal (fst r) = first_failure (entry_refusals L cfg bucket hs meth path body w)"
    and "first_failure (entry_refusals L cfg bucket hs meth path body w) \<noteq> None"
  using assms
  by (auto simp: prologue_def entry_refusals_def case_prod_beta Let_def split: if_splits sum.splits)

lemma entry_passed:
  assumes "prologue L cfg bucket hs meth path body w = Inr (key, w2)"
  shows "first_failure (entry_refusals L cfg bucket hs meth path body w) = None"
    and "requester L cfg bucket hs meth path body w = key"
  using assms
  by (auto simp: prologue_def entry_refusals_def requester_def case_prod_beta Let_def
      split: if_splits sum.splits)

section \<open>Register\<close>

definition register_refusals :: "libs \<Rightarrow> config \<Rightarrow> headers \<Rightarrow> bytes \<Rightarrow> world \<Rightarrow> refusals" where
  "register_refusals L cfg hs body w =
     (let key = requester L cfg ''reg'' hs ''POST'' ''/api/v1/register'' body w;
          name = fst (the (requested L body)); pubkey = snd (the (requested L body))
      in entry_refusals L cfg ''reg'' hs ''POST'' ''/api/v1/register'' body w @
         [(cooling_down cfg key (snd (allow_write cfg ''reg'' (client_ip hs) w)),
             (TOO_MANY_REQUESTS, ''name_change_cooldown'')),
          (requested L body = None, (BAD_REQUEST, ''invalid body'')),
          (\<not> valid_pubkey_hex pubkey, (BAD_REQUEST, ''invalid pubkey'')),
          (pubkey \<noteq> key, (UNAUTHORIZED, ''auth pubkey does not match body pubkey'')),
          (\<not> valid_name name (cfg_name_min cfg) (cfg_name_max cfg), (BAD_REQUEST, ''invalid name'')),
          (is_reserved name (cfg_extra_reserved cfg), (FORBIDDEN, ''name reserved'')),
          (owned (db w) name \<notin> {None, Some key}, (CONFLICT, ''name taken'')),
          (owned (db w) name = None \<and> key \<in> ran (owned (db w)), (CONFLICT, ''pubkey already has a name''))])"

lemma run_register_claim_refusal:
  assumes inv: "db_inv (db w)" and io: "\<not> io_err (db w) 0"
  shows "refusal (fst (run (register_claim cfg name key) w)) = first_failure
     [(owned (db w) name \<notin> {None, Some key}, (CONFLICT, ''name taken'')),
      (owned (db w) name = None \<and> key \<in> ran (owned (db w)), (CONFLICT, ''pubkey already has a name''))] \<and>
    (refusal (fst (run (register_claim cfg name key) w)) = None \<longrightarrow>
      fst (run (register_claim cfg name key) w) =
        json_response (if owned (db w) name = None then CREATED else OK) (registered_body cfg name))"
proof (cases "owned (db w) name")
  case (Some owner)
  then show ?thesis using io by (simp add: register_claim_def db_query_def lookup_owned)
next
  case free: None
  note rows = db_inv_names [OF inv]
  show ?thesis
  proof (cases "key \<in> ran (owned (db w))")
    case True
    then obtain existing where "name_of key (db w) = Some existing"
      using name_of_None [OF rows io, of key] by (cases "name_of key (db w)") auto
    then show ?thesis
      using free True io by (simp add: register_claim_def db_query_def lookup_owned)
  next
    case False
    then have "name_of key (db w) = None" using name_of_None [OF rows io, of key] by simp
    moreover have "fst (register_name name key (unix_now w) (db w)) = Inr 1"
      using rows io free False by (rule register_name_free)
    ultimately show ?thesis
      using free False io by (simp add: register_claim_def db_query_def lookup_owned)
  qed
qed

lemma run_register_refusal:
  assumes inv: "db_inv (db w)" and io: "\<not> io_err (db w) 0"
  shows "refusal (fst (run (register L cfg hs body) w)) = first_failure (register_refusals L cfg hs body w) \<and>
    (refusal (fst (run (register L cfg hs body) w)) = None \<longrightarrow> fst (run (register L cfg hs body) w) =
      (let name = fst (the (requested L body)) in
       json_response (if owned (db w) name = None then CREATED else OK) (registered_body cfg name)))"
proof (cases "prologue L cfg ''reg'' hs ''POST'' ''/api/v1/register'' body w")
  case (Inl r)
  then show ?thesis
    using entry_refused [OF Inl]
    by (auto simp: run_register register_refusals_def Let_def first_failure_append)
next
  case (Inr kw)
  then obtain key w2 where
    pro: "prologue L cfg ''reg'' hs ''POST'' ''/api/v1/register'' body w = Inr (key, w2)"
    by (cases kw) simp
  let ?w3 = "snd (cooldown_active ''namechange'' key (cfg_name_change_cooldown cfg) w2)"
  have db3: "db ?w3 = db w" using prologue_Inr(1) [OF pro] by simp
  have cooling: "cooling_down cfg key (snd (allow_write cfg ''reg'' (client_ip hs) w)) = cooling_down cfg key w2"
    by (simp add: cooling_down_def prologue_Inr(4,5) [OF pro])
  have claim: "refusal (fst (run (register_claim cfg name key) ?w3)) = first_failure
     [(owned (db w) name \<notin> {None, Some key}, (CONFLICT, ''name taken'')),
      (owned (db w) name = None \<and> key \<in> ran (owned (db w)), (CONFLICT, ''pubkey already has a name''))] \<and>
    (refusal (fst (run (register_claim cfg name key) ?w3)) = None \<longrightarrow>
      fst (run (register_claim cfg name key) ?w3) =
        json_response (if owned (db w) name = None then CREATED else OK) (registered_body cfg name))" for name
    using run_register_claim_refusal [of ?w3 cfg name key] inv io unfolding db3 by blast
  show ?thesis
    using claim [THEN conjunct1] claim [THEN conjunct2, of "fst (the (requested L body))"]
    by (auto simp: run_register pro fst_cooldown_active register_refusals_def Let_def first_failure_append
        entry_passed [OF pro] cooling split: option.split)
qed

section \<open>Release\<close>

definition release_refusals :: "libs \<Rightarrow> config \<Rightarrow> string \<Rightarrow> headers \<Rightarrow> world \<Rightarrow> refusals" where
  "release_refusals L cfg n hs w =
     (let name = unregister_name L n;
          key = requester L cfg ''unreg'' hs ''DELETE'' (unregister_path name) [] w
      in entry_refusals L cfg ''unreg'' hs ''DELETE'' (unregister_path name) [] w @
         [(owned (db w) name = None, (NOT_FOUND, ''name not found'')),
          (owned (db w) name \<noteq> Some key, (FORBIDDEN, ''not the owner''))])"

lemma run_unregister_refusal:
  assumes io: "\<not> io_err (db w) 0"
  shows "refusal (fst (run (unregister L cfg n hs) w)) = first_failure (release_refusals L cfg n hs w) \<and>
    (refusal (fst (run (unregister L cfg n hs) w)) = None \<longrightarrow> fst (run (unregister L cfg n hs) w) =
      json_response OK [(''name'', JString (unregister_name L n)), (''released'', JBool True)])"
proof (cases "prologue L cfg ''unreg'' hs ''DELETE'' (unregister_path (unregister_name L n)) [] w")
  case (Inl r)
  then show ?thesis
    using entry_refused [OF Inl]
    by (auto simp: run_unregister_prologue release_refusals_def Let_def first_failure_append)
next
  case (Inr kw)
  then obtain key w2 where
    pro: "prologue L cfg ''unreg'' hs ''DELETE'' (unregister_path (unregister_name L n)) [] w = Inr (key, w2)"
    by (cases kw) simp
  have "fst (release_name name t (db w)) = Inr (length (filter (\<lambda>r. n_name r = name \<and> active r)
      (tb_names (db w))))" for name t
    using io by (simp add: release_name_def)
  then show ?thesis
    using io prologue_Inr(1) [OF pro]
    by (auto simp: run_unregister_prologue pro release_owned_def db_query_def lookup_owned
        release_refusals_def Let_def first_failure_append entry_passed [OF pro] split: option.split)
qed

section \<open>Lodge\<close>

text \<open>The checks of the body are those of \<open>check_offer\<close>, in its order; its answer is the
  table's.\<close>

definition lodge_refusals :: "libs \<Rightarrow> config \<Rightarrow> headers \<Rightarrow> bytes \<Rightarrow> world \<Rightarrow> refusals" where
  "lodge_refusals L cfg hs body w =
     (let key = requester L cfg ''transfer'' hs ''POST'' ''/api/v1/transfer/offer'' body w;
          checked = check_offer L cfg key body; lt = projr checked;
          live = filter (offer_live (unix_now w)) (tb_offers (db w))
      in entry_refusals L cfg ''transfer'' hs ''POST'' ''/api/v1/transfer/offer'' body w @
         [(isl checked, projl checked),
          (lt_expiration lt \<le> unix_now w \<or>
             lt_expiration lt > wrap_i64 (unix_now w + cfg_transfer_max_offer_ttl cfg),
             (BAD_REQUEST, ''invalid offer'')),
          (owned (db w) (lt_name lt) \<noteq> Some (ev_pubkey (lt_event lt)), (FORBIDDEN, ''not the owner'')),
          (\<exists>r \<in> set live. o_name r = lt_name lt, (CONFLICT, ''offer_exists'')),
          (\<exists>r \<in> set live. o_proof_address r = lt_proof_address lt, (CONFLICT, ''offer_ambiguous'')),
          (\<exists>r \<in> set (tb_offers (db w)). o_offer_id r = ev_id (lt_event lt), (CONFLICT, ''offer_exists''))])"

lemma run_lodge_terms_refusal:
  assumes io: "\<not> io_err (db w) 0"
  shows "refusal (fst (run (lodge_terms L cfg lt) w)) = first_failure
     [(lt_expiration lt \<le> unix_now w \<or>
         lt_expiration lt > wrap_i64 (unix_now w + cfg_transfer_max_offer_ttl cfg), (BAD_REQUEST, ''invalid offer'')),
      (owned (db w) (lt_name lt) \<noteq> Some (ev_pubkey (lt_event lt)), (FORBIDDEN, ''not the owner'')),
      (live_offer_for_name (lt_name lt) (unix_now w) (db w), (CONFLICT, ''offer_exists'')),
      (live_offer_binding (lt_proof_address lt) (unix_now w) (db w), (CONFLICT, ''offer_ambiguous'')),
      (\<exists>r \<in> set (tb_offers (db w)). o_offer_id r = ev_id (lt_event lt), (CONFLICT, ''offer_exists''))]"
  using io by (auto simp: lodge_terms_def Let_def db_query_def lookup_owned insert_offer_def list_ex_iff)

lemma run_lodge_refusal:
  assumes io: "\<not> io_err (db w) 0"
  shows "refusal (fst (run (lodge_offer L cfg hs body) w)) = first_failure (lodge_refusals L cfg hs body w)"
proof (cases "prologue L cfg ''transfer'' hs ''POST'' ''/api/v1/transfer/offer'' body w")
  case (Inl r)
  then show ?thesis
    using entry_refused [OF Inl]
    by (auto simp: run_lodge_prologue lodge_refusals_def Let_def first_failure_append)
next
  case (Inr kw)
  then obtain key w2 where
    pro: "prologue L cfg ''transfer'' hs ''POST'' ''/api/v1/transfer/offer'' body w = Inr (key, w2)"
    by (cases kw) simp
  note same = prologue_Inr(1,3) [OF pro]
  show ?thesis
  proof (cases "check_offer L cfg key body")
    case (Inl cm)
    then show ?thesis
      by (cases cm) (simp add: run_lodge_prologue pro lodge_checked_def lodge_refusals_def Let_def
          first_failure_append entry_passed [OF pro])
  next
    case checked: (Inr lt)
    have live: "live_offer_for_name (lt_name lt) (unix_now w) (db w) \<longleftrightarrow>
        (\<exists>r \<in> set (filter (offer_live (unix_now w)) (tb_offers (db w))). o_name r = lt_name lt)"
      "live_offer_binding (lt_proof_address lt) (unix_now w) (db w) \<longleftrightarrow>
        (\<exists>r \<in> set (filter (offer_live (unix_now w)) (tb_offers (db w))). o_proof_address r = lt_proof_address lt)"
      unfolding live_queries [OF io] by auto
    have io2: "\<not> io_err (db w2) 0" using io same by simp
    have "run (lodge_offer L cfg hs body) w = run (lodge_terms L cfg lt) w2"
      by (simp add: run_lodge_prologue pro lodge_checked_def checked)
    then show ?thesis
      using run_lodge_terms_refusal [OF io2, of L cfg lt, unfolded same live]
      by (simp add: lodge_refusals_def Let_def first_failure_append entry_passed [OF pro] checked)
  qed
qed

section \<open>Revoke\<close>

definition revoke_refusals :: "libs \<Rightarrow> config \<Rightarrow> string \<Rightarrow> headers \<Rightarrow> world \<Rightarrow> refusals" where
  "revoke_refusals L cfg i hs w =
     (let key = requester L cfg ''transfer'' hs ''DELETE'' (revoke_path i) [] w;
          found = get_offer i (db w); offer = the found
      in entry_refusals L cfg ''transfer'' hs ''DELETE'' (revoke_path i) [] w @
         [(found = None, (NOT_FOUND, ''not found'')),
          (key \<noteq> o_seller_pubkey offer, (FORBIDDEN, ''not the owner'')),
          (o_status offer = ''consumed'', (CONFLICT, ''offer_consumed''))])"

lemma run_revoke_refusal:
  "refusal (fst (run (revoke_offer L cfg i hs) w)) = first_failure (revoke_refusals L cfg i hs w) \<and>
   (if first_failure (revoke_refusals L cfg i hs w) = None
    then fst (run (revoke_offer L cfg i hs) w) = revoked_response i \<and>
      (\<exists>row w2. get_offer i (db w) = Some row \<and> o_status row \<noteq> ''consumed'' \<and>
         prologue L cfg ''transfer'' hs ''DELETE'' (revoke_path i) [] w = Inr (o_seller_pubkey row, w2))
    else db (snd (run (revoke_offer L cfg i hs) w)) = db w)"
proof (cases "prologue L cfg ''transfer'' hs ''DELETE'' (revoke_path i) [] w")
  case (Inl r)
  then show ?thesis
    using entry_refused [OF Inl] prologue_Inl(2) [of L cfg _ hs _ _ _ w "fst r" "snd r"]
    by (auto simp: run_revoke_prologue revoke_refusals_def Let_def first_failure_append)
next
  case (Inr kw)
  then obtain key w2 where
    pro: "prologue L cfg ''transfer'' hs ''DELETE'' (revoke_path i) [] w = Inr (key, w2)"
    by (cases kw) simp
  show ?thesis
    using prologue_Inr(1) [OF pro]
    by (cases "get_offer i (db w)")
       (auto simp: run_revoke_prologue pro revoke_owned_def db_query_def revoke_refusals_def Let_def
        first_failure_append entry_passed [OF pro])
qed

end
