(* ===== verification/Endpoints.thy ===== *)
theory Endpoints
  imports Refusal_Tables
begin

text \<open>
  What each endpoint promises when its request runs undisturbed: acceptance of an
  \<open>Authorization\<close> header, registering, releasing, the market for names. A run is a
  request served alone, as \<open>run\<close> executes it; the theorems of the root theory cover
  every interleaving.
\<close>

section \<open>Authorization\<close>

text \<open>
  C11. A request is accepted by \<open>verify_nip98\<close> exactly when its header carries, in the
  Nostr scheme, a base64 event of kind 27235 with a valid signature, at most five seconds
  ahead of the clock and at most the configured age behind it, whose last \<open>u\<close> tag is the
  URL of the endpoint up to trailing slashes, whose last \<open>method\<close> tag is the method up to
  case, and whose last \<open>payload\<close> tag is the hash of the body (without such a tag the body
  is empty). It then acts for the key of the event.
\<close>

theorem auth_accepted_iff:
  "verify_nip98 L now hs meth path body base max_age = Inr (key, i) \<longleftrightarrow>
     (\<exists>b64 raw e u m.
        header_str hs ''authorization'' = Some (''Nostr '' @ b64) \<and>
        base64_decode L (trim b64) = Some raw \<and> event_from_json L raw = Some e \<and>
        event_verify L e \<and> ev_kind e = 27235 \<and>
        -5 \<le> auth_age now e \<and> auth_age now e \<le> max_age \<and>
        last_value ''u'' (ev_tags e) = Some u \<and>
        trim_end_matches (CHR ''/'') u = trim_end_matches (CHR ''/'') (base @ path) \<and>
        last_value ''method'' (ev_tags e) = Some m \<and> eq_ignore_ascii_case m meth \<and>
        (case last_payload (ev_tags e) of
           Some h \<Rightarrow> eq_ignore_ascii_case h (hex_encode L (sha256_digest L body))
         | None \<Rightarrow> body = []) \<and>
        key = ev_pubkey e \<and> i = ev_id e)"
  unfolding verify_nip98_Inr carried_event_def verify_event_def event_binds_def http_auth_kind_def
  by (auto simp: bind_eq_Some_conv)

text \<open>
  C12. A token is good for one request only: if one header is accepted for two requests, at
  whatever times, the two have the same method up to case, the same path up to trailing
  slashes, and the same body, provided SHA-256 does not collide on the two bodies; and they
  act for the same key.
\<close>

theorem token_binds_request:
  assumes "verify_nip98 L now hs meth path body base max_age = Inr (key, i)"
    and "verify_nip98 L now' hs meth' path' body' base max_age' = Inr (key', i')"
    and "eq_ignore_ascii_case (hex_encode L (sha256_digest L body)) (hex_encode L (sha256_digest L body'))
      \<Longrightarrow> body = body'"
  shows "eq_ignore_ascii_case meth meth' \<and>
    trim_end_matches (CHR ''/'') (base @ path) = trim_end_matches (CHR ''/'') (base @ path') \<and>
    body = body' \<and> key = key' \<and> i = i'"
proof -
  obtain e where e: "carried_event L hs = Some e" "key = ev_pubkey e" "i = ev_id e"
    "event_binds L e meth (base @ path) body"
    using assms(1) by (auto simp: verify_nip98_Inr verify_event_def)
  moreover have "key' = ev_pubkey e \<and> i' = ev_id e \<and> event_binds L e meth' (base @ path') body'"
    using assms(2) e(1) by (auto simp: verify_nip98_Inr verify_event_def)
  ultimately show ?thesis
    using event_binds_body [of L e meth "base @ path" body meth' "base @ path'" body'] assms(3) by blast
qed

theorem token_binds_request_witness:
  "\<exists>now now'. now \<noteq> now' \<and>
     verify_nip98 demo_libs now (demo_headers 1) ''POST'' ''/api/v1/register'' (demo_body 1)
       ''https://goblin.st'' 60 = Inr (key_a, ''e1'') \<and>
     verify_nip98 demo_libs now' (demo_headers 1) ''POST'' ''/api/v1/register'' (demo_body 1)
       ''https://goblin.st'' 60 = Inr (key_a, ''e1'') \<and>
     eq_ignore_ascii_case ''POST'' ''POST''"
proof (intro exI conjI)
  show accepted: "verify_nip98 demo_libs 1000 (demo_headers 1) ''POST'' ''/api/v1/register'' (demo_body 1)
      ''https://goblin.st'' 60 = Inr (key_a, ''e1'')"
    "verify_nip98 demo_libs 1001 (demo_headers 1) ''POST'' ''/api/v1/register'' (demo_body 1)
      ''https://goblin.st'' 60 = Inr (key_a, ''e1'')"
    using verify_nip98_event [OF trans [OF demo_carried demo_tokens(1)]] demo_register_event
    by simp_all
  show "eq_ignore_ascii_case ''POST'' ''POST''"
    using token_binds_request [OF accepted] by simp
qed simp

section \<open>Registering and releasing\<close>

text \<open>
  C13. \<open>POST /api/v1/register\<close> answers 201 exactly when the limiter, the authorization and
  the replay set let the request through, the key of the event is the one the body names, is
  well formed and not cooling down, the lowercased name is valid and not reserved, nobody
  owns it and the key owns no name; the name is then owned by the key and nothing else about
  ownership changes. Every other answer leaves the ownership of all names as it was: the refusal
  of the first check in the table that fails, or 200 for a name the key owns already.
\<close>

theorem register_complete:
  assumes "db_inv (db w)" and "\<not> io_err (db w) 0"
  shows "refusal (fst (run (register L cfg hs body) w)) = first_failure (register_refusals L cfg hs body w) \<and>
    (first_failure (register_refusals L cfg hs body w) = None \<longrightarrow>
       fst (run (register L cfg hs body) w) =
         (let name = fst (the (requested L body)) in
          json_response (if owned (db w) name = None then CREATED else OK) (registered_body cfg name))) \<and>
    (status (fst (run (register L cfg hs body) w)) = CREATED \<longleftrightarrow>
      (\<exists>key w2 name. prologue L cfg ''reg'' hs ''POST'' ''/api/v1/register'' body w = Inr (key, w2) \<and>
         requested L body = Some (name, key) \<and> valid_pubkey_hex key \<and>
         valid_name name (cfg_name_min cfg) (cfg_name_max cfg) \<and>
         \<not> is_reserved name (cfg_extra_reserved cfg) \<and> \<not> cooling_down cfg key w2 \<and>
         owned (db w) name = None \<and> key \<notin> ran (owned (db w)))) \<and>
    owned (db (snd (run (register L cfg hs body) w))) =
      (if status (fst (run (register L cfg hs body) w)) = CREATED
       then (case requested L body of Some (name, key) \<Rightarrow> (owned (db w))(name \<mapsto> key))
       else owned (db w))"
    (is "?refused \<and> ?answered \<and> ?created \<and> ?effect")
proof (intro conjI)
  show ?refused ?answered using run_register_refusal [OF assms, of L cfg hs body] by simp_all
  show ?created
    unfolding register_created [OF assms] register_ok_def name_allowed_def by blast
  show ?effect
  proof (cases "prologue L cfg ''reg'' hs ''POST'' ''/api/v1/register'' body w")
    case (Inl r)
    then show ?thesis
      using prologue_Inl [of L cfg "''reg''" hs "''POST''" "''/api/v1/register''" body w "fst r" "snd r"]
      by (auto simp: run_register)
  next
    case (Inr kw)
    then obtain key w2 where
      pro: "prologue L cfg ''reg'' hs ''POST'' ''/api/v1/register'' body w = Inr (key, w2)"
      by (cases kw) simp
    show ?thesis
    proof (cases "\<exists>name. register_ok L cfg body key name w2")
      case True
      then obtain name where ok: "register_ok L cfg body key name w2" by blast
      then have "requested L body = Some (name, key)" by (simp add: register_ok_def)
      then show ?thesis
        using run_register_db [OF pro assms, of name] ok by simp
    next
      case False
      then show ?thesis using run_register_db [OF pro assms, of undefined] by simp
    qed
  qed
qed

lemma demo_requested: "requested demo_libs (demo_body 1) = Some (''alice'', key_a)"
proof -
  have "to_lowercase (\<lambda>s. s) key_a = key_a" by (rule valid_pubkey_hex_lowercase) simp
  moreover have "to_lowercase (\<lambda>s. s) ''Alice'' = ''alice''" by code_simp
  ultimately show ?thesis by (simp add: requested_def demo_libs_def demo_body_def)
qed

lemma not_cooling_down: "Mapping.lookup (rate w) (bucket_key ''namechange'' key) = None \<Longrightarrow> \<not> cooling_down cfg key w"
  by (simp add: cooling_down_def)

theorem register_complete_witness:
  "status (fst (run (register demo_libs demo_cfg (demo_headers 1) (demo_body 1)) (demo_world [] []))) = CREATED \<and>
   owned (db (snd (run (register demo_libs demo_cfg (demo_headers 1) (demo_body 1)) (demo_world [] [])))) =
     [''alice'' \<mapsto> key_a]"
proof -
  let ?w = "demo_world [] []"
  have inv: "db_inv (db ?w)" and io: "\<not> io_err (db ?w) 0" by (simp_all add: demo_inv)
  obtain w2 where pro: "prologue demo_libs demo_cfg ''reg'' (demo_headers 1) ''POST''
      ''/api/v1/register'' (demo_body 1) ?w = Inr (key_a, w2)"
    using demo_logins(1) [OF demo_open_start] by blast
  have "\<not> cooling_down demo_cfg key_a w2"
    by (rule not_cooling_down)
       (simp add: prologue_Inr(5) [OF pro] allow_write_def allow_other_key bucket_key_def)
  moreover have "valid_name ''alice'' 3 20" "\<not> is_reserved ''alice'' (cfg_extra_reserved demo_cfg)"
    "cfg_name_min demo_cfg = 3" "cfg_name_max demo_cfg = 20"
    using demo_name_allowed by (simp_all add: name_allowed_def demo_valid_alice) (simp_all add: demo_cfg_def)
  ultimately show ?thesis
    using register_complete [OF inv io, of demo_libs demo_cfg "demo_headers 1" "demo_body 1"] pro
    by (simp add: demo_requested del: One_nat_def)
qed

text \<open>
  C14. \<open>DELETE /api/v1/register/{name}\<close> answers 200 exactly when the request gets through
  and its key owns the lowercased name; the name is then free, every other name keeps its
  owner, and any other answer changes no ownership and is the refusal of the first check in the
  table that fails.
\<close>

theorem release_complete:
  assumes "db_inv (db w)" and "\<not> io_err (db w) 0"
  shows "refusal (fst (run (unregister L cfg n hs) w)) = first_failure (release_refusals L cfg n hs w) \<and>
    (status (fst (run (unregister L cfg n hs) w)) = OK \<longleftrightarrow>
      (\<exists>key w2. prologue L cfg ''unreg'' hs ''DELETE'' (unregister_path (unregister_name L n)) [] w
          = Inr (key, w2) \<and> owned (db w) (unregister_name L n) = Some key)) \<and>
    owned (db (snd (run (unregister L cfg n hs) w))) =
      (if status (fst (run (unregister L cfg n hs) w)) = OK
       then (owned (db w))(unregister_name L n := None) else owned (db w))"
proof (cases "prologue L cfg ''unreg'' hs ''DELETE'' (unregister_path (unregister_name L n)) [] w")
  case (Inl r)
  then show ?thesis
    using prologue_Inl [of L cfg "''unreg''" hs "''DELETE''" "unregister_path (unregister_name L n)"
        "[]" w "fst r" "snd r"] run_unregister_refusal [OF assms(2), of L cfg n hs]
    by (auto simp: run_unregister_prologue)
next
  case (Inr kw)
  then obtain key w2 where
    pro: "prologue L cfg ''unreg'' hs ''DELETE'' (unregister_path (unregister_name L n)) [] w = Inr (key, w2)"
    by (cases kw) simp
  show ?thesis
    using run_unregister(1,2) [OF assms pro] pro run_unregister_refusal [OF assms(2), of L cfg n hs] by (simp split: option.split)
qed

theorem release_complete_witness:
  "owned (db (snd (run (unregister demo_libs demo_cfg ''alice'' (demo_headers 2)) (demo_world [alice_row] [])))) =
   Map.empty"
proof -
  let ?w = "demo_world [alice_row] []"
  have inv: "db_inv (db ?w)" and io: "\<not> io_err (db ?w) 0" by (simp_all add: demo_inv)
  have name: "unregister_name demo_libs ''alice'' = ''alice''"
    unfolding unregister_name_def by (rule valid_name_lowercase [OF demo_valid_alice])
  obtain w2 where "prologue demo_libs demo_cfg ''unreg'' (demo_headers 2) ''DELETE''
      (unregister_path ''alice'') [] ?w = Inr (key_a, w2)"
    using demo_logins(2) [OF demo_open_start, of "''unreg''"] by (auto simp: unregister_path_def)
  then show ?thesis
    using release_complete [OF inv io, of demo_libs demo_cfg "''alice''" "demo_headers 2"]
    by (simp add: name)
qed





section \<open>Claiming\<close>

lemma get_offer_member: "get_offer i c = Some row \<Longrightarrow> row \<in> set (tb_offers c) \<and> o_offer_id row = i"
  by (auto simp: get_offer_row query_row_def split: if_splits dest!: find_SomeD)

lemma settled_status:
  assumes "db_inv (db w)" and "row \<in> set (tb_offers (db w))"
  shows "o_status (settled row w) \<in> offer_statuses"
proof -
  have known: "o_status r \<in> offer_statuses" if "db_inv c" "r \<in> set (tb_offers c)" for c r
    using that by (auto simp: db_inv_def offers_inv_def list_all_iff)
  show ?thesis
    using known [OF assms] known [OF run_settle_expiry_db_inv [OF assms(1), of row "unix_now w"]]
    by (auto simp: settled_def settle_expiry_def db_query_def dest!: get_offer_member split: option.split)
qed

lemma settled_live:
  assumes "db_inv (db w)" and "\<And>k. \<not> io_err (db w) k"
    and "claim_asked L cfg hs body w key row pf"
  shows "settled row w = (if o_status row = ''live'' \<and> o_expiration row < unix_now w
    then row\<lparr>o_status := ''expired'', o_end_height := observed_tip w, o_state_changed_at := Some (unix_now w)\<rparr>
    else row)"
proof -
  have "row \<in> set (tb_offers (db w))"
    using assms(3) by (auto simp: claim_asked_def dest: get_offer_member)
  then show ?thesis
    unfolding settled_def
    using run_settle_expiry_expired [OF assms(1,2), of row "unix_now w"]
      run_settle_expiry_live [of row "unix_now w" w]
    by (cases "o_status row = ''live'' \<and> o_expiration row < unix_now w") (simp_all only: if_True if_False, auto)
qed

text \<open>
  C16. An undisturbed claim of an offer that is not consumed (settled, that is expired by the
  claim itself if its time is up) answers 201 exactly when the claimant is the buyer, the
  seller still owns the name, both signatures of the proof verify, it pays the offer's price
  to the offer's address, the node reports its kernel found and deep enough, a dead offer
  died within the grace window at a known height not below the kernel's, neither the kernel
  excess nor the offer was used before, and the buyer owns no name. It then passes the name
  from seller to buyer and records one transfer; any other answer does neither.
\<close>

theorem claim_complete:
  assumes "db_inv (db w)" and "\<And>k. \<not> io_err (db w) k"
    and "claim_asked L cfg hs body w key row pf"
    and "settled row w = offer" and "o_status offer \<noteq> ''consumed''"
  shows "(status (fst (run (claim L cfg hs body) w)) = CREATED \<longleftrightarrow>
      key = o_buyer_pubkey offer \<and> owned (db w) (o_name offer) = Some (o_seller_pubkey offer) \<and>
      verify_signatures L pf \<and>
      normalize_grin_address L (pp_recipient_address pf) = o_proof_address offer \<and>
      0 \<le> o_price_nanogrin offer \<and> pp_amount pf = i64_as_u64 (o_price_nanogrin offer) \<and>
      (\<exists>krn. observed_kernel (pp_excess_hex pf) w = Inr krn \<and> k_found krn \<and>
         cfg_transfer_min_conf cfg \<le> k_confirmations krn \<and>
         (o_status offer = ''live'' \<or>
           wrap_i64 (unix_now w - (case o_state_changed_at offer of Some t \<Rightarrow> t | None \<Rightarrow> unix_now w))
             \<le> cfg_transfer_claim_grace cfg \<and>
           (\<exists>end_h h. o_end_height offer = Some end_h \<and> k_height krn = Some h \<and> u64_as_i64 h \<le> end_h))) \<and>
      (\<forall>t \<in> set (tb_transfers (db w)).
         t_kernel_excess t \<noteq> pp_excess_hex pf \<and> t_offer_id t \<noteq> o_offer_id offer) \<and>
      o_buyer_pubkey offer \<notin> ran (owned (db w))) \<and>
    (if status (fst (run (claim L cfg hs body) w)) = CREATED
     then owned (db (snd (run (claim L cfg hs body) w))) =
            (owned (db w))(o_name offer \<mapsto> o_buyer_pubkey offer) \<and>
          (\<exists>h. tb_transfers (db (snd (run (claim L cfg hs body) w))) =
             tb_transfers (db w) @ [transfer_record offer (pp_excess_hex pf) h (unix_now w)])
     else owned (db (snd (run (claim L cfg hs body) w))) = owned (db w) \<and>
          tb_transfers (db (snd (run (claim L cfg hs body) w))) = tb_transfers (db w))"
    (is "(?created \<longleftrightarrow> ?cond) \<and> ?effect")
proof -
  have row: "row \<in> set (tb_offers (db w))"
    using assms(3) by (auto simp: claim_asked_def dest: get_offer_member)
  have st: "o_status offer \<in> offer_statuses"
    using settled_status [OF assms(1) row] assms(4) by simp
  note run = run_claim [OF assms(1-3), unfolded assms(4), OF assms(5)]
  have created: "?created \<longleftrightarrow> ?cond"
    unfolding run(1) claim_ok_iff [OF st assms(5)] by auto
  have ?effect
  proof (cases "\<exists>kh. claim_ok L cfg key offer pf (unix_now w) w kh")
    case True
    then obtain kh where ok: "claim_ok L cfg key offer pf (unix_now w) w kh" by blast
    have "?created" using run(1) ok by blast
    then show ?thesis using run_claim_ok(2,3) [OF assms ok] by auto
  next
    case False
    then show ?thesis using run(1) by (simp add: run(3) [OF False] run_settle_expiry_owned)
  qed
  with created show ?thesis by blast
qed

lemma demo_settled_row [simp]: "unix_now w = 1000 \<Longrightarrow> settled demo_row w = demo_row"
  by (simp add: settled_def)

theorem claim_complete_witness:
  "status (fst (run (claim demo_libs demo_cfg (demo_headers 4) (demo_body 4)) (demo_world [alice_row] [demo_row])))
     = CREATED \<and>
   owned (db (snd (run (claim demo_libs demo_cfg (demo_headers 4) (demo_body 4)) (demo_world [alice_row] [demo_row]))))
     = [''alice'' \<mapsto> key_b]"
proof -
  let ?w = "demo_world [alice_row] [demo_row]"
  have inv: "db_inv (db ?w)" and io: "\<And>k. \<not> io_err (db ?w) k" by (simp_all add: demo_inv)
  have asked: "claim_asked demo_libs demo_cfg (demo_headers 4) (demo_body 4) ?w key_b demo_row demo_proof"
    by (rule demo_claim_asked) simp_all
  have st: "settled demo_row ?w = demo_row" "o_status demo_row \<noteq> ''consumed''" by simp_all
  note claim = claim_complete [OF inv io asked st]
  have created: "status (fst (run (claim demo_libs demo_cfg (demo_headers 4) (demo_body 4)) ?w)) = CREATED"
    using demo_claimed(1) [of ?w] by (simp add: demo_served del: One_nat_def)
  then show ?thesis using claim by simp
qed

text \<open>
  C19. Retrying a claim that succeeded is harmless: once the offer is consumed and its
  transfer recorded, the same proof is answered 200 with the recorded name and buyer, any
  other proof 409, whoever asks, and the database stays as it is.
\<close>

theorem claim_retry:
  assumes "claim_asked L cfg hs body w key row pf"
    and "o_status row = ''consumed''" and "\<not> io_err (db w) 0"
    and "distinct (map t_offer_id (tb_transfers (db w)))"
    and "t \<in> set (tb_transfers (db w))" and "t_offer_id t = o_offer_id row"
  shows "fst (run (claim L cfg hs body) w) =
      (if t_kernel_excess t = pp_excess_hex pf
       then json_response OK (claim_success (t_name t) (cfg_domain cfg) (t_buyer_pubkey t))
       else err CONFLICT ''offer_consumed'') \<and>
    db (snd (run (claim L cfg hs body) w)) = db w"
proof -
  obtain w2 i where ask: "prologue L cfg ''transfer'' hs ''POST'' ''/api/v1/transfer/claim'' body w
      = Inr (key, w2)" "claim_request L body = Inr (i, pf)" "get_offer i (db w) = Some row"
    using assms(1) by (auto simp: claim_asked_def)
  note same = prologue_Inr(1-3) [OF ask(1)]
  have "List.find (\<lambda>r. t_offer_id r = i) (tb_transfers (db w)) = Some t"
    using assms(4-6) get_offer_member [OF ask(3)]
    by (intro find_eq_SomeI) (auto dest: distinct_map_eqD)
  then have "transfer_for_offer i (db w) = Some (t_kernel_excess t, t_name t, t_buyer_pubkey t)"
    using assms(3) by (simp add: transfer_for_offer_def query_row_def)
  then show ?thesis
    using ask same assms(2)
    by (simp add: run_claim_prologue claim_authenticated_def db_query_def run_settle_expiry_live
        claim_consumed_def)
qed

theorem claim_retry_witness:
  "fst (run (claim demo_libs demo_cfg (demo_headers 4) (demo_body 4)) ((demo_world [] [])\<lparr>db := sold_conn\<rparr>)) =
   json_response OK (claim_success ''alice'' ''goblin.st'' key_b)"
proof -
  let ?w = "(demo_world [] [])\<lparr>db := sold_conn\<rparr>"
  let ?row = "demo_row\<lparr>o_status := ''consumed''\<rparr>"
  let ?t = "transfer_record demo_row excess_0 (Some 500) 1000"
  have "unix_now ?w = unix_now (demo_world [] [])" by (rule unix_now_cong) simp
  then have opened: "demo_open ''transfer'' ''e4'' ?w"
    using demo_open_start [of "''transfer''" "''e4''" "[]" "[]"]
    by (simp add: demo_open_def demo_unused_def hits_of_def)
  have asked: "claim_asked demo_libs demo_cfg (demo_headers 4) (demo_body 4) ?w key_b ?row demo_proof"
    by (rule demo_claim_asked [OF opened]) (simp add: sold_conn_def get_offer_row query_row_def)
  have t: "?t \<in> set (tb_transfers (db ?w))" "t_offer_id ?t = o_offer_id ?row"
    "distinct (map t_offer_id (tb_transfers (db ?w)))"
    by (simp_all add: sold_conn_def transfer_record_def)
  show ?thesis
    using claim_retry [OF asked _ _ t(3,1,2)]
    by (simp add: sold_conn_def) (simp add: transfer_record_def demo_cfg_def)
qed

text \<open>
  C20. An offer whose time is up is expired by the first request that reads it, with the
  chain tip of that moment as its end height; and this fails closed: if the node's tip is
  not known then, the claim that comes too late is answered 410, even with a perfect proof,
  and changes no ownership.
\<close>

theorem expiry_fails_closed:
  assumes "db_inv (db w)" and "\<And>k. \<not> io_err (db w) k"
    and "claim_asked L cfg hs body w key row pf"
    and "o_status row = ''live''" and "o_expiration row < unix_now w"
  shows "settled row w = row\<lparr>o_status := ''expired'', o_end_height := observed_tip w,
      o_state_changed_at := Some (unix_now w)\<rparr> \<and>
    (observed_tip w = None \<longrightarrow>
      status (fst (run (claim L cfg hs body) w)) = GONE \<and>
      owned (db (snd (run (claim L cfg hs body) w))) = owned (db w))"
proof -
  let ?row = "row\<lparr>o_status := ''expired'', o_end_height := observed_tip w,
      o_state_changed_at := Some (unix_now w)\<rparr>"
  have st: "settled row w = ?row"
    using settled_live [OF assms(1-3)] assms(4,5) by simp
  have "status (fst (run (claim L cfg hs body) w)) = GONE \<and>
      owned (db (snd (run (claim L cfg hs body) w))) = owned (db w)" if none: "observed_tip w = None"
  proof -
    obtain w2 i where ask: "prologue L cfg ''transfer'' hs ''POST'' ''/api/v1/transfer/claim'' body w
        = Inr (key, w2)" "claim_request L body = Inr (i, pf)" "get_offer i (db w) = Some row"
      using assms(3) by (auto simp: claim_asked_def)
    note same = prologue_Inr(1-3) [OF ask(1)]
    have "fst (run (settle_expiry row (unix_now w)) w2) = ?row"
      using run_settle_expiry_cong(1) [OF same(1,2), of row "unix_now w"] st by (simp add: settled_def)
    then show ?thesis
      using ask same none
      by (simp add: run_claim_prologue claim_authenticated_def db_query_def claim_offer_def
          death_gate_def Let_def case_prod_beta run_settle_expiry_owned)
  qed
  with st show ?thesis by blast
qed

theorem expiry_fails_closed_witness:
  "status (fst (run (claim demo_libs demo_cfg (demo_headers 4) (demo_body 4))
     ((demo_world [alice_row] [demo_row\<lparr>o_expiration := 999\<rparr>])
        \<lparr>node := Some (test_chain demo_libs (fail_tip True (test_source_new 519)))\<rparr>))) = GONE"
proof -
  let ?row = "demo_row\<lparr>o_expiration := 999\<rparr>"
  let ?w = "(demo_world [alice_row] [?row])
        \<lparr>node := Some (test_chain demo_libs (fail_tip True (test_source_new 519)))\<rparr>"
  have inv: "db_inv (db ?w)" and io: "\<And>k. \<not> io_err (db ?w) k"
    using demo_inv(3) by (simp_all add: db_inv_def offers_inv_def consumed_recorded_def)
  have "unix_now ?w = unix_now (demo_world [alice_row] [?row])" by (rule unix_now_cong) simp
  then have now: "unix_now ?w = 1000" by simp
  then have opened: "demo_open ''transfer'' ''e4'' ?w"
    using demo_open_start [of "''transfer''" "''e4''" "[alice_row]" "[?row]"]
    by (simp add: demo_open_def demo_unused_def hits_of_def)
  have asked: "claim_asked demo_libs demo_cfg (demo_headers 4) (demo_body 4) ?w key_b ?row demo_proof"
    by (rule demo_claim_asked [OF opened]) (simp add: get_offer_row query_row_def)
  have "observed_tip ?w = None" by (simp add: observed_tip_def test_chain_def fail_tip_def)
  then show ?thesis using expiry_fails_closed [OF inv io asked] by (simp add: now)
qed

section \<open>Offers\<close>

text \<open>The value of the last tag with this key, if that tag has one.\<close>

definition last_of :: "string \<Rightarrow> string list list \<Rightarrow> string option" where
  "last_of key tags = Option.bind (List.find (\<lambda>p. p \<noteq> [] \<and> hd p = key) (rev tags)) second"

lemma last_of_simps [simp]:
  "last_of key [] = None"
  "last_of key (tags @ [p]) = (if p \<noteq> [] \<and> hd p = key then second p else last_of key tags)"
  by (simp_all add: last_of_def)

lemma fold_offer_tag:
  "fold offer_tag tags \<lparr>tv_name = None, tv_domain = None, tv_buyer = None, tv_price = None,
       tv_proof_address = None, tv_expiration = None\<rparr> =
   \<lparr>tv_name = last_of ''name'' tags, tv_domain = last_of ''domain'' tags,
    tv_buyer = last_of ''p'' tags, tv_price = last_of ''price'' tags,
    tv_proof_address = last_of ''proof_address'' tags,
    tv_expiration = last_of ''expiration'' tags\<rparr>"
proof (induction tags rule: rev_induct)
  case (snoc p tags)
  then show ?case by (cases p) (simp_all add: offer_tag_def Let_def)
qed simp

text \<open>
  The six terms of an offer are those of the last tag of each kind: the loop over the
  tags finds the offer's name, domain, buyer, price, address and expiration exactly when the
  last tag of each of the six kinds has a value, and then returns these values. A later tag
  of a kind without a value makes the offer malformed.
\<close>

lemma offer_terms_are_last_tags:
  "extract_offer_tags e = Some \<lparr>ot_name = n, ot_domain = d, ot_buyer = b, ot_price = p,
       ot_proof_address = a, ot_expiration = x\<rparr> \<longleftrightarrow>
     last_of ''name'' (ev_tags e) = Some n \<and> last_of ''domain'' (ev_tags e) = Some d \<and>
     last_of ''p'' (ev_tags e) = Some b \<and> last_of ''price'' (ev_tags e) = Some p \<and>
     last_of ''proof_address'' (ev_tags e) = Some a \<and> last_of ''expiration'' (ev_tags e) = Some x"
  unfolding extract_offer_tags_def fold_offer_tag Let_def by (auto simp: bind_eq_Some_conv)

lemma run_lodge_not_created:
  assumes "\<nexists>lt. lodge_asked L cfg hs body w lt"
  shows "status (fst (run (lodge_offer L cfg hs body) w)) \<noteq> CREATED"
proof (cases "prologue L cfg ''transfer'' hs ''POST'' ''/api/v1/transfer/offer'' body w")
  case (Inl r)
  then show ?thesis
    using prologue_Inl(1) [of L cfg "''transfer''" hs "''POST''" "''/api/v1/transfer/offer''" body w
        "fst r" "snd r"] by (auto simp: run_lodge_prologue)
next
  case (Inr kw)
  obtain key w2 where kw: "kw = (key, w2)" by (cases kw)
  have "isl (check_offer L cfg key body)"
    using assms Inr kw by (cases "check_offer L cfg key body") (auto simp: lodge_asked_def)
  then obtain c m where refused: "check_offer L cfg key body = Inl (c, m)"
    by (cases "check_offer L cfg key body") auto
  then have "c \<in> {BAD_REQUEST, UNAUTHORIZED}"
    by (auto simp: check_offer_def Let_def invalid_offer_def split: option.split_asm if_split_asm)
  then show ?thesis
    using Inr kw refused by (auto simp: run_lodge_prologue lodge_checked_def)
qed

text \<open>
  C21. \<open>POST /api/v1/transfer/offer\<close> answers 201 exactly when the request gets through,
  its offer event passes the checks for the key that signed the request, its expiration lies
  within the configured time from now, the seller owns the name, no live offer is for the
  name or the payment address, and the offer id is new. The one row it then adds is that of
  the event's terms; any other answer leaves the database as it is and is the refusal of the first
  check in the table that fails.
\<close>

theorem lodge_complete:
  assumes "\<not> io_err (db w) 0"
  shows "refusal (fst (run (lodge_offer L cfg hs body) w)) = first_failure (lodge_refusals L cfg hs body w) \<and>
    (status (fst (run (lodge_offer L cfg hs body) w)) = CREATED \<longleftrightarrow>
      (\<exists>lt. lodge_asked L cfg hs body w lt \<and>
         unix_now w < lt_expiration lt \<and>
         lt_expiration lt \<le> wrap_i64 (unix_now w + cfg_transfer_max_offer_ttl cfg) \<and>
         owned (db w) (lt_name lt) = Some (ev_pubkey (lt_event lt)) \<and>
         (\<forall>r \<in> set (tb_offers (db w)). o_offer_id r \<noteq> ev_id (lt_event lt) \<and>
            (o_status r = ''live'' \<and> unix_now w \<le> o_expiration r \<longrightarrow>
               o_name r \<noteq> lt_name lt \<and> o_proof_address r \<noteq> lt_proof_address lt)))) \<and>
    (if status (fst (run (lodge_offer L cfg hs body) w)) = CREATED
     then \<exists>lt. lodge_asked L cfg hs body w lt \<and> db (snd (run (lodge_offer L cfg hs body) w)) =
            (db w)\<lparr>tb_offers := tb_offers (db w) @ [lodged_row L lt (unix_now w)]\<rparr>
     else db (snd (run (lodge_offer L cfg hs body) w)) = db w)"
    (is "?refused \<and> (?created \<longleftrightarrow> (\<exists>lt. ?asked lt \<and> ?cond lt)) \<and> ?effect")
proof -
  have ok: "lodge_ok cfg lt w \<longleftrightarrow> ?cond lt" for lt
    unfolding lodge_ok_def offer_live_def by blast
  have "(?created \<longleftrightarrow> (\<exists>lt. ?asked lt \<and> ?cond lt)) \<and> ?effect"
  proof (cases "\<exists>lt. ?asked lt")
    case True
    then obtain lt where lt: "?asked lt" by blast
    have only: "lt' = lt" if "?asked lt'" for lt'
      using that lt by (auto simp: lodge_asked_def)
    have created: "?created \<longleftrightarrow> ?cond lt" using run_lodge(1) [OF assms lt] unfolding ok .
    have lodged: "?created \<Longrightarrow> db (snd (run (lodge_offer L cfg hs body) w)) =
        (db w)\<lparr>tb_offers := tb_offers (db w) @ [lodged_row L lt (unix_now w)]\<rparr>"
      and refused: "\<not> ?created \<Longrightarrow> db (snd (run (lodge_offer L cfg hs body) w)) = db w"
      using run_lodge [OF assms lt] by simp_all
    have "?created \<longleftrightarrow> (\<exists>lt. ?asked lt \<and> ?cond lt)" using created lt only by blast
    moreover have ?effect
    proof (cases ?created)
      case True
      then show ?thesis unfolding if_P [OF True] using lodged [OF True] lt by blast
    next
      case False
      then show ?thesis unfolding if_not_P [OF False] by (rule refused)
    qed
    ultimately show ?thesis by blast
  next
    case False
    then show ?thesis using run_lodge_refused [OF False] run_lodge_not_created [OF False] by auto
  qed
  then show ?thesis by (rule conjI [OF run_lodge_refusal [OF assms]])
qed

lemma demo_lodge_asked:
  "demo_open ''transfer'' ''e3'' w \<Longrightarrow> lodge_asked demo_libs demo_cfg (demo_headers 3) (demo_body 3) w demo_terms"
  unfolding lodge_asked_def using demo_logins(3) demo_check(1) by blast

theorem lodge_complete_witness:
  "db (snd (run (lodge_offer demo_libs demo_cfg (demo_headers 3) (demo_body 3)) (demo_world [alice_row] []))) =
   demo_conn [alice_row] [demo_row]"
proof -
  let ?w = "demo_world [alice_row] []"
  have io: "\<not> io_err (db ?w) 0" by simp
  have asked: "lodge_asked demo_libs demo_cfg (demo_headers 3) (demo_body 3) ?w demo_terms"
    by (rule demo_lodge_asked) simp
  then have only: "lt = demo_terms"
    if "lodge_asked demo_libs demo_cfg (demo_headers 3) (demo_body 3) ?w lt" for lt
    using that by (auto simp: lodge_asked_def)
  have terms: "lt_name demo_terms = ''alice''" "ev_pubkey (lt_event demo_terms) = key_a"
    "lt_expiration demo_terms = 2000" "cfg_transfer_max_offer_ttl demo_cfg = 2592000"
    by (simp_all add: demo_terms_def demo_offer_def demo_cfg_def)
  have "status (fst (run (lodge_offer demo_libs demo_cfg (demo_headers 3) (demo_body 3)) ?w)) = CREATED"
    using lodge_complete [OF io, of demo_libs demo_cfg "demo_headers 3" "demo_body 3"] asked
    by (auto simp: terms wrap_i64_id is_i64_def)
  then show ?thesis
    using lodge_complete [OF io, of demo_libs demo_cfg "demo_headers 3" "demo_body 3"]
    by (auto simp: demo_row_lodged dest!: only) (simp add: demo_conn_def)
qed

text \<open>
  C22. As long as offers are lodged one at a time, no two live offers are for one name or
  share one payment address, now or at any later time: lodging keeps this, whatever the
  request.
\<close>

theorem lodge_keeps_live_unique:
  assumes "\<not> io_err (db w) 0" and "live_unique (unix_now w) (tb_offers (db w))" and "unix_now w \<le> later"
  shows "live_unique later (tb_offers (db (snd (run (lodge_offer L cfg hs body) w))))"
  by (rule live_unique_later [OF lodge_live_unique [OF assms(1,2)] assms(3)])

theorem lodge_keeps_live_unique_witness:
  "live_unique 1500 (tb_offers (db (snd (run (lodge_offer demo_libs demo_cfg (demo_headers 3) (demo_body 3))
     (demo_world [alice_row] [])))))"
  by (rule lodge_keeps_live_unique) (simp_all add: live_unique_def)

text \<open>
  C23. \<open>DELETE /api/v1/transfer/offer/{id}\<close> is refused by the first check of its table that
  fails: the entry, an unknown offer (404), a key other than the seller's (403), a consumed
  offer (409). Otherwise it is answered 200: a live offer records the chain tip and the time, an
  expired one keeps the death record it has, one already revoked stays as it is. No other offer
  and no other table changes, and a refused request changes nothing.
\<close>

theorem revoke_complete:
  assumes "db_inv (db w)" and "\<not> io_err (db w) 0"
  shows "refusal (fst (run (revoke_offer L cfg i hs) w)) = first_failure (revoke_refusals L cfg i hs w) \<and>
    (if first_failure (revoke_refusals L cfg i hs w) = None
     then fst (run (revoke_offer L cfg i hs) w) = revoked_response i \<and>
       db (snd (run (revoke_offer L cfg i hs) w)) =
       (db w)\<lparr>tb_offers := map (\<lambda>r.
         if o_offer_id r \<noteq> i then r
         else if o_status r = ''live''
         then r\<lparr>o_status := ''revoked'', o_end_height := observed_tip w,
                o_state_changed_at := Some (unix_now w)\<rparr>
         else if o_status r = ''expired'' then r\<lparr>o_status := ''revoked''\<rparr>
         else r) (tb_offers (db w))\<rparr>
     else db (snd (run (revoke_offer L cfg i hs) w)) = db w)"
proof (cases "first_failure (revoke_refusals L cfg i hs w)")
  case (Some answer)
  then show ?thesis using run_revoke_refusal [of L cfg i hs w] by simp
next
  case None
  then obtain row w2 where found: "get_offer i (db w) = Some row" "o_status row \<noteq> ''consumed''"
    and pro: "prologue L cfg ''transfer'' hs ''DELETE'' (revoke_path i) [] w = Inr (o_seller_pubkey row, w2)"
    using run_revoke_refusal [of L cfg i hs w] by (simp del: not_None_eq) blast
  have row: "row \<in> set (tb_offers (db w))" "o_offer_id row = i"
    using get_offer_member [OF found(1)] by simp_all
  have only: "r = row" if "r \<in> set (tb_offers (db w))" "o_offer_id r = i" for r
    using assms(1) row that by (auto simp: db_inv_def offers_inv_def dest: distinct_map_eqD)
  have st: "o_status row \<in> offer_statuses"
    using assms(1) row by (auto simp: db_inv_def offers_inv_def list_all_iff)
  have keep: "o_status row = ''revoked'' \<Longrightarrow> row\<lparr>o_status := ''revoked''\<rparr> = row" by (cases row) simp
  have "update_rows (\<lambda>r. o_offer_id r = i) (revoked_row (unix_now w) (observed_tip w)) (tb_offers (db w)) =
    map (\<lambda>r. if o_offer_id r \<noteq> i then r
      else if o_status r = ''live''
      then r\<lparr>o_status := ''revoked'', o_end_height := observed_tip w, o_state_changed_at := Some (unix_now w)\<rparr>
      else if o_status r = ''expired'' then r\<lparr>o_status := ''revoked''\<rparr>
      else r) (tb_offers (db w))"
    using st keep found(2)
    by (auto simp: update_rows_def revoked_row_def offer_statuses_def dest!: only intro!: map_cong)
  then show ?thesis
    using run_revoke(2) [OF assms row(1), unfolded row(2), OF pro] found(2) None
      run_revoke_refusal [of L cfg i hs w] by simp
qed

theorem revoke_complete_witness:
  "db (snd (run (revoke_offer demo_libs demo_cfg offer_c (demo_headers 5)) (demo_world [alice_row] [demo_row]))) =
   demo_conn [alice_row] [demo_row\<lparr>o_status := ''revoked'', o_end_height := Some 519,
     o_state_changed_at := Some 1000\<rparr>]"
proof -
  let ?w = "demo_world [alice_row] [demo_row]"
  have inv: "db_inv (db ?w)" and io: "\<not> io_err (db ?w) 0" by (simp_all add: demo_inv)
  obtain w2 where pro: "prologue demo_libs demo_cfg ''transfer'' (demo_headers 5) ''DELETE''
      (revoke_path offer_c) [] ?w = Inr (key_a, w2)"
    using demo_logins(5) [OF demo_open_start, of "''transfer''"] by auto
  have "observed_tip ?w = Some 519"
    by (simp add: observed_tip_def demo_node_def test_chain_def set_kernel_def test_source_new_def
        u64_as_i64_def)
  moreover have "first_failure (revoke_refusals demo_libs demo_cfg offer_c (demo_headers 5) ?w) = None"
    using entry_passed [OF pro] by (simp add: revoke_refusals_def Let_def first_failure_append)
  ultimately show ?thesis
    using revoke_complete [OF inv io, of demo_libs demo_cfg offer_c "demo_headers 5"]
    by simp (simp add: demo_conn_def)
qed

section \<open>A price that wraps\<close>




section \<open>Routes and reads\<close>

text \<open>
  With transfers off the market does not exist: every request to one of its paths is
  answered 404 and leaves the state untouched, and the eight other paths answer as they do
  with transfers on.
\<close>

lemma transfers_off:
  assumes "\<not> cfg_allow_transfers cfg"
  shows "(if rq_template q \<in> {''/api/v1/transfer/offer'', ''/api/v1/transfer/offer/{offer_id}'',
        ''/api/v1/transfer/claim''}
     then run (serve L cfg q) w = (plain_status NOT_FOUND, w)
     else serve L cfg q =
       (case map_of (base_routes L cfg @ transfer_routes L cfg) (rq_template q) of
          None \<Rightarrow> Ret (plain_status NOT_FOUND)
        | Some methods \<Rightarrow>
            (case map_of methods (rq_method q) of
               None \<Rightarrow> Ret (plain_status 405)
             | Some h \<Rightarrow> h q)))"
  using assms by (auto simp: serve_def routes_def base_routes_def transfer_routes_def)

text \<open>
  C24. The public reads tell what the registry holds, for every name of the accepted form
  and every key of the accepted form: the availability check, the profile, the NIP-05 lookup
  and the reverse lookup answer by the owner map, and none of them changes it.
\<close>

theorem reads_agree:
  assumes "db_inv (db w)" and "\<not> io_err (db w) 0" and "fst (allow_read cfg (client_ip hs) w)"
    and "valid_name name (cfg_name_min cfg) (cfg_name_max cfg)" and "valid_pubkey_hex key"
  shows "fst (run (profile L cfg hs name) w) =
      (case owned (db w) name of
         Some k \<Rightarrow> public_json L (JObject [(''name'', JString name), (''pubkey'', JString k)])
       | None \<Rightarrow> err NOT_FOUND ''not found'') \<and>
    fst (run (well_known L cfg hs (Some name)) w) =
      (case owned (db w) name of
         Some k \<Rightarrow> public_json L (JObject [(''names'', JObject [(name, JString k)]),
           (''relays'', JObject [(k, JArray (map JString (cfg_relays cfg)))])])
       | None \<Rightarrow> public_json L (JObject [(''names'', JObject []), (''relays'', JObject [])])) \<and>
    fst (run (availability L cfg hs name) w) =
      json_response OK ([(''name'', JString name),
         (''available'', JBool (\<not> is_reserved name (cfg_extra_reserved cfg) \<and> owned (db w) name = None))] @
        (if is_reserved name (cfg_extra_reserved cfg) then [(''reason'', JString ''reserved'')]
         else if owned (db w) name \<noteq> None then [(''reason'', JString ''taken'')] else [])) \<and>
    (owned (db w) name = Some key \<longrightarrow> fst (run (by_pubkey L cfg hs key) w) =
       public_json L (JObject [(''name'', JString name), (''pubkey'', JString key)])) \<and>
    (key \<notin> ran (owned (db w)) \<longrightarrow> fst (run (by_pubkey L cfg hs key) w) = err NOT_FOUND ''not found'') \<and>
    (\<forall>p \<in> {profile L cfg hs name, well_known L cfg hs (Some name), availability L cfg hs name,
        by_pubkey L cfg hs key}. db (snd (run p w)) = db w)"
proof -
  note rows = db_inv_names [OF assms(1)]
  have low: "to_lowercase (unicode_lower L) name = name" "to_lowercase (unicode_lower L) key = key"
    using assms(4,5) by (simp_all add: valid_name_lowercase valid_pubkey_hex_lowercase)
  show ?thesis
    using assms(2-5) low name_of_None [OF rows assms(2), of key] name_of_owned [OF rows assms(2)]
    by (auto simp: profile_def well_known_def availability_def by_pubkey_def db_query_def lookup_owned Let_def
        split: option.split)
qed

theorem reads_agree_witness:
  "fst (run (profile demo_libs demo_cfg (demo_headers 0) ''alice'') (demo_world [alice_row] [])) =
     public_json demo_libs (JObject [(''name'', JString ''alice''), (''pubkey'', JString key_a)]) \<and>
   fst (run (by_pubkey demo_libs demo_cfg (demo_headers 0) key_a) (demo_world [alice_row] [])) =
     public_json demo_libs (JObject [(''name'', JString ''alice''), (''pubkey'', JString key_a)])"
proof -
  let ?w = "demo_world [alice_row] []"
  have inv: "db_inv (db ?w)" and io: "\<not> io_err (db ?w) 0" by (simp_all add: demo_inv)
  have "hits_of ?w k = []" for k by (simp add: hits_of_def Mapping.lookup_default_empty)
  then have read: "fst (allow_read demo_cfg (client_ip (demo_headers 0)) ?w)"
    by (simp add: allow_read_def allow_cases Let_def retain_def) (simp add: demo_cfg_def)
  have name: "valid_name ''alice'' (cfg_name_min demo_cfg) (cfg_name_max demo_cfg)"
    using demo_valid_alice by (simp add: demo_cfg_def)
  show ?thesis
    using reads_agree [OF inv io read name demo_keys(3), of demo_libs] by simp
qed

end
