(* ===== verification/Refusals.thy ===== *)
theory Refusals
  imports Refusal_Tables
begin

text \<open>
  The error answers of a claim. The first table lists the eleven checks a claim makes once it has
  its offer; the second puts in front of it what comes before: the entry shared by all
  authenticated handlers, the body, the look at the offer, and the answer for an offer that is
  consumed. A claim is refused by the first check that fails.
\<close>

section \<open>The table\<close>

definition offer_dead :: "offer_row \<Rightarrow> bool" where
  "offer_dead offer \<longleftrightarrow> o_status offer = ''revoked'' \<or> o_status offer = ''expired''"

definition beyond_grace :: "config \<Rightarrow> offer_row \<Rightarrow> i64 \<Rightarrow> bool" where
  "beyond_grace cfg offer now \<longleftrightarrow> o_end_height offer = None \<or>
     wrap_i64 (now - (case o_state_changed_at offer of Some t \<Rightarrow> t | None \<Rightarrow> now))
       > cfg_transfer_claim_grace cfg"

definition confirmed :: "config \<Rightarrow> string + kernel_result \<Rightarrow> bool" where
  "confirmed cfg answer \<longleftrightarrow> (case answer of Inl e \<Rightarrow> False
     | Inr krn \<Rightarrow> k_found krn \<and> cfg_transfer_min_conf cfg \<le> k_confirmations krn)"

definition paid_in_time :: "offer_row \<Rightarrow> string + kernel_result \<Rightarrow> bool" where
  "paid_in_time offer answer \<longleftrightarrow> (case (answer, o_end_height offer) of
       (Inr krn, Some end_h) \<Rightarrow> (case k_height krn of Some h \<Rightarrow> u64_as_i64 h \<le> end_h | None \<Rightarrow> False)
     | _ \<Rightarrow> False)"

text \<open>The checks of a claim in their order, with the answer of the first that fails.\<close>

definition claim_refusals ::
  "libs \<Rightarrow> config \<Rightarrow> string \<Rightarrow> offer_row \<Rightarrow> parsed_payment_proof \<Rightarrow> world \<Rightarrow> refusals" where
  "claim_refusals L cfg key offer pf w =
     (let answer = observed_kernel (pp_excess_hex pf) w; transfers = set (tb_transfers (db w)) in
      [(offer_dead offer \<and> beyond_grace cfg offer (unix_now w), (GONE, dead_err offer)),
       (key \<noteq> o_buyer_pubkey offer, (UNAUTHORIZED, ''not the buyer'')),
       (owned (db w) (o_name offer) \<noteq> Some (o_seller_pubkey offer), (CONFLICT, ''owner_changed'')),
       (\<not> verify_signatures L pf, (BAD_REQUEST, ''invalid proof'')),
       (normalize_grin_address L (pp_recipient_address pf) \<noteq> o_proof_address offer,
          (CONFLICT, ''proof_address_mismatch'')),
       (o_price_nanogrin offer < 0 \<or> pp_amount pf \<noteq> i64_as_u64 (o_price_nanogrin offer),
          (CONFLICT, ''proof_amount_mismatch'')),
       (\<not> confirmed cfg answer, (CONFLICT, ''payment_unconfirmed'')),
       (offer_dead offer \<and> \<not> paid_in_time offer answer, (GONE, dead_err offer)),
       (\<exists>t \<in> transfers. t_kernel_excess t = pp_excess_hex pf, (CONFLICT, ''proof_reused'')),
       (o_buyer_pubkey offer \<in> ran (owned (db w)), (CONFLICT, ''pubkey already has a name'')),
       (\<exists>t \<in> transfers. t_offer_id t = o_offer_id offer, (CONFLICT, ''proof_reused''))])"

section \<open>The gates decide as the table\<close>

lemma death_gate_table:
  "death_gate cfg offer now =
     (if offer_dead offer \<and> beyond_grace cfg offer now then Inl (GONE, dead_err offer)
      else Inr (if offer_dead offer then o_end_height offer else None))"
  by (auto simp: death_gate_def offer_dead_def beyond_grace_def Let_def split: option.split)

lemma kernel_gate_table:
  assumes "d = (if offer_dead offer then o_end_height offer else None)"
    and "offer_dead offer \<longrightarrow> o_end_height offer \<noteq> None"
  shows "\<not> confirmed cfg answer \<Longrightarrow> kernel_gate cfg offer d answer = Inl (CONFLICT, ''payment_unconfirmed'')"
    and "confirmed cfg answer \<Longrightarrow> offer_dead offer \<Longrightarrow> \<not> paid_in_time offer answer \<Longrightarrow>
      kernel_gate cfg offer d answer = Inl (GONE, dead_err offer)"
    and "confirmed cfg answer \<Longrightarrow> offer_dead offer \<longrightarrow> paid_in_time offer answer \<Longrightarrow>
      \<exists>kh. kernel_gate cfg offer d answer = Inr kh"
  using assms
  by (auto simp: kernel_gate_def confirmed_def paid_in_time_def Let_def not_less
      split: sum.splits option.splits if_splits)

lemma run_claim_execute_refusal:
  assumes inv: "db_inv (db w)" and io: "\<And>k. \<not> io_err (db w) k"
    and owner: "owned (db w) (o_name offer) = Some (o_seller_pubkey offer)"
  shows "refusal (fst (run (claim_execute cfg offer pf kh now) w)) = first_failure
     [(\<exists>t \<in> set (tb_transfers (db w)). t_kernel_excess t = pp_excess_hex pf, (CONFLICT, ''proof_reused'')),
      (o_buyer_pubkey offer \<in> ran (owned (db w)), (CONFLICT, ''pubkey already has a name'')),
      (\<exists>t \<in> set (tb_transfers (db w)). t_offer_id t = o_offer_id offer, (CONFLICT, ''proof_reused''))]"
proof -
  note rows = db_inv_names [OF inv]
  have used: "db_query (excess_used (pp_excess_hex pf)) w \<longleftrightarrow>
      (\<exists>t \<in> set (tb_transfers (db w)). t_kernel_excess t = pp_excess_hex pf)"
    using io by (auto simp: db_query_def excess_used_def query_row_def find_None_iff
        simp del: not_None_eq)
  have held: "db_query (name_of (o_buyer_pubkey offer)) w = None \<longleftrightarrow>
      o_buyer_pubkey offer \<notin> ran (owned (db w))"
    using name_of_None [OF rows io] by (simp add: db_query_def)
  show ?thesis
  proof (cases "db_query (excess_used (pp_excess_hex pf)) w \<or> db_query (name_of (o_buyer_pubkey offer)) w \<noteq> None")
    case True
    then show ?thesis
      unfolding used [symmetric] using held by (auto simp: claim_execute_def)
  next
    case False
    then have buyer: "o_buyer_pubkey offer \<notin> ran (owned (db w))"
      and fresh: "\<not> (\<exists>t \<in> set (tb_transfers (db w)). t_kernel_excess t = pp_excess_hex pf)"
      unfolding used held by blast+
    show ?thesis
      using False buyer fresh run_claim_txn_result [OF rows io owner buyer, of "pp_excess_hex pf" kh now]
      by (auto simp: claim_execute_def)
  qed
qed

lemma proof_gate_table:
  "proof_gate L offer pf =
     (if \<not> verify_signatures L pf then Inl (BAD_REQUEST, ''invalid proof'')
      else if normalize_grin_address L (pp_recipient_address pf) \<noteq> o_proof_address offer
      then Inl (CONFLICT, ''proof_address_mismatch'')
      else if o_price_nanogrin offer < 0 \<or> pp_amount pf \<noteq> i64_as_u64 (o_price_nanogrin offer)
      then Inl (CONFLICT, ''proof_amount_mismatch'') else Inr ())"
  by (simp add: proof_gate_def)

lemma run_claim_offer_refusal:
  assumes inv: "db_inv (db w)" and io: "\<And>k. \<not> io_err (db w) k"
  shows "refusal (fst (run (claim_offer L cfg key offer pf (unix_now w)) w)) =
    first_failure (claim_refusals L cfg key offer pf w)"
proof -
  let ?d = "if offer_dead offer then o_end_height offer else None"
  let ?answer = "observed_kernel (pp_excess_hex pf) w"
  show ?thesis
  proof (cases "(offer_dead offer \<and> beyond_grace cfg offer (unix_now w)) \<or> key \<noteq> o_buyer_pubkey offer \<or>
      owned (db w) (o_name offer) \<noteq> Some (o_seller_pubkey offer) \<or> proof_gate L offer pf \<noteq> Inr ()")
    case True
    then show ?thesis
      using io by (auto simp: claim_offer_def claim_refusals_def death_gate_table proof_gate_table db_query_def
          lookup_owned Let_def)
  next
    case False
    then have passed: "\<not> (offer_dead offer \<and> beyond_grace cfg offer (unix_now w))" "key = o_buyer_pubkey offer"
      "owned (db w) (o_name offer) = Some (o_seller_pubkey offer)" "proof_gate L offer pf = Inr ()" by blast+
    have known: "offer_dead offer \<longrightarrow> o_end_height offer \<noteq> None" using passed(1) by (auto simp: beyond_grace_def)
    note gate = kernel_gate_table [OF refl known, of cfg ?answer]
    have table: "first_failure (claim_refusals L cfg key offer pf w) = first_failure
       ((\<not> confirmed cfg ?answer, (CONFLICT, ''payment_unconfirmed'')) #
        (offer_dead offer \<and> \<not> paid_in_time offer ?answer, (GONE, dead_err offer)) #
        drop 8 (claim_refusals L cfg key offer pf w))"
      using passed by (auto simp: claim_refusals_def Let_def proof_gate_table split: if_splits)
    have run: "fst (run (claim_offer L cfg key offer pf (unix_now w)) w) =
      (case kernel_gate cfg offer ?d ?answer of Inl (c, msg) \<Rightarrow> err c msg
       | Inr kh \<Rightarrow> fst (run (claim_execute cfg offer pf kh (unix_now w)) w))"
      using passed io by (simp add: claim_offer_def death_gate_table db_query_def lookup_owned split: sum.split)
    have rest: "refusal (fst (run (claim_execute cfg offer pf kh (unix_now w)) w)) =
        first_failure (drop 8 (claim_refusals L cfg key offer pf w))" for kh
      unfolding run_claim_execute_refusal [OF inv io passed(3)] by (simp add: claim_refusals_def Let_def)
    show ?thesis
      unfolding run table using gate rest by (cases "confirmed cfg ?answer") (auto)
  qed
qed

lemma claim_offer_refused_or_created:
  "refusal (fst (run (claim_offer L cfg key offer pf now) w)) = None \<longleftrightarrow>
   status (fst (run (claim_offer L cfg key offer pf now) w)) = CREATED"
  using gates_not_created
  by (auto simp: claim_offer_def claim_execute_def split: sum.split option.split tx_err.split)

lemma claim_refusals_cong:
  assumes "owned (db w') = owned (db w)" and "tb_transfers (db w') = tb_transfers (db w)"
    and "node w' = node w" and "unix_now w' = unix_now w"
  shows "claim_refusals L cfg key offer pf w' = claim_refusals L cfg key offer pf w"
  using assms by (simp add: claim_refusals_def observed_kernel_def)

section \<open>Every refusal\<close>

text \<open>The offer a claim meets, settled, and the table of the whole handler.\<close>

definition claimed_offer :: "libs \<Rightarrow> bytes \<Rightarrow> world \<Rightarrow> offer_row" where
  "claimed_offer L body w = settled (the (get_offer (fst (projr (claim_request L body))) (db w))) w"

definition claim_table :: "libs \<Rightarrow> config \<Rightarrow> headers \<Rightarrow> bytes \<Rightarrow> world \<Rightarrow> refusals" where
  "claim_table L cfg hs body w =
     (let key = requester L cfg ''transfer'' hs ''POST'' ''/api/v1/transfer/claim'' body w;
          request = claim_request L body; offer_id = fst (projr request); pf = snd (projr request);
          offer = claimed_offer L body w
      in entry_refusals L cfg ''transfer'' hs ''POST'' ''/api/v1/transfer/claim'' body w @
         [(isl request, projl request),
          (get_offer offer_id (db w) = None, (NOT_FOUND, ''not found''))] @
         (if o_status offer = ''consumed''
          then [(\<forall>t \<in> set (tb_transfers (db w)). t_offer_id t = offer_id \<longrightarrow> t_kernel_excess t \<noteq> pp_excess_hex pf,
                  (CONFLICT, ''offer_consumed''))]
          else claim_refusals L cfg key offer pf w))"

lemma run_claim_consumed_answer:
  assumes inv: "db_inv (db w)" and io: "\<not> io_err (db w) 0"
  shows "refusal (fst (run (claim_consumed cfg i pf) w)) = first_failure
      [(\<forall>t \<in> set (tb_transfers (db w)). t_offer_id t = i \<longrightarrow> t_kernel_excess t \<noteq> pp_excess_hex pf,
         (CONFLICT, ''offer_consumed''))] \<and>
    (refusal (fst (run (claim_consumed cfg i pf) w)) = None \<longrightarrow> status (fst (run (claim_consumed cfg i pf) w)) = OK)"
proof (cases "List.find (\<lambda>t. t_offer_id t = i) (tb_transfers (db w))")
  case None
  then have "transfer_for_offer i (db w) = None" "\<forall>t \<in> set (tb_transfers (db w)). t_offer_id t \<noteq> i"
    using io by (auto simp: transfer_for_offer_def query_row_def find_None_iff)
  then show ?thesis by (auto simp: claim_consumed_def db_query_def)
next
  case (Some t)
  then have t: "t \<in> set (tb_transfers (db w))" "t_offer_id t = i" by (auto dest: find_SomeD)
  have "distinct (map t_offer_id (tb_transfers (db w)))"
    using inv by (simp add: db_inv_def transfers_inv_def)
  then have only: "t' = t" if "t' \<in> set (tb_transfers (db w))" "t_offer_id t' = i" for t'
    using that t by (auto dest: distinct_map_eqD)
  have "transfer_for_offer i (db w) = Some (t_kernel_excess t, t_name t, t_buyer_pubkey t)"
    using Some io by (simp add: transfer_for_offer_def query_row_def)
  moreover have "(\<forall>t' \<in> set (tb_transfers (db w)). t_offer_id t' = i \<longrightarrow> t_kernel_excess t' \<noteq> pp_excess_hex pf) \<longleftrightarrow>
      t_kernel_excess t \<noteq> pp_excess_hex pf"
    using t only by blast
  ultimately show ?thesis by (auto simp: claim_consumed_def db_query_def)
qed

lemma run_claim_asked_refusal:
  assumes inv: "db_inv (db w)" and io: "\<And>k. \<not> io_err (db w) k"
    and asked: "claim_asked L cfg hs body w key row pf" and offer: "settled row w = offer"
  shows "o_status offer \<noteq> ''consumed'' \<Longrightarrow>
      refusal (fst (run (claim L cfg hs body) w)) = first_failure (claim_refusals L cfg key offer pf w) \<and>
      (refusal (fst (run (claim L cfg hs body) w)) = None \<longrightarrow> status (fst (run (claim L cfg hs body) w)) = CREATED)"
proof -
  assume opened: "o_status offer \<noteq> ''consumed''"
  obtain w3 where run: "run (claim L cfg hs body) w = run (claim_offer L cfg key (settled row w) pf (unix_now w)) w3"
    and w3: "db w3 = db (snd (run (settle_expiry row (unix_now w)) w))" "node w3 = node w"
      "unix_now w3 = unix_now w"
    by (rule run_claim_settled [OF asked opened [folded offer]])
  note settle = run_settle_expiry_owned [of row "unix_now w" w, folded w3(1)]
  have inv3: "db_inv (db w3)" using run_settle_expiry_db_inv [OF inv] w3(1) by simp
  have io3: "\<not> io_err (db w3) k" for k using io settle(3) by simp
  show ?thesis
    using run_claim_offer_refusal [OF inv3 io3, of L cfg key offer pf]
      claim_refusals_cong [OF settle(1,2) w3(2,3)]
      claim_offer_refused_or_created [of L cfg key offer pf "unix_now w" w3] run w3(3) offer by simp
qed

lemma run_claim_refusal:
  assumes inv: "db_inv (db w)" and io: "\<And>k. \<not> io_err (db w) k"
  shows "refusal (fst (run (claim L cfg hs body) w)) = first_failure (claim_table L cfg hs body w) \<and>
    (refusal (fst (run (claim L cfg hs body) w)) = None \<longrightarrow> status (fst (run (claim L cfg hs body) w)) =
      (if o_status (claimed_offer L body w) = ''consumed'' then OK else CREATED))"
proof (cases "prologue L cfg ''transfer'' hs ''POST'' ''/api/v1/transfer/claim'' body w")
  case (Inl r)
  then show ?thesis
    using entry_refused [OF Inl] by (auto simp: run_claim_prologue claim_table_def Let_def first_failure_append)
next
  case (Inr kw)
  then obtain key w2 where
    pro: "prologue L cfg ''transfer'' hs ''POST'' ''/api/v1/transfer/claim'' body w = Inr (key, w2)"
    by (cases kw) simp
  note same = prologue_Inr(1-3) [OF pro] and entry = entry_passed [OF pro]
  show ?thesis
  proof (cases "\<exists>i pf row. claim_request L body = Inr (i, pf) \<and> get_offer i (db w) = Some row")
    case False
    then show ?thesis
      by (auto simp: run_claim_prologue pro claim_authenticated_def claim_table_def Let_def db_query_def same
          first_failure_append entry split: sum.splits option.splits)
  next
    case True
    then obtain i pf row where ask: "claim_request L body = Inr (i, pf)" "get_offer i (db w) = Some row" by blast
    have asked: "claim_asked L cfg hs body w key row pf" using pro ask by (auto simp: claim_asked_def)
    have offer: "claimed_offer L body w = settled row w" by (simp add: claimed_offer_def ask)
    have table: "first_failure (claim_table L cfg hs body w) = first_failure
        (if o_status (settled row w) = ''consumed''
         then [(\<forall>t \<in> set (tb_transfers (db w)). t_offer_id t = i \<longrightarrow> t_kernel_excess t \<noteq> pp_excess_hex pf,
                  (CONFLICT, ''offer_consumed''))]
         else claim_refusals L cfg key (settled row w) pf w)"
      by (simp add: claim_table_def Let_def first_failure_append entry ask offer)
    show ?thesis
    proof (cases "o_status (settled row w) = ''consumed''")
      case False
      then show ?thesis
        using run_claim_asked_refusal [OF inv io asked refl] by (simp add: table offer)
    next
      case consumed: True
      let ?w3 = "snd (run (settle_expiry row (unix_now w)) w2)"
      have "fst (run (settle_expiry row (unix_now w)) w2) = settled row w"
        using run_settle_expiry_cong(1) [OF same(1,2)] by (simp add: settled_def)
      then have run: "run (claim L cfg hs body) w = run (claim_consumed cfg i pf) ?w3"
        using consumed by (simp add: run_claim_prologue pro claim_authenticated_def ask db_query_def same case_prod_beta)
      note settle = run_settle_expiry_owned [of row "unix_now w" w2]
      have inv3: "db_inv (db ?w3)" using run_settle_expiry_db_inv [of w2] inv same by simp
      have io3: "\<not> io_err (db ?w3) 0" using io same settle(3) by simp
      show ?thesis
        using run_claim_consumed_answer [OF inv3 io3, of cfg i pf] consumed
        unfolding run table offer settle(2) same(1) by simp
    qed
  qed
qed

text \<open>
  C17. Every claim served alone is refused with exactly the status and message of the first check
  in its table that fails: the limiter, the authorization, a replayed token; a malformed body or
  proof; an unknown offer; for a consumed offer another proof than the recorded one; else a dead
  offer beyond the grace time or without an end height, another signer than the buyer, a seller
  who lost the name, the signatures, the address, the amount, too few confirmations, a kernel
  above the end height, a kernel excess recorded before, a buyer who has a name, an offer
  recorded before. If none fails the answer is 201, or 200 for the consumed offer.
\<close>

theorem claim_refused:
  assumes "db_inv (db w)" and "\<And>k. \<not> io_err (db w) k"
  shows "refusal (fst (run (claim L cfg hs body) w)) = first_failure (claim_table L cfg hs body w) \<and>
    status (fst (run (claim L cfg hs body) w)) =
      (case first_failure (claim_table L cfg hs body w) of
         Some (c, msg) \<Rightarrow> c
       | None \<Rightarrow> if o_status (claimed_offer L body w) = ''consumed'' then OK else CREATED)"
proof -
  have "refusal (fst (run (claim L cfg hs body) w)) = first_failure (claim_table L cfg hs body w)"
    "refusal (fst (run (claim L cfg hs body) w)) = None \<longrightarrow> status (fst (run (claim L cfg hs body) w)) =
      (if o_status (claimed_offer L body w) = ''consumed'' then OK else CREATED)"
    using run_claim_refusal [OF assms, of L cfg hs body] by blast+
  then show ?thesis
    using refusal_status by (cases "first_failure (claim_table L cfg hs body w)") auto
qed

theorem claim_refused_witness:
  "refusal (fst (run (claim demo_libs demo_cfg (demo_headers 4) (demo_body 4))
     ((demo_world [alice_row] [demo_row])\<lparr>node := None\<rparr>))) = Some (409, ''payment_unconfirmed'')"
proof -
  let ?w = "(demo_world [alice_row] [demo_row])\<lparr>node := None\<rparr>"
  have inv: "db_inv (db ?w)" and io: "\<And>k. \<not> io_err (db ?w) k" by (simp_all add: demo_inv)
  have now: "unix_now ?w = unix_now (demo_world [alice_row] [demo_row])" by (rule unix_now_cong) simp
  then have opened: "demo_open ''transfer'' ''e4'' ?w"
    using demo_open_start [of "''transfer''" "''e4''" "[alice_row]" "[demo_row]"]
    by (simp add: demo_open_def demo_unused_def hits_of_def)
  obtain w2 where pro: "prologue demo_libs demo_cfg ''transfer'' (demo_headers 4) ''POST''
      ''/api/v1/transfer/claim'' (demo_body 4) ?w = Inr (key_b, w2)"
    using demo_logins(4) [OF opened] by blast
  have offer: "claimed_offer demo_libs (demo_body 4) ?w = demo_row"
    using now by (simp add: claimed_offer_def demo_claim_request settled_def)
  have "proof_gate demo_libs demo_row demo_proof = Inr ()" by (rule demo_gates)
  then have "first_failure (claim_refusals demo_libs demo_cfg key_b demo_row demo_proof ?w) =
      Some (409, ''payment_unconfirmed'')"
    by (auto simp: claim_refusals_def Let_def offer_dead_def confirmed_def observed_kernel_def proof_gate_table
        split: if_splits)
  then have "first_failure (claim_table demo_libs demo_cfg (demo_headers 4) (demo_body 4) ?w) =
      Some (409, ''payment_unconfirmed'')"
    by (simp add: claim_table_def Let_def first_failure_append entry_passed [OF pro] demo_claim_request offer)
  then show ?thesis using claim_refused [OF inv io, of demo_libs demo_cfg "demo_headers 4" "demo_body 4"] by simp
qed

end
