(* ===== verification/Races.thy ===== *)
theory Races
  imports Example
begin

text \<open>
  Interleavings the service allows and its authors would not want: in each, one request is
  overtaken by another between two of its steps. The traces are runs of the handlers on the
  concrete instance, from a consistent state, with no failing statement.
\<close>

section \<open>Stopping a handler between two steps\<close>

lemma advance_prologue:
  assumes "prologue L cfg bucket hs meth path body w = Inr (key, w2)" and "m = 3 + n"
  shows "advance m (act (allow_write cfg bucket (client_ip hs)) (\<lambda>allowed.
     if \<not> allowed then Ret (err TOO_MANY_REQUESTS ''rate_limited'')
     else authenticate L cfg hs meth path body k)) w = advance n (k key) w2"
  using assms(1) unfolding assms(2) numeral_3_eq_3 add_Suc add_0
  by (auto simp: prologue_def authenticate_def authorised_by_def case_prod_beta Let_def
      split: if_splits sum.splits)

lemma prologue_seen:
  assumes "prologue L cfg bucket hs meth path body w = Inr (key, w2)" and "carried_event L hs = Some e"
    and "j \<noteq> ev_id e" and "Mapping.lookup (seen_auth w2) j = Some t"
  shows "Mapping.lookup (seen_auth w) j = Some t"
proof -
  let ?w1 = "snd (allow_write cfg bucket (client_ip hs) w)"
  have "authorised_by L cfg ?w1 hs meth path body = Inr (key, ev_id e)"
    "w2 = snd (auth_event_fresh cfg (ev_id e) ?w1)"
    using assms(1,2)
    by (auto simp: prologue_def case_prod_beta Let_def authorised_by_def verify_nip98_Inr
        split: if_splits sum.splits)
  then show ?thesis
    using assms(3,4)
    by (auto simp: auth_event_fresh_def Let_def Mapping.lookup_filter Mapping.lookup_update'
        split: if_splits option.splits)
qed

text \<open>After the first login another token is still good.\<close>

lemma demo_open_next:
  assumes "prologue demo_libs demo_cfg b (demo_headers n) meth path body (demo_world names offers)
      = Inr (key, w2)"
    and "event_from_json demo_libs (replicate n 0) = Some (demo_auth i k m' p' payload)" and "j \<noteq> i"
  shows "demo_open b' j w2"
proof -
  let ?w = "demo_world names offers" and ?k = "bucket_key b' ''1.2.3.4''"
  have "hits_of w2 ?k = hits_of (snd (allow_write demo_cfg b (client_ip (demo_headers n)) ?w)) ?k"
    using prologue_Inr(5) [OF assms(1)] by (simp add: hits_of_def)
  moreover have "length (hits_of (snd (allow_write demo_cfg b (client_ip (demo_headers n)) ?w)) ?k)
      \<le> length (hits_of ?w ?k) + 1"
    unfolding allow_write_def by (rule length_hits_of_allow)
  moreover have "hits_of ?w ?k = []" by (simp add: hits_of_def Mapping.lookup_default_empty)
  ultimately have "length (hits_of w2 ?k) < 10" by simp
  moreover have "Mapping.lookup (seen_auth w2) j \<noteq> Some t" for t
    using prologue_seen [OF assms(1), of "demo_auth i k m' p' payload" j t] assms(2,3)
    by (auto simp: demo_carried)
  ultimately show ?thesis
    using prologue_Inr(3) [OF assms(1)] by (simp add: demo_open_def demo_unused_def)
qed

lemma run_advance: "run (snd (advance n p s)) (fst (advance n p s)) = run p s"
proof (induction n arbitrary: p s)
  case (Suc n)
  then show ?case by (cases p) (simp_all add: advance.simps(2) run_Step)
qed simp

section \<open>A claim about to be executed\<close>

lemma demo_claim_stopped:
  obtains w1 k where "advance 9 (serve demo_libs demo_cfg rq_claim) (demo_world [alice_row] [demo_row]) =
      (w1, act (db_execute (run_claim_txn demo_row excess_0 (Some 500) 1000)) k)"
    and "db w1 = demo_conn [alice_row] [demo_row]"
proof -
  let ?w = "demo_world [alice_row] [demo_row]"
  obtain w1 where pro: "prologue demo_libs demo_cfg ''transfer'' (demo_headers 4) ''POST''
      ''/api/v1/transfer/claim'' (demo_body 4) ?w = Inr (key_b, w1)"
    using demo_logins(4) [OF demo_open_start, of "''transfer''"] by blast
  have w1: "db w1 = demo_conn [alice_row] [demo_row]" "unix_now w1 = 1000" "node w1 = Some demo_node"
    using prologue_Inr(1,2,3) [OF pro] by simp_all
  have free: "\<not> excess_used excess_0 (demo_conn [alice_row] [demo_row])"
    by (simp add: excess_used_def query_row_def demo_conn_def)
  have owner: "lookup ''alice'' (demo_conn [alice_row] [demo_row]) = Some key_a"
    "name_of key_b (demo_conn [alice_row] [demo_row]) = None"
    by (simp_all add: lookup_owned) (simp add: name_of_def query_row_def demo_conn_def alice_row_def)
  have kernel_answer: "observed_kernel excess_0 w1 = cs_kernel demo_node excess_0"
    by (simp add: observed_kernel_def w1)
  have settle: "settle_expiry demo_row 1000 = Ret demo_row"
    by (simp add: settle_expiry_def demo_row_def)
  have six: "(6::nat) = Suc (Suc (Suc (Suc (Suc (Suc 0)))))" by simp
  have "advance 9 (serve demo_libs demo_cfg rq_claim) ?w =
      advance 6 (claim_authenticated demo_libs demo_cfg (demo_body 4) key_b) w1"
    unfolding demo_served claim_def Let_def by (rule advance_prologue [OF pro]) simp
  moreover obtain k where "advance 6 (claim_authenticated demo_libs demo_cfg (demo_body 4) key_b) w1 =
      (w1, act (db_execute (run_claim_txn demo_row excess_0 (Some 500) 1000)) k)"
    unfolding six
    by (simp add: claim_authenticated_def demo_claim_request db_query_def w1 settle claim_offer_def demo_gates
        owner kernel_answer claim_execute_def free)
  ultimately show ?thesis using that w1(1) by simp
qed

text \<open>The next step of the claim sells the name, and the answer is known.\<close>

abbreviation demo_sale :: "world \<Rightarrow> (tx_err + unit) \<times> world" where
  "demo_sale \<equiv> db_execute (run_claim_txn demo_row excess_0 (Some 500) 1000)"

lemma demo_claim_committing:
  obtains w1 k where "reaches demo_libs demo_cfg demo_chain (demo_world [alice_row] [demo_row], [])
      (w1, [act demo_sale k])"
    and "db w1 = demo_conn [alice_row] [demo_row]" and "db (snd (demo_sale w1)) = sold_conn"
proof -
  obtain w1 k where stopped: "advance 9 (serve demo_libs demo_cfg rq_claim) (demo_world [alice_row] [demo_row]) =
      (w1, act demo_sale k)"
    and w1: "db w1 = demo_conn [alice_row] [demo_row]"
    by (rule demo_claim_stopped)
  have "reaches demo_libs demo_cfg demo_chain (demo_world [alice_row] [demo_row], []) (w1, [act demo_sale k])"
    using reaches_advance [where L = demo_libs and cfg = demo_cfg and K = demo_chain
        and w = "demo_world [alice_row] [demo_row]" and n = 9 and q = rq_claim]
    unfolding stopped by simp
  moreover have "db (snd (demo_sale w1)) = sold_conn" by (simp add: w1 demo_txn)
  ultimately show ?thesis using that w1 by blast
qed

text \<open>The answer of the sale.\<close>

lemma created_claim_answer:
  "status (fst (run (claim_execute cfg offer pf kh now) w)) = CREATED \<Longrightarrow>
   fst (run (claim_execute cfg offer pf kh now) w) =
     json_response CREATED (claim_success (o_name offer) (cfg_domain cfg) (o_buyer_pubkey offer))"
  by (auto simp: claim_execute_def split: option.splits if_splits sum.splits tx_err.splits)

lemma sold_answer_body:
  "sold_answer = json_response CREATED (claim_success ''alice'' ''goblin.st'' key_b)"
proof -
  let ?w = "demo_world [alice_row] [demo_row]"
  obtain w1 where pro: "prologue demo_libs demo_cfg ''transfer'' (demo_headers 4) ''POST''
      ''/api/v1/transfer/claim'' (demo_body 4) ?w = Inr (key_b, w1)"
    using demo_logins(4) [OF demo_open_start, of "''transfer''"] by blast
  have w1: "db w1 = demo_conn [alice_row] [demo_row]" "unix_now w1 = 1000" "node w1 = Some demo_node"
    using prologue_Inr(1,2,3) [OF pro] by simp_all
  have settle: "settle_expiry demo_row 1000 = Ret demo_row"
    by (simp add: settle_expiry_def demo_row_def)
  have "run (serve demo_libs demo_cfg rq_claim) ?w = run (claim_authenticated demo_libs demo_cfg (demo_body 4) key_b) w1"
    by (simp add: demo_served run_claim_prologue pro)
  also have "\<dots> = run (claim_offer demo_libs demo_cfg key_b demo_row demo_proof 1000) w1"
    by (simp add: claim_authenticated_def demo_claim_request db_query_def w1 settle)
  finally have "sold_answer = fst (run (claim_execute demo_cfg demo_row demo_proof (Some 500) 1000) w1)"
    by (simp add: sold_answer_def claim_offer_def demo_gates db_query_def w1 lookup_owned observed_kernel_def)
  moreover from this have "status (fst (run (claim_execute demo_cfg demo_row demo_proof (Some 500) 1000) w1)) = CREATED"
    using demo_claimed(1) [of ?w] by (simp add: sold_answer_def)
  moreover have "cfg_domain demo_cfg = ''goblin.st''" by (simp add: demo_cfg_def)
  ultimately show ?thesis
    using created_claim_answer [of demo_cfg demo_row demo_proof "Some 500" 1000 w1] by simp
qed

section \<open>Release against claim\<close>

lemma demo_release_stopped:
  "\<exists>w1. advance 4 (serve demo_libs demo_cfg rq_release) (demo_world [alice_row] [demo_row]) =
      (w1, act (\<lambda>w. db_execute (release_name ''alice'' (unix_now w)) w) (\<lambda>res.
           case res of
             Inr _ \<Rightarrow>
               act (record_op ''namechange'' key_a) (\<lambda>_.
               Ret (json_response OK [(''name'', JString ''alice''), (''released'', JBool True)]))
           | Inl _ \<Rightarrow> Ret (err INTERNAL_SERVER_ERROR ''db error''))) \<and>
    demo_open ''transfer'' ''e4'' w1 \<and> node w1 = Some demo_node \<and>
    db w1 = demo_conn [alice_row] [demo_row]"
proof -
  let ?w = "demo_world [alice_row] [demo_row]"
  have name: "to_lowercase (unicode_lower demo_libs) ''alice'' = ''alice''"
    by (rule valid_name_lowercase [OF demo_valid_alice])
  obtain w1 where pro: "prologue demo_libs demo_cfg ''unreg'' (demo_headers 2) ''DELETE''
      (unregister_path ''alice'') [] ?w = Inr (key_a, w1)"
    using demo_logins(2) [OF demo_open_start, of "''unreg''"] by (auto simp: unregister_path_def)
  have "advance 4 (serve demo_libs demo_cfg rq_release) ?w =
      advance 1 (release_owned ''alice'' key_a) w1"
    unfolding demo_served unregister_def Let_def name by (rule advance_prologue [OF pro]) simp
  also have "advance 1 (release_owned ''alice'' key_a) w1 =
      (w1, act (\<lambda>w. db_execute (release_name ''alice'' (unix_now w)) w) (\<lambda>res.
           case res of
             Inr _ \<Rightarrow>
               act (record_op ''namechange'' key_a) (\<lambda>_.
               Ret (json_response OK [(''name'', JString ''alice''), (''released'', JBool True)]))
           | Inl _ \<Rightarrow> Ret (err INTERNAL_SERVER_ERROR ''db error'')))"
    using prologue_Inr(1) [OF pro] by (simp add: release_owned_def db_query_def lookup_owned)
  finally show ?thesis
    using prologue_Inr(1,2) [OF pro] demo_open_next [OF pro demo_tokens(2), of "''e4''"] by simp
qed

text \<open>
  C25. A release can free a name it no longer owns. The seller's DELETE has checked the owner
  when the buyer's claim is served whole: it answers 201, the payment is recorded and the
  buyer owns the name. The DELETE goes on, answers 200, and nobody owns the name: the update
  of \<open>unregister\<close> does not ask for the owner again.
\<close>

theorem release_frees_sold_name:
  "\<exists>w released claimed.
     sys_inv demo_libs demo_cfg demo_chain (demo_world [alice_row] [demo_row]) \<and>
     reaches demo_libs demo_cfg demo_chain (demo_world [alice_row] [demo_row], [])
       (w, [Ret released, Ret claimed]) \<and>
     status claimed = CREATED \<and> status released = OK \<and>
     tb_transfers (db w) = [transfer_record demo_row excess_0 (Some 500) 1000] \<and>
     owned (db w) = Map.empty"
proof -
  let ?w = "demo_world [alice_row] [demo_row]"
  let ?rest = "act (\<lambda>w. db_execute (release_name ''alice'' (unix_now w)) w) (\<lambda>res.
           case res of
             Inr _ \<Rightarrow>
               act (record_op ''namechange'' key_a) (\<lambda>_.
               Ret (json_response OK [(''name'', JString ''alice''), (''released'', JBool True)]))
           | Inl _ \<Rightarrow> Ret (err INTERNAL_SERVER_ERROR ''db error''))"
  obtain w1 where stopped: "advance 4 (serve demo_libs demo_cfg rq_release) ?w = (w1, ?rest)"
    and w1: "demo_open ''transfer'' ''e4'' w1" "node w1 = Some demo_node"
      "db w1 = demo_conn [alice_row] [demo_row]"
    using demo_release_stopped by blast
  let ?w2 = "snd (run (serve demo_libs demo_cfg rq_claim) w1)"
  have sold: "db ?w2 = sold_conn" by (rule demo_claimed(2) [OF w1])
  have released: "fst (release_name ''alice'' t sold_conn) = Inr 1"
    "snd (release_name ''alice'' t sold_conn) =
      sold_conn\<lparr>tb_names := [alice_row\<lparr>n_pubkey := key_b, n_created_at := 1000, n_released_at := Some t\<rparr>]\<rparr>" for t
    by (simp_all add: release_name_def sold_conn_def alice_row_def active_def update_rows_def)
  have reached: "reaches demo_libs demo_cfg demo_chain (?w, []) (snd (run ?rest ?w2),
      [Ret (fst (run ?rest ?w2)), Ret (fst (run (serve demo_libs demo_cfg rq_claim) w1))])"
    using reaches_overtaken [where L = demo_libs and cfg = demo_cfg and K = demo_chain and w = ?w
        and n = 4 and q = rq_release and q' = rq_claim]
    unfolding stopped by simp
  have "status (fst (run ?rest ?w2)) = OK" by (simp add: sold released)
  moreover have "tb_transfers (db (snd (run ?rest ?w2))) = [transfer_record demo_row excess_0 (Some 500) 1000]"
    "owned (db (snd (run ?rest ?w2))) = Map.empty"
    by (simp_all add: sold released)
       (auto simp: sold_conn_def owned_def owner_of_def active_def fun_eq_iff)
  ultimately show ?thesis using demo_sys_inv(3) reached demo_claimed(1) [OF w1] by blast
qed

section \<open>Revoke against claim\<close>

definition lapsed_row :: offer_row where
  "lapsed_row = demo_row\<lparr>o_expiration := 995, o_status := ''expired'', o_end_height := Some 600,
     o_state_changed_at := Some 996\<rparr>"

lemma lapsed_sys_inv: "sys_inv demo_libs demo_cfg demo_chain (demo_world [alice_row] [lapsed_row])"
proof -
  let ?e = "demo_offer\<lparr>ev_tags := [[''name'', ''alice''], [''domain'', ''goblin.st''], [''p'', key_b],
        [''price'', ''5''], [''proof_address'', ''grin1a''], [''expiration'', ''995'']]\<rparr>"
  have tags: "extract_offer_tags ?e = Some \<lparr>ot_name = ''alice'', ot_domain = ''goblin.st'',
     ot_buyer = key_b, ot_price = ''5'', ot_proof_address = ''grin1a'', ot_expiration = ''995''\<rparr>"
    by (simp add: extract_offer_tags_def offer_tag_def second_def)
  have num: "trim ''995'' = ''995''" "parse_i64 ''995'' = Some 995"
    by (simp_all add: trim_graphic is_graphic_def parse_i64_def strip_prefix_def digits_val_def str_defs)
  have cfg: "cfg_name_min demo_cfg = 3" "cfg_name_max demo_cfg = 20" "cfg_domain demo_cfg = ''goblin.st''"
    by (simp_all add: demo_cfg_def)
  have "event_verify demo_libs ?e" "ev_kind ?e = OFFER_KIND" "event_as_json demo_libs ?e = ev_id ?e"
    "ev_id ?e = offer_c" "ev_pubkey ?e = key_a"
    by (simp_all add: demo_libs_def demo_offer_def)
  then have "offer_of_event demo_libs demo_cfg ?e lapsed_row"
    unfolding offer_of_event_def tags
    by (simp add: lapsed_row_def demo_row_def cfg num demo_valid_alice valid_pubkey_hex_lowercase
        u64_as_i64_def)
  then have "offer_authentic demo_libs demo_cfg lapsed_row" by (auto simp: offer_authentic_def)
  moreover have "db_inv (demo_conn [alice_row] [lapsed_row])"
    by (simp add: db_inv_def names_inv_def offers_inv_def transfers_inv_def consumed_recorded_def
        lapsed_row_def offer_statuses_def)
  ultimately show ?thesis
    using demo_name_allowed
    by (simp add: sys_inv_def demo_answers justified_inv_def name_row_ok_def) (simp add: alice_row_def)
qed

lemma lapsed_row_fields [simp]:
  "o_offer_id lapsed_row = offer_c" "o_name lapsed_row = ''alice''" "o_seller_pubkey lapsed_row = key_a"
  "o_buyer_pubkey lapsed_row = key_b" "o_status lapsed_row = ''expired''" "o_expiration lapsed_row = 995"
  "o_price_nanogrin lapsed_row = 5" "o_proof_address lapsed_row = ''grin1a''"
  "o_end_height lapsed_row = Some 600" "o_state_changed_at lapsed_row = Some 996"
  by (simp_all add: lapsed_row_def) (simp_all add: demo_row_def)

lemma lapsed_claim_ok:
  assumes "node w = Some demo_node" and "db w = demo_conn [alice_row] [lapsed_row]"
  shows "claim_ok demo_libs demo_cfg key_b lapsed_row demo_proof 1000 w (Some 500)"
    and "run_claim_txn lapsed_row excess_0 (Some 500) 1000 (demo_conn [alice_row] [lapsed_row]) =
      (Inr (), sold_conn\<lparr>tb_offers := [lapsed_row\<lparr>o_status := ''consumed''\<rparr>]\<rparr>)"
proof -
  have "death_gate demo_cfg lapsed_row 1000 = Inr (Some 600)"
    by (simp add: death_gate_def Let_def wrap_i64_id is_i64_def) (simp add: demo_cfg_def)
  moreover have "proof_gate demo_libs lapsed_row demo_proof = Inr ()"
    using demo_gates(2) by (simp add: proof_gate_def lapsed_row_def split: if_splits)
  moreover have "cs_kernel demo_node excess_0 =
      Inr \<lparr>k_found = True, k_confirmations = 20, k_height = Some 500\<rparr>"
    by (simp add: demo_node_def test_chain_def set_kernel_def)
  then have "kernel_gate demo_cfg lapsed_row (Some 600) (cs_kernel demo_node excess_0) = Inr (Some 500)"
    by (simp add: kernel_gate_def demo_cfg_def u64_as_i64_def)
  ultimately show "claim_ok demo_libs demo_cfg key_b lapsed_row demo_proof 1000 w (Some 500)"
    by (simp add: claim_ok_def assms observed_kernel_def)
  show "run_claim_txn lapsed_row excess_0 (Some 500) 1000 (demo_conn [alice_row] [lapsed_row]) =
      (Inr (), sold_conn\<lparr>tb_offers := [lapsed_row\<lparr>o_status := ''consumed''\<rparr>]\<rparr>)"
    by (simp add: run_claim_txn_def reassign_name_def insert_transfer_def consume_offer_def Let_def
        update_rows_def alice_row_def active_def pubkey_active_elsewhere_def sold_conn_def
        transfer_record_def)
       (simp add: demo_conn_def lapsed_row_def demo_row_def)
qed

lemma lapsed_claimed:
  assumes "demo_open ''transfer'' ''e4'' w" and "node w = Some demo_node"
    and "db w = demo_conn [alice_row] [lapsed_row]"
  shows "status (fst (run (serve demo_libs demo_cfg rq_claim) w)) = CREATED"
    and "db (snd (run (serve demo_libs demo_cfg rq_claim) w)) =
      sold_conn\<lparr>tb_offers := [lapsed_row\<lparr>o_status := ''consumed''\<rparr>]\<rparr>"
proof -
  have now: "unix_now w = 1000" using assms(1) by (simp add: demo_open_def)
  obtain w2 where pro: "prologue demo_libs demo_cfg ''transfer'' (demo_headers 4) ''POST''
      ''/api/v1/transfer/claim'' (demo_body 4) w = Inr (key_b, w2)"
    using demo_logins(4) [OF assms(1)] by blast
  have asked: "claim_asked demo_libs demo_cfg (demo_headers 4) (demo_body 4) w key_b lapsed_row demo_proof"
    using pro assms(3) by (simp add: claim_asked_def demo_claim_request)
      (simp add: get_offer_row query_row_def demo_conn_def)
  have st: "settled lapsed_row w = lapsed_row" "snd (run (settle_expiry lapsed_row t) w) = w" for t
    by (simp_all add: settled_def settle_expiry_def)
  have inv: "db_inv (db w)" using assms(3) lapsed_sys_inv by (simp add: sys_inv_def)
  have io: "\<not> io_err (db w) k" for k using assms(3) by simp
  have ok: "claim_ok demo_libs demo_cfg key_b (settled lapsed_row w) demo_proof (unix_now w) w (Some 500)"
    unfolding st now by (rule lapsed_claim_ok(1) [OF assms(2,3)])
  note run = run_claim [OF inv io asked]
  show "status (fst (run (serve demo_libs demo_cfg rq_claim) w)) = CREATED"
    using run(1) ok by (auto simp: demo_served st)
  show "db (snd (run (serve demo_libs demo_cfg rq_claim) w)) =
      sold_conn\<lparr>tb_offers := [lapsed_row\<lparr>o_status := ''consumed''\<rparr>]\<rparr>"
    using run(2) [OF _ ok] lapsed_claim_ok(2) [OF assms(2,3)] by (simp add: demo_served st now assms(3))
qed

text \<open>
  C26. A revocation can undo the record of a sale. The seller's DELETE has read the offer as
  expired when the buyer's claim, still within the grace window, is served whole: 201, the
  buyer owns the name, the offer is consumed. The DELETE goes on, answers 200, and the
  consumed offer reads revoked: its update does not ask for the status again.
\<close>

theorem revoke_reopens_consumed_offer:
  "\<exists>w revoked claimed row.
     sys_inv demo_libs demo_cfg demo_chain (demo_world [alice_row] [lapsed_row]) \<and>
     reaches demo_libs demo_cfg demo_chain (demo_world [alice_row] [lapsed_row], [])
       (w, [Ret revoked, Ret claimed]) \<and>
     status claimed = CREATED \<and> status revoked = OK \<and>
     owned (db w) = [''alice'' \<mapsto> key_b] \<and>
     tb_transfers (db w) = [transfer_record demo_row excess_0 (Some 500) 1000] \<and>
     tb_offers (db w) = [row] \<and> o_offer_id row = offer_c \<and> o_status row = ''revoked''"
proof -
  let ?w = "demo_world [alice_row] [lapsed_row]"
  let ?rest = "act (db_execute (flip_to_revoked offer_c)) (\<lambda>_. Ret (revoked_response offer_c)) :: handler"
  obtain w1 where pro: "prologue demo_libs demo_cfg ''transfer'' (demo_headers 5) ''DELETE''
      (revoke_path offer_c) [] ?w = Inr (key_a, w1)"
    using demo_logins(5) [OF demo_open_start, of "''transfer''"] by blast
  have row: "o_offer_id lapsed_row = offer_c" "o_seller_pubkey lapsed_row = key_a"
    "o_status lapsed_row = ''expired''"
    by (simp_all add: lapsed_row_def)
  have "get_offer offer_c (db w1) = Some lapsed_row"
    using prologue_Inr(1) [OF pro] by (simp add: get_offer_row query_row_def row)
  then have "advance 2 (revoke_owned offer_c key_a) w1 = (w1, ?rest)"
    by (simp add: revoke_owned_def db_query_def row numeral_2_eq_2)
  moreover have "advance 5 (serve demo_libs demo_cfg rq_revoke) ?w = advance 2 (revoke_owned offer_c key_a) w1"
    unfolding demo_served revoke_offer_def by (rule advance_prologue [OF pro]) simp
  ultimately have stopped: "advance 5 (serve demo_libs demo_cfg rq_revoke) ?w = (w1, ?rest)" by simp
  have w1: "demo_open ''transfer'' ''e4'' w1" "node w1 = Some demo_node"
      "db w1 = demo_conn [alice_row] [lapsed_row]"
    using prologue_Inr(1,2) [OF pro] demo_open_next [OF pro demo_tokens(5), of "''e4''"] by simp_all
  let ?w2 = "snd (run (serve demo_libs demo_cfg rq_claim) w1)"
  have sold: "db ?w2 = sold_conn\<lparr>tb_offers := [lapsed_row\<lparr>o_status := ''consumed''\<rparr>]\<rparr>"
    by (rule lapsed_claimed(2) [OF w1])
  have reached: "reaches demo_libs demo_cfg demo_chain (?w, []) (snd (run ?rest ?w2),
      [Ret (fst (run ?rest ?w2)), Ret (fst (run (serve demo_libs demo_cfg rq_claim) w1))])"
    using reaches_overtaken [where L = demo_libs and cfg = demo_cfg and K = demo_chain and w = ?w
        and n = 5 and q = rq_revoke and q' = rq_claim]
    unfolding stopped by simp
  have flipped: "snd (flip_to_revoked offer_c (sold_conn\<lparr>tb_offers := [lapsed_row\<lparr>o_status := ''consumed''\<rparr>]\<rparr>)) =
      sold_conn\<lparr>tb_offers := [lapsed_row\<lparr>o_status := ''revoked''\<rparr>]\<rparr>"
    by (simp add: flip_to_revoked_def sold_conn_def update_rows_def row)
  have "owned (sold_conn\<lparr>tb_offers := rows\<rparr>) = [''alice'' \<mapsto> key_b]" for rows
    using sold_conn_facts(2) by (simp add: owned_def)
  then have "status (fst (run ?rest ?w2)) = OK \<and> owned (db (snd (run ?rest ?w2))) = [''alice'' \<mapsto> key_b] \<and>
      tb_transfers (db (snd (run ?rest ?w2))) = [transfer_record demo_row excess_0 (Some 500) 1000] \<and>
      tb_offers (db (snd (run ?rest ?w2))) = [lapsed_row\<lparr>o_status := ''revoked''\<rparr>]"
    by (simp add: sold flipped revoked_response_def) (simp add: sold_conn_def)
  moreover have "o_offer_id (lapsed_row\<lparr>o_status := ''revoked''\<rparr>) = offer_c"
    "o_status (lapsed_row\<lparr>o_status := ''revoked''\<rparr>) = ''revoked''"
    by (simp_all add: row)
  ultimately show ?thesis using lapsed_sys_inv reached lapsed_claimed(1) [OF w1] by blast
qed

section \<open>Lodge against lodge\<close>

definition second_terms :: lodged_terms where
  "second_terms = demo_terms\<lparr>lt_event := demo_offer\<lparr>ev_id := offer_d\<rparr>\<rparr>"

definition second_row :: offer_row where
  "second_row = demo_row\<lparr>o_offer_id := offer_d, o_event_json := offer_d\<rparr>"

abbreviation demo_insert :: "conn \<Rightarrow> (sql_error + nat) \<times> conn" where
  "demo_insert \<equiv> insert_offer offer_c offer_c ''alice'' key_a key_b 5 ''grin1a'' 2000 1000"

lemma demo_terms_fields:
  "lt_name demo_terms = ''alice''" "lt_proof_address demo_terms = ''grin1a''"
  "lt_event demo_terms = demo_offer" "lt_buyer demo_terms = key_b" "lt_price demo_terms = 5"
  "lt_expiration demo_terms = 2000" "cfg_transfer_max_offer_ttl demo_cfg = 2592000"
  "ev_pubkey demo_offer = key_a" "ev_id demo_offer = offer_c" "event_as_json demo_libs = ev_id"
  "u64_as_i64 5 = 5" "2000 \<le> wrap_i64 (1000 + 2592000)"
  by (simp_all add: demo_terms_def demo_offer_def demo_cfg_def u64_as_i64_def wrap_i64_id is_i64_def)
     (simp add: demo_libs_def)

lemma demo_lodge_stopped:
  obtains w1 k where "advance 7 (serve demo_libs demo_cfg rq_lodge) (demo_world [alice_row] []) =
      (w1, act (db_execute demo_insert) k)"
    and "db w1 = demo_conn [alice_row] []" and "unix_now w1 = 1000" and "demo_open ''transfer'' ''e6'' w1"
    and "\<And>n. \<exists>r. k (Inr n) = Ret r \<and> status r = CREATED"
proof -
  let ?w = "demo_world [alice_row] []"
  obtain w1 where pro: "prologue demo_libs demo_cfg ''transfer'' (demo_headers 3) ''POST''
      ''/api/v1/transfer/offer'' (demo_body 3) ?w = Inr (key_a, w1)"
    using demo_logins(3) [OF demo_open_start, of "''transfer''"] by blast
  have w1: "db w1 = demo_conn [alice_row] []" "unix_now w1 = 1000" "demo_open ''transfer'' ''e6'' w1"
    using prologue_Inr(1,3) [OF pro] demo_open_next [OF pro demo_tokens(3), of "''e6''"] by simp_all
  have free: "\<not> live_offer_for_name name now (demo_conn names [])"
    "\<not> live_offer_binding a now (demo_conn names [])" for name now a names
    by (simp_all add: live_offer_for_name_def live_offer_binding_def query_row_def)
  obtain k where k: "advance 4 (lodge_terms demo_libs demo_cfg demo_terms) w1 =
      (w1, act (db_execute demo_insert) k)"
    and answer: "\<And>n. \<exists>r. k (Inr n) = Ret r \<and> status r = CREATED"
    using demo_terms_fields(12)
    by (simp add: lodge_terms_def Let_def w1 demo_terms_fields db_query_def lookup_owned free
        eval_nat_numeral(2,3) numeral_eq_Suc)
  have "advance 7 (serve demo_libs demo_cfg rq_lodge) ?w =
      advance 4 (lodge_checked demo_libs demo_cfg (demo_body 3) key_a) w1"
    unfolding demo_served lodge_offer_def Let_def by (rule advance_prologue [OF pro]) simp
  then show ?thesis using that k w1 answer by (simp add: lodge_checked_def demo_check)
qed

lemma demo_second_lodged:
  assumes "db w = demo_conn [alice_row] []" and "unix_now w = 1000" and "demo_open ''transfer'' ''e6'' w"
  shows "status (fst (run (serve demo_libs demo_cfg rq_lodge2) w)) = CREATED"
    and "db (snd (run (serve demo_libs demo_cfg rq_lodge2) w)) = demo_conn [alice_row] [second_row]"
proof -
  have io: "\<not> io_err (db w) 0" by (simp add: assms(1))
  have asked: "lodge_asked demo_libs demo_cfg (demo_headers 6) (demo_body 6) w second_terms"
    unfolding lodge_asked_def second_terms_def using demo_logins(6) [OF assms(3)] demo_check(2) by blast
  have ok: "lodge_ok demo_cfg second_terms w"
    using demo_terms_fields(12) by (simp add: lodge_ok_def second_terms_def assms(1,2) demo_terms_fields)
  have row: "lodged_row demo_libs second_terms 1000 = second_row"
    by (simp add: lodged_row_def second_terms_def demo_terms_fields)
       (simp add: second_row_def demo_row_def demo_offer_def)
  show "status (fst (run (serve demo_libs demo_cfg rq_lodge2) w)) = CREATED"
    using run_lodge(1) [OF io asked] ok by (simp add: demo_served)
  show "db (snd (run (serve demo_libs demo_cfg rq_lodge2) w)) = demo_conn [alice_row] [second_row]"
    using run_lodge(2) [OF io asked] ok by (simp add: demo_served assms(1,2) row) (simp add: demo_conn_def)
qed

text \<open>
  C27. Two concurrent lodgings leave two live offers for one name and one payment address:
  both have found none when the first is overtaken by the second, both answer 201.
\<close>

theorem lodge_race_two_live_offers:
  "\<exists>w first second.
     sys_inv demo_libs demo_cfg demo_chain (demo_world [alice_row] []) \<and>
     reaches demo_libs demo_cfg demo_chain (demo_world [alice_row] [], [])
       (w, [Ret first, Ret second]) \<and>
     status first = CREATED \<and> status second = CREATED \<and>
     tb_offers (db w) = [demo_row\<lparr>o_offer_id := offer_d, o_event_json := offer_d\<rparr>, demo_row] \<and>
     \<not> live_unique 1000 (tb_offers (db w))"
proof -
  let ?w = "demo_world [alice_row] []"
  obtain w1 k where stopped: "advance 7 (serve demo_libs demo_cfg rq_lodge) ?w =
      (w1, act (db_execute demo_insert) k)"
    and w1: "db w1 = demo_conn [alice_row] []" "unix_now w1 = 1000" "demo_open ''transfer'' ''e6'' w1"
    and answer: "\<And>n. \<exists>r. k (Inr n) = Ret r \<and> status r = CREATED"
    using demo_lodge_stopped by metis
  let ?w2 = "snd (run (serve demo_libs demo_cfg rq_lodge2) w1)"
  note second = demo_second_lodged [OF w1]
  have "offer_c \<noteq> offer_d" by (simp add: offer_c_def offer_d_def)
  then have "demo_insert (demo_conn [alice_row] [second_row]) = (Inr 1, demo_conn [alice_row] [second_row, demo_row])"
    by (simp add: insert_offer_def second_row_def) (simp add: demo_conn_def demo_row_def)
  then have first: "status (fst (run (act (db_execute demo_insert) k) ?w2)) = CREATED"
    "db (snd (run (act (db_execute demo_insert) k) ?w2)) = demo_conn [alice_row] [second_row, demo_row]"
    using answer [of 1] by (auto simp: second)
  have reached: "reaches demo_libs demo_cfg demo_chain (?w, []) (snd (run (act (db_execute demo_insert) k) ?w2),
      [Ret (fst (run (act (db_execute demo_insert) k) ?w2)), Ret (fst (run (serve demo_libs demo_cfg rq_lodge2) w1))])"
    using reaches_overtaken [where L = demo_libs and cfg = demo_cfg and K = demo_chain and w = ?w
        and n = 7 and q = rq_lodge and q' = rq_lodge2]
    unfolding stopped by simp
  have "\<not> live_unique 1000 [second_row, demo_row]"
    using \<open>offer_c \<noteq> offer_d\<close> by (auto simp: live_unique_def offer_live_def second_row_def demo_row_def)
  then show ?thesis
    using demo_sys_inv(2) reached second(1) first by (metis demo_conn_tables(2) second_row_def)
qed

end
