(* ===== verification/Authority.thy ===== *)
theory Authority
  imports Example Races
begin

text \<open>
  Who may change what. Each step of each interleaving that changes the owner of a name has
  its authority: a request signed by the key that registers, releases or claims, and for a
  claim the offer its seller signed.
\<close>

section \<open>The owner of one name across a step\<close>

text \<open>A step changes the owner of a name in one of three ways, each with its signature.\<close>

definition registered_by :: "libs \<Rightarrow> config \<Rightarrow> string \<Rightarrow> string \<Rightarrow> bool" where
  "registered_by L cfg name k \<longleftrightarrow>
     (\<exists>body req_name req_key. signed_request L cfg k ''POST'' ''/api/v1/register'' body \<and>
        register_body_from_slice L body = Some (req_name, req_key) \<and>
        name = to_lowercase (unicode_lower L) req_name \<and> name_allowed cfg name)"

definition sold_by :: "libs \<Rightarrow> config \<Rightarrow> string \<Rightarrow> string \<Rightarrow> string \<Rightarrow> bool" where
  "sold_by L cfg name k k' \<longleftrightarrow>
     (\<exists>body e row. signed_request L cfg k' ''POST'' ''/api/v1/transfer/claim'' body \<and>
        offer_of_event L cfg e row \<and> ev_pubkey e = k \<and> o_name row = name \<and> o_buyer_pubkey row = k')"

lemma db_step_authority:
  assumes step: "db_step L cfg K c c'" and inv: "db_inv c" "justified_inv L cfg K c"
    and moved: "owned c' name \<noteq> owned c name"
  shows "case (owned c name, owned c' name) of
      (None, Some k) \<Rightarrow> registered_by L cfg name k
    | (Some k, None) \<Rightarrow> \<exists>k'. signed_request L cfg k' ''DELETE'' (unregister_path name) []
    | (Some k, Some k') \<Rightarrow> sold_by L cfg name k k'
    | (None, None) \<Rightarrow> False"
  using step
proof (cases rule: db_step.cases)
  case (registers n key body req_name req_key t)
  have "fst (register_name n key t c) = Inr 1"
    using db.register_not_done [of n key t c] registers(1) moved by metis
  note registered = db.register_done [OF inv(1) this]
  then have "n = name" "owned c name = None" "owned c' name = Some key"
    using registers(1) moved by (auto split: if_splits)
  then show ?thesis using registers(2-) by (auto simp: registered_by_def)
next
  case (releases key n t)
  obtain m where "fst (release_name n t c) = Inr m"
    using db.release_failed [of n t c] releases(1) moved by (cases "fst (release_name n t c)") auto
  then have "n = name" "owned c' name = None"
    using db.release_done [OF inv(1), of n t] releases(1) moved by (auto split: if_splits)
  then show ?thesis using releases(2) moved by (auto split: option.split)
next
  case (claims row offer body ex kh t)
  let ?order = "(offer, ex, kh, t)"
  have "fst (execute_claim ?order c) = Inr ()"
    using db.transfer_failed [of ?order c] claims(1) moved
    by (cases "fst (execute_claim ?order c)") (auto simp: execute_claim_def)
  note sale = db.transfer_done [OF inv(1) this]
  then have name: "name = o_name offer" "owned c name = Some (o_seller_pubkey offer)"
    "owned c' name = Some (o_buyer_pubkey offer)"
    using claims(1) moved by (auto simp: execute_claim_def order_offer_def split: if_splits)
  obtain e where "offer_of_event L cfg e row"
    using inv(2) claims(2) by (auto simp: justified_inv_def offer_authentic_def)
  then have "sold_by L cfg name (o_seller_pubkey offer) (o_buyer_pubkey offer)"
    using claims(3,4) unfolding sold_by_def name(1) terms_eq_iff
    by (intro exI [of _ body] exI [of _ e] exI [of _ row]) (auto simp: offer_of_event_def)
  then show ?thesis using name by simp
qed (use moved in \<open>simp_all add: owned_def insert_offer_frame mark_offer_dead_frame flip_to_revoked_frame\<close>)

text \<open>A step that records a transfer passes the name on.\<close>

lemma db_step_recorded:
  assumes step: "db_step L cfg K c c'" and inv: "db_inv c"
    and new: "t \<in> set (tb_transfers c')" "t \<notin> set (tb_transfers c)"
  shows "owned c (t_name t) = Some (t_seller_pubkey t) \<and> owned c' (t_name t) = Some (t_buyer_pubkey t)"
  using step
proof (cases rule: db_step.cases)
  case (claims row offer body ex kh now)
  have ok: "fst (run_claim_txn offer ex kh now c) = Inr ()"
    using run_claim_txn_failed [of offer ex kh now c] claims(1) new
    by (cases "fst (run_claim_txn offer ex kh now c)") auto
  then have "t = transfer_record offer ex kh now"
    using new run_claim_txn_done(4) [OF ok] claims(1) by auto
  then show ?thesis
    using run_claim_txn_names(1,4) [OF ok db_inv_names [OF inv]] claims(1)
    by (simp add: transfer_record_def)
qed (use new in \<open>simp_all add: register_name_frame release_name_frame insert_offer_frame
      mark_offer_dead_frame flip_to_revoked_frame\<close>)

text \<open>
  C4. Nobody's name changes hands without a signature. Whenever a step of any interleaving
  changes the owner of a name: if the name was free, its new owner signed a registration
  request whose body asks for this name, and the name is lawful and not reserved; if it
  becomes free, some key signed the request to release this name (C25 shows that this need
  not be its owner of that moment); if it passes from one key to another, the new owner
  signed a claim, and the old owner signed an offer event that sells this name to this buyer.
\<close>

theorem ownership_authorised:
  assumes "sys_inv L cfg K w0" and "reaches L cfg K (w0, []) (w, ps)"
    and "sched (environment K) (request_handler L cfg) (w, ps) (w', ps')"
    and "owned (db w') name \<noteq> owned (db w) name"
  shows "case (owned (db w) name, owned (db w') name) of
      (None, Some k) \<Rightarrow> registered_by L cfg name k
    | (Some k, None) \<Rightarrow> \<exists>k'. signed_request L cfg k' ''DELETE'' (unregister_path name) []
    | (Some k, Some k') \<Rightarrow> sold_by L cfg name k k'
    | (None, None) \<Rightarrow> False"
proof -
  have inv: "db_inv (db w)" "justified_inv L cfg K (db w)"
    using service.reached_invariant [OF assms(2,1)] by (simp_all add: sys_inv_def)
  have "handler_step L cfg K w w'"
    using service.reached_step [OF assms(2,1,3)] assms(4) by (auto simp: environment_def owned_def)
  then have "db_step L cfg K (db w) (db w')" by (simp add: handler_step_def)
  then show ?thesis by (rule db_step_authority [OF _ inv assms(4)])
qed

theorem ownership_authorised_witness:
  "sold_by demo_libs demo_cfg ''alice'' key_a key_b"
proof -
  obtain w1 k where reached: "reaches demo_libs demo_cfg demo_chain (demo_world [alice_row] [demo_row], [])
      (w1, [act demo_sale k])"
    and w1: "db w1 = demo_conn [alice_row] [demo_row]" and sold: "db (snd (demo_sale w1)) = sold_conn"
    by (rule demo_claim_committing)
  have before: "owned (db w1) ''alice'' = Some key_a" by (simp add: w1)
  have after: "owned (db (snd (demo_sale w1))) ''alice'' = Some key_b"
    unfolding sold sold_conn_facts(2) by simp
  have moved: "owned (db (snd (demo_sale w1))) ''alice'' \<noteq> owned (db w1) ''alice''"
    unfolding before after by simp
  show ?thesis
    using ownership_authorised [OF demo_sys_inv(3) reached sched_act moved] unfolding before after by simp
qed

end
