(* ===== verification/Write_Errors.thy ===== *)
theory Write_Errors
  imports Example Races
begin

text \<open>
  Statements whose failure the handlers ignore. \<open>settle_expiry\<close> and \<open>revoke_offer\<close> drop
  the result of the UPDATE that ends an offer (\<open>let _ = ...\<close>) and go on as if it had been
  done. The traces let exactly this one statement fail.
\<close>

section \<open>One failing statement\<close>







section \<open>An expired offer is sold\<close>

definition late_row :: offer_row where
  "late_row = demo_row\<lparr>o_expiration := 995\<rparr>"

lemma late_row_fields [simp]:
  "o_offer_id late_row = offer_c" "o_name late_row = ''alice''" "o_seller_pubkey late_row = key_a"
  "o_buyer_pubkey late_row = key_b" "o_status late_row = ''live''" "o_expiration late_row = 995"
  by (simp_all add: late_row_def)






section \<open>A revoked offer is sold\<close>


section \<open>Neither failure is noticed\<close>


end
