(* ===== verification/Parts.thy ===== *)
theory Parts
  imports Example
begin

text \<open>
  What the parts of the service promise on their own: the limiter, payment messages
  and proofs, and the node client.
\<close>

section \<open>The limiter\<close>



lemma crowd_lookup: "Mapping.lookup_default [] (Mapping.tabulate ks (\<lambda>_. [])) k = ([] :: nat list)"
proof -
  have "map_of (map (\<lambda>k. (k, [] :: nat list)) ks) k \<in> {None, Some []}" by (induction ks) auto
  then show ?thesis
    unfolding Mapping.lookup_default_def
    by (auto simp: Mapping.lookup.rep_eq Mapping.tabulate.rep_eq split: option.split)
qed

text \<open>
  C34. The memory bound costs the longer windows: with more than 50,000 keys on record, one
  admitted read drops the name-change cooldown of a key whose release is older than the read
  window but younger than the cooldown, so that the key may register again at once.
\<close>

theorem cleanup_drops_cooldown:
  assumes "cfg_read_rate_window cfg \<le> d" and "d < cfg_name_change_cooldown cfg" and "d \<le> instant w"
    and "0 < cfg_read_rate_max cfg"
  shows "cooling_down cfg key (crowded (bucket_key ''namechange'' key) (instant w - d) w) \<and>
    \<not> cooling_down cfg key
      (snd (allow_read cfg ip (crowded (bucket_key ''namechange'' key) (instant w - d) w)))"
proof
  let ?k = "bucket_key ''namechange'' key"
  have "instant (crowded ?k (instant w - d) w) = instant w" by (simp add: crowded_def)
  moreover have "Mapping.lookup (rate (crowded ?k (instant w - d) w)) ?k = Some [instant w - d]"
    by (simp add: crowded_def)
  ultimately show "cooling_down cfg key (crowded ?k (instant w - d) w)"
    using assms(2,3) by (simp add: cooling_down_def)
  have other: "bucket_key ''read'' ip \<noteq> ?k" by (simp add: bucket_key_def)
  have "hits_of (crowded ?k (instant w - d) w) (bucket_key ''read'' ip) = []"
    using other by (simp add: crowded_def lookup_default_update' crowd_lookup)
  then have "length (retain (instant w) (cfg_read_rate_window cfg)
      (hits_of (crowded ?k (instant w - d) w) (bucket_key ''read'' ip))) < cfg_read_rate_max cfg"
    using assms(4) by (simp add: retain_def)
  then have "Mapping.lookup (rate (snd (allow_read cfg ip (crowded ?k (instant w - d) w)))) ?k = None"
    unfolding allow_read_def using cleanup_forgets [OF other] assms(1,3) by simp
  then show "\<not> cooling_down cfg key (snd (allow_read cfg ip (crowded ?k (instant w - d) w)))"
    by (simp add: cooling_down_def)
qed

theorem cleanup_drops_cooldown_witness:
  "\<not> cooling_down demo_cfg key_a (snd (allow_read demo_cfg ''1.2.3.4''
     (crowded (bucket_key ''namechange'' key_a) 900000000000 (demo_world [] []))))"
proof -
  have time: "instant (demo_world [] []) = 1000000000000" by (simp add: demo_world_def open_with_node_def)
  have cfg: "cfg_read_rate_window demo_cfg \<le> 100000000000"
    "100000000000 < cfg_name_change_cooldown demo_cfg" "0 < cfg_read_rate_max demo_cfg"
    by (simp_all add: demo_cfg_def from_secs_def)
  show ?thesis
    using cleanup_drops_cooldown [OF cfg(1,2) _ cfg(3), of "demo_world [] []" key_a "''1.2.3.4''"]
    by (simp add: time)
qed

section \<open>Payment proofs\<close>

text \<open>
  C35. The 73 signed bytes determine what they are about: amount, kernel excess (as bytes)
  and sender key. A signature over the message of one proof therefore serves no other amount,
  kernel or sender; and the message is the amount's eight bytes, most significant first, the
  33 bytes of the excess and the 32 of the key.
\<close>

theorem payment_message_determines:
  assumes "payment_proof_message L a ex s = Some msg" and "length s = 32"
  shows "length msg = 73 \<and>
    (\<forall>i < 8. uint (msg ! i) = uint a div 256 ^ (7 - i) mod 256) \<and>
    hex_decode L ex = Some (take 33 (drop 8 msg)) \<and> s = drop 41 msg \<and>
    (\<forall>a' ex' s'. payment_proof_message L a' ex' s' = Some msg \<longrightarrow>
       a' = a \<and> hex_decode L ex' = hex_decode L ex \<and> s' = s)"
proof -
  obtain bs where bs: "hex_decode L ex = Some bs" "length bs = 33" "msg = amount_to_be_u64 a @ bs @ s"
    using assms(1) by (auto simp: payment_proof_message_Some)
  have "uint (msg ! i) = uint a div 256 ^ (7 - i) mod 256" if "i < 8" for i
    using uint_amount_to_be_u64 [OF that, of a] that by (simp add: bs(3) nth_append)
  moreover have "a' = a \<and> hex_decode L ex' = hex_decode L ex \<and> s' = s"
    if "payment_proof_message L a' ex' s' = Some msg" for a' ex' s'
    using payment_proof_message_binds [OF that assms(1)] .
  moreover have "length msg = 73" "take 33 (drop 8 msg) = bs" "drop 41 msg = s"
    using bs(2) assms(2) by (simp_all add: bs(3))
  ultimately show ?thesis using bs(1) by blast
qed

theorem payment_message_determines_witness:
  "\<exists>msg. payment_proof_message demo_libs 258 excess_0 (replicate 32 1) = Some msg \<and>
     uint (msg ! 6) = 1 \<and> uint (msg ! 7) = 2"
proof -
  obtain msg where msg: "payment_proof_message demo_libs 258 excess_0 (replicate 32 1) = Some msg"
    by (simp add: payment_proof_message_def demo_libs_def excess_0_def)
  have "uint (msg ! 6) = uint (258 :: u64) div 256 ^ (7 - 6) mod 256"
    "uint (msg ! 7) = uint (258 :: u64) div 256 ^ (7 - 7) mod 256"
    using payment_message_determines [OF msg] by simp_all
  then show ?thesis using msg by simp
qed

text \<open>
  C36. A proof printed in the wallet's export shape, the amount as a decimal string, is parsed
  back to itself, whatever else the JSON object holds behind the six fields.
\<close>

theorem proof_roundtrip:
  assumes "lowercase_hex (pp_excess_hex p)" and "lowercase_hex (pp_recipient_sig_hex p)"
    and "lowercase_hex (pp_sender_sig_hex p)"
    and "proof_to_json p = JObject fs"
  shows "parse_payment_proof L (JObject (fs @ rest)) = Some p"
  using parse_proof_to_json [OF assms(1-3), of L] unfolding assms(4)
  by (auto simp: parse_payment_proof_Some map_add_Some_iff)

theorem proof_roundtrip_witness:
  "\<exists>fs. parse_payment_proof demo_libs (JObject (fs @ [(''note'', JNull)])) = Some demo_proof"
proof -
  obtain fs where "proof_to_json demo_proof = JObject fs" by (simp add: proof_to_json_def)
  moreover have "lowercase_hex (pp_excess_hex demo_proof)" "lowercase_hex (pp_recipient_sig_hex demo_proof)"
    "lowercase_hex (pp_sender_sig_hex demo_proof)"
    by (simp_all add: demo_proof_def demo_lowercase_hex)
  ultimately show ?thesis using proof_roundtrip by blast
qed

section \<open>The node\<close>

text \<open>
  The node client fails over: a kernel lookup returns what the first endpoint that
  answers says, and fails exactly when no endpoint answers; the tip is that of the first
  endpoint that gives a height; and whatever it returns, a kernel that was not found has no
  confirmations and no height, and one that was found has at least one confirmation.
\<close>

lemma node_fails_over:
  "(cs_kernel (node_client L T endpoints) ex = Inr k \<longleftrightarrow>
     (\<exists>b. List.find (\<lambda>b. \<not> isl (kernel_one L T b ex)) endpoints = Some b \<and> kernel_one L T b ex = Inr k)) \<and>
   (isl (cs_kernel (node_client L T endpoints) ex) \<longleftrightarrow> list_all (\<lambda>b. isl (kernel_one L T b ex)) endpoints) \<and>
   (cs_tip_height (node_client L T endpoints) = Inr h \<longleftrightarrow>
     (\<exists>b. List.find (\<lambda>b. tip_at L T b \<noteq> None) endpoints = Some b \<and> tip_at L T b = Some h)) \<and>
   (case cs_kernel (node_client L T endpoints) ex of
      Inl _ \<Rightarrow> True
    | Inr r \<Rightarrow> if k_found r then 1 \<le> k_confirmations r else r = kernel_not_found)"
proof -
  have "if k_found r then 1 \<le> k_confirmations r else r = kernel_not_found"
    if "cs_kernel (node_client L T endpoints) ex = Inr r" for r
    using that kernel_one_confirmations kernel_one_absent
    by (auto simp: node_client_def kernel_loop_Inr)
  then show ?thesis
    by (auto simp: node_client_def kernel_loop_Inr kernel_loop_isl tip_loop_Inr list_all_iff
        split: sum.split)
qed

lemma unat_confirmations:
  assumes "h \<noteq> 0 \<or> t \<noteq> - 1"
  shows "unat (confirmations_at t h) = (if h \<le> t then unat t - unat h + 1 else 1)"
proof (cases "h \<le> t")
  case True
  have top: "unat t < 2 ^ 64" using unsigned_less [of t] by simp
  have "unat t - unat h < 2 ^ 64 - 1"
  proof (cases "h = 0")
    case True
    then have "unat t \<noteq> unat (- 1 :: u64)" using assms word_unat_eq_iff by blast
    moreover have "unat (- 1 :: u64) = 2 ^ 64 - 1"
      by (simp add: unsigned_minus_1_eq_mask mask_eq_exp_minus_1)
    ultimately show ?thesis using True top by simp
  next
    case False
    then have "0 < unat h" by (simp add: unat_gt_0)
    then show ?thesis using top by simp
  qed
  then show ?thesis using unat_confirmations_at [OF True] True by simp
next
  case False
  then show ?thesis by (simp add: confirmations_at_def)
qed

text \<open>
  C37. The depth of a payment's kernel is counted right, end to end: when the endpoints before
  \<open>b\<close> fail and \<open>b\<close> answers the two calls with success and with a kernel at height \<open>h\<close>
  and a tip at height \<open>t\<close>, each in the \<open>Ok\<close> envelope, the client reports the kernel found
  at \<open>h\<close> with \<open>t - h + 1\<close> confirmations, as a number and without overflow for all heights
  but the two extremes together; a kernel above the tip, which a node that is behind reports,
  counts as one confirmation.
\<close>

theorem confirmations_counted:
  assumes "list_all (\<lambda>d. isl (kernel_one L T d ex)) dead"
    and "T b ''get_kernel'' (JArray [JString ex, JNull, JNull]) = Reply 200 rt (Inr (JObject
      [(''result'', JObject [(''Ok'', JArray [printable, JNumber (PosInt h), index])])]))"
    and "T b ''get_tip'' (JArray []) = Reply 200 rt' (Inr (JObject
      [(''result'', JObject [(''Ok'', JObject [(''height'', JNumber (PosInt t))])])]))"
    and "h \<noteq> 0 \<or> t \<noteq> - 1"
  shows "\<exists>c. cs_kernel (node_client L T (dead @ b # rest)) ex =
      Inr \<lparr>k_found = True, k_confirmations = c, k_height = Some h\<rparr> \<and>
    unat c = (if h \<le> t then unat t - unat h + 1 else 1)"
proof -
  have "kernel_one L T b ex =
      Inr \<lparr>k_found = True, k_confirmations = confirmations_at t h, k_height = Some h\<rparr>"
    using assms(2,3) by (simp add: kernel_one_def rpc_def unwrap_result_def)
  moreover have "List.find (\<lambda>b. \<not> isl (kernel_one L T b ex)) (dead @ b # rest) = Some b"
    if "\<not> isl (kernel_one L T b ex)"
    using assms(1) that by (induction dead) auto
  ultimately show ?thesis
    using unat_confirmations [OF assms(4)] by (auto simp: node_client_def kernel_loop_Inr)
qed

definition two_nodes :: transport where
  "two_nodes b meth params =
     (if b = ''http://a'' then TransportError ''refused''
      else if meth = ''get_tip''
      then Reply 200 ''200 OK'' (Inr (JObject [(''result'', JObject [(''Ok'', JObject [(''height'', JNumber (PosInt 519))])])]))
      else Reply 200 ''200 OK'' (Inr (JObject [(''result'', JObject [(''Ok'', JArray [JNull, JNumber (PosInt 500), JNull])])])))"

theorem confirmations_counted_witness:
  "\<exists>c. cs_kernel (node_client demo_libs two_nodes [''http://a'', ''http://b'']) excess_0 =
      Inr \<lparr>k_found = True, k_confirmations = c, k_height = Some 500\<rparr> \<and> unat c = 20"
proof -
  have dead: "list_all (\<lambda>d. isl (kernel_one demo_libs two_nodes d excess_0)) [''http://a'']"
    by (simp add: kernel_one_def rpc_def two_nodes_def)
  show ?thesis
    using confirmations_counted [OF dead, of "''http://b''" "''200 OK''" JNull 500 JNull "''200 OK''" 519 "[]"]
    by (simp add: two_nodes_def)
qed

end
