(* ===== verification/Startup.thy ===== *)
theory Startup
  imports Example
begin

text \<open>
  Names, the configuration, and the start of the process: the grammar of names, what the
  reserved list keeps back, what a configuration read from the environment guarantees, and
  what processes started from it one after the other, on one database, keep.
\<close>

section \<open>Names\<close>

lemma ok_char_listed:
  "ok_char c \<longleftrightarrow> c \<in> set ''abcdefghijklmnopqrstuvwxyz0123456789._-''"
proof -
  have "list_all (\<lambda>c. ok_char c \<longleftrightarrow> c \<in> set ''abcdefghijklmnopqrstuvwxyz0123456789._-'') Enum.enum"
    by code_simp
  then show ?thesis by (simp add: list_all_iff enum_UNIV)
qed

lemma ok_char_alnum:
  "ok_char c \<Longrightarrow> (is_ascii_lowercase c \<or> is_ascii_digit c) \<longleftrightarrow> c \<notin> set ''._-''"
  by (auto simp: ok_char_def str_defs)

text \<open>
  With a positive minimum length the check of a name never panics and accepts exactly
  the documented grammar: length within the bounds, characters \<open>[a-z0-9._-]\<close>, first and
  last of them alphanumeric. With the minimum 0 and an empty name it panics.
\<close>

lemma name_grammar:
  assumes "1 \<le> name_min"
  shows "valid_name_checked name name_min name_max =
      Some (name_min \<le> length name \<and> length name \<le> name_max \<and>
        list_all (\<lambda>c. c \<in> set ''abcdefghijklmnopqrstuvwxyz0123456789._-'') name \<and>
        hd name \<notin> set ''._-'' \<and> last name \<notin> set ''._-'') \<and>
    valid_name_checked [] 0 name_max = None"
proof
  show "valid_name_checked name name_min name_max =
      Some (name_min \<le> length name \<and> length name \<le> name_max \<and>
        list_all (\<lambda>c. c \<in> set ''abcdefghijklmnopqrstuvwxyz0123456789._-'') name \<and>
        hd name \<notin> set ''._-'' \<and> last name \<notin> set ''._-'')"
    unfolding ok_char_listed [symmetric]
  proof (cases "list_all ok_char name \<and> name \<noteq> []")
    case True
    then have "ok_char (hd name)" "ok_char (last name)" by (auto simp: list_all_iff)
    moreover have "char_count name = length name"
      using True by (intro char_count_ascii ok_name_ascii) simp
    ultimately show "valid_name_checked name name_min name_max =
      Some (name_min \<le> length name \<and> length name \<le> name_max \<and> list_all ok_char name \<and>
        hd name \<notin> set ''._-'' \<and> last name \<notin> set ''._-'')"
      using True by (auto simp: valid_name_checked_def Let_def ok_char_alnum)
  next
    case False
    then show "valid_name_checked name name_min name_max =
      Some (name_min \<le> length name \<and> length name \<le> name_max \<and> list_all ok_char name \<and>
        hd name \<notin> set ''._-'' \<and> last name \<notin> set ''._-'')"
      using assms by (auto simp: valid_name_checked_def Let_def char_count_def)
  qed
qed (simp add: valid_name_checked_def char_count_def)

lemma map_filter_if:
  "List.map_filter (\<lambda>x. if P x then None else Some (f x)) xs = map f (filter (\<lambda>x. \<not> P x) xs)"
  by (induction xs) (simp_all add: map_filter_simps)

lemma fold_char_table:
  "fold_char c = (if c \<in> set ''._-'' then None
     else Some (case map_of (zip ''01345789'' ''oieastbg'') c of Some l \<Rightarrow> l | None \<Rightarrow> c))"
  by (simp add: fold_char_def)

text \<open>
  C38. A name is reserved exactly when, digits read as the letters they look like and
  separators dropped, it equals a reserved term read the same way. With the operator's
  domain \<open>l1.l2...tld\<close> among the extra terms no look-alike of any of its labels but the
  last is free.
\<close>

theorem lookalikes_reserved:
  assumes "ls \<noteq> []" and "list_all is_label ls"
    and "set (domain_reserved ul (join (CHR ''.'') ls)) \<subseteq> set extra"
  shows "(is_reserved name extra \<longleftrightarrow>
      (\<exists>r \<in> set RESERVED \<union> set extra. fold_lookalike name = fold_lookalike r)) \<and>
    fold_lookalike name =
      map (\<lambda>c. case map_of (zip ''01345789'' ''oieastbg'') c of Some l \<Rightarrow> l | None \<Rightarrow> c)
        (filter (\<lambda>c. c \<notin> set ''._-'') name) \<and>
    (\<forall>l \<in> set (if length ls > 1 then butlast ls else ls).
       fold_lookalike name = fold_lookalike (map to_ascii_lowercase l) \<longrightarrow> is_reserved name extra)"
proof -
  have iff: "is_reserved name extra \<longleftrightarrow>
      (\<exists>r \<in> set RESERVED \<union> set extra. fold_lookalike name = fold_lookalike r)"
    unfolding is_reserved_iff by blast
  have "map to_ascii_lowercase l \<in> set extra" if "l \<in> set (if length ls > 1 then butlast ls else ls)" for l
    using assms(3) that unfolding domain_reserved_join [OF assms(1,2)] by auto
  moreover have "fold_lookalike name =
      map (\<lambda>c. case map_of (zip ''01345789'' ''oieastbg'') c of Some l \<Rightarrow> l | None \<Rightarrow> c)
        (filter (\<lambda>c. c \<notin> set ''._-'') name)"
    unfolding fold_lookalike_def fold_char_table map_filter_if by (rule refl)
  ultimately show ?thesis unfolding iff by blast
qed

theorem lookalikes_reserved_witness:
  "is_reserved ''g-0b.l1n'' (domain_reserved (\<lambda>s. s) ''goblin.st'')"
proof -
  have labels: "list_all is_label [''goblin'', ''st'']"
    by (simp add: is_label_def label_char_def is_graphic_def)
  have folded: "fold_lookalike ''g-0b.l1n'' = fold_lookalike (map to_ascii_lowercase ''goblin'')"
    by code_simp
  have "set (domain_reserved (\<lambda>s. s) (join (CHR ''.'') [''goblin'', ''st''])) \<subseteq>
      set (domain_reserved (\<lambda>s. s) ''goblin.st'')" by simp
  note all = conjunct2 [OF conjunct2 [OF lookalikes_reserved [OF list.distinct(2) labels this]], of "''g-0b.l1n''"]
  show ?thesis using bspec [OF all, of "''goblin''"] folded by (simp del: list.map)
qed

section \<open>The configuration\<close>

lemma takeWhile_twice: "takeWhile Q (takeWhile P s) = takeWhile (\<lambda>c. P c \<and> Q c) s"
  by (induction s) auto

text \<open>What the host of an accepted base URL looks like.\<close>

lemma host_split:
  assumes "hd (split_by (\<lambda>c. c = CHR '':'') (hd (split_by (\<lambda>c. c = CHR ''/'') host))) = domain"
  obtains rest where "host = domain @ rest" "rest = [] \<or> hd rest = CHR '':'' \<or> hd rest = CHR ''/''"
    "CHR '':'' \<notin> set domain" "CHR ''/'' \<notin> set domain"
proof -
  let ?P = "\<lambda>c. c \<noteq> CHR ''/'' \<and> c \<noteq> CHR '':''"
  have "domain = takeWhile ?P host"
    using assms by (simp add: hd_split_by takeWhile_twice)
  moreover have "dropWhile ?P host = [] \<or> \<not> ?P (hd (dropWhile ?P host))"
    using hd_dropWhile by blast
  ultimately show ?thesis
    by (intro that [of "dropWhile ?P host"]) (auto dest: set_takeWhileD)
qed

lemma validate_Inr:
  "validate cfg = Inr u \<longleftrightarrow> cfg_domain cfg \<noteq> [] \<and>
     (\<exists>host. cfg_base_url cfg = ''https://'' @ host \<and> host \<noteq> [] \<and>
        hd (split_by (\<lambda>c. c = CHR '':'') (hd (split_by (\<lambda>c. c = CHR ''/'') host))) = cfg_domain cfg) \<and>
     1 \<le> cfg_name_min cfg \<and> cfg_name_min cfg \<le> cfg_name_max cfg \<and>
     \<not> (cfg_allow_transfers cfg \<and> cfg_grin_node_url cfg = None)"
proof (cases "strip_prefix ''https://'' (cfg_base_url cfg)")
  case None
  then have "cfg_base_url cfg \<noteq> ''https://'' @ host" for host by (metis option.distinct(1) strip_prefix_append)
  with None show ?thesis by (auto simp: validate_def simp del: strip_prefix_Some)
next
  case (Some host)
  then have url: "cfg_base_url cfg = ''https://'' @ host" by simp
  show ?thesis
    unfolding validate_def url strip_prefix_append option.case by (simp add: Let_def not_less)
qed

lemma read_env_reserved:
  assumes "read_env L E F = Inr cfg"
  shows "set (domain_reserved (unicode_lower L) (cfg_domain cfg)) \<subseteq> set (cfg_extra_reserved cfg)"
    and "cfg_grin_node_url cfg \<noteq> Some []"
  using assms
  by (auto simp: read_env_def Let_def map_sum_def split: sum.splits option.splits if_splits)

text \<open>The start with transfers switched on and a node URL made of separators.\<close>

definition comma_env :: env where
  "comma_env = [''GOBLIN_ALLOW_TRANSFERS'' \<mapsto> ''on'', ''GOBLIN_GRIN_NODE_URL'' \<mapsto> '','']"

lemma env_bool_on: "env_bool L comma_env ''GOBLIN_ALLOW_TRANSFERS'' False"
proof -
  have "to_lowercase (unicode_lower L) (trim ''on'') = map to_ascii_lowercase ''on''"
    by (subst trim_graphic) (simp_all add: is_graphic_def to_lowercase_ascii is_ascii_def del: list.map)
  also have "\<dots> = ''on''" by code_simp
  finally show ?thesis by (simp add: env_bool_def comma_env_def)
qed

lemma comma_started:
  obtains cfg where "from_env L comma_env F = Inr cfg" "cfg_domain cfg = ''goblin.st''"
    "cfg_base_url cfg = ''https://goblin.st''" "cfg_name_min cfg = 3" "cfg_name_max cfg = 20"
    "cfg_allow_transfers cfg" "cfg_grin_node_url cfg = Some '',''"
proof -
  obtain cfg where cfg: "read_env L comma_env F = Inr cfg" "cfg_domain cfg = ''goblin.st''"
    "cfg_base_url cfg = ''https://goblin.st''" "cfg_name_min cfg = 3" "cfg_name_max cfg = 20"
    "cfg_allow_transfers cfg" "cfg_grin_node_url cfg = Some '',''"
    using env_bool_on [of L]
    by (simp add: read_env_def Let_def env_string_def env_parse_def)
       (simp add: comma_env_def trim_graphic is_graphic_def env_string_def env_parse_def)
  have "validate cfg = Inr ()" unfolding validate_Inr cfg by simp
  then have "from_env L comma_env F = Inr cfg" by (simp add: from_env_def cfg(1))
  then show ?thesis using cfg(2-7) by (rule that)
qed

text \<open>
  C39. A configuration that the process starts with has a domain; its base URL is
  \<open>https://\<close>, exactly this domain, and then nothing, a port or a path; its length bounds
  are positive and in order, so that the name check cannot panic; the operator's domain
  labels are reserved; and with transfers on there is a node URL that is not blank.
\<close>

theorem configuration_sound:
  assumes "from_env L E F = Inr cfg"
  shows "cfg_domain cfg \<noteq> [] \<and>
    (\<exists>rest. cfg_base_url cfg = ''https://'' @ cfg_domain cfg @ rest \<and>
       (rest = [] \<or> hd rest = CHR '':'' \<or> hd rest = CHR ''/'')) \<and>
    CHR '':'' \<notin> set (cfg_domain cfg) \<and> CHR ''/'' \<notin> set (cfg_domain cfg) \<and>
    1 \<le> cfg_name_min cfg \<and> cfg_name_min cfg \<le> cfg_name_max cfg \<and>
    set (domain_reserved (unicode_lower L) (cfg_domain cfg)) \<subseteq> set (cfg_extra_reserved cfg) \<and>
    (cfg_allow_transfers cfg \<longrightarrow> (\<exists>url. cfg_grin_node_url cfg = Some url \<and> url \<noteq> []))"
proof -
  have read: "read_env L E F = Inr cfg" and valid: "validate cfg = Inr ()"
    using assms by (auto simp: from_env_def split: sum.splits)
  from valid obtain host where host: "cfg_base_url cfg = ''https://'' @ host"
    "hd (split_by (\<lambda>c. c = CHR '':'') (hd (split_by (\<lambda>c. c = CHR ''/'') host))) = cfg_domain cfg"
    by (auto simp: validate_Inr)
  then obtain rest where "cfg_base_url cfg = ''https://'' @ cfg_domain cfg @ rest"
    "rest = [] \<or> hd rest = CHR '':'' \<or> hd rest = CHR ''/''"
    "CHR '':'' \<notin> set (cfg_domain cfg)" "CHR ''/'' \<notin> set (cfg_domain cfg)"
    using host_split [OF host(2)] by metis
  moreover have "\<exists>url. cfg_grin_node_url cfg = Some url \<and> url \<noteq> []" if "cfg_allow_transfers cfg"
    using valid read_env_reserved(2) [OF read] that unfolding validate_Inr by (metis option.exhaust)
  ultimately show ?thesis
    using valid read_env_reserved(1) [OF read] unfolding validate_Inr by blast
qed

theorem configuration_sound_witness:
  "\<exists>cfg. from_env demo_libs comma_env (\<lambda>_. Inr []) = Inr cfg \<and>
     (\<exists>url. cfg_grin_node_url cfg = Some url \<and> url \<noteq> [])"
proof -
  obtain cfg where cfg: "from_env demo_libs comma_env (\<lambda>_. Inr []) = Inr cfg" "cfg_allow_transfers cfg"
    by (rule comma_started)
  then show ?thesis using configuration_sound [OF cfg(1)] by blast
qed

text \<open>
  The startup check of the node URL can be passed without a node: with
  \<open>GOBLIN_GRIN_NODE_URL=,\<close> and transfers on the configuration is accepted, but it has no
  endpoint, so that every kernel lookup fails and no claim can succeed.
\<close>

lemma comma_node_url_accepted:
  "\<exists>cfg. from_env L comma_env F = Inr cfg \<and> cfg_allow_transfers cfg \<and> grin_node_endpoints cfg = [] \<and>
     (\<forall>T ex. cs_kernel (node_client L T (grin_node_endpoints cfg)) ex = Inl ''no node endpoints configured'')"
proof -
  obtain cfg where cfg: "from_env L comma_env F = Inr cfg" "cfg_allow_transfers cfg"
    "cfg_grin_node_url cfg = Some '',''"
    by (rule comma_started)
  have "trim [] = []" by (rule trim_graphic) simp
  then have "grin_node_endpoints cfg = []" by (simp add: grin_node_endpoints_def cfg(3))
  then show ?thesis using cfg(1,2) by (auto simp: node_client_def)
qed

section \<open>One process after another\<close>

lemma main_Serving:
  "main L T dbg E F D B t st = Serving addr cfg w0 table log \<longleftrightarrow>
     from_env L E F = Inr cfg \<and> addr = cfg_bind_addr cfg \<and> B addr \<and> table = routes L cfg \<and>
     log = [''resolved config: '' @ summary dbg cfg, ''goblin-nip05d listening on '' @ addr] \<and>
     (\<exists>c. D (cfg_db_path cfg) = Inr c \<and> w0 = app_open L T cfg c t st)"
  by (auto simp: main_def Let_def split: sum.splits)

definition same_tables :: "conn \<Rightarrow> conn \<Rightarrow> bool" where
  "same_tables c c' \<longleftrightarrow>
     tb_names c' = tb_names c \<and> tb_offers c' = tb_offers c \<and> tb_transfers c' = tb_transfers c"

text \<open>
  The databases that processes started one after the other leave behind: each starts from the
  same environment on the tables of its predecessor, serves for any while, and is stopped or
  killed at any moment, whatever its requests have done by then.
\<close>

inductive lives ::
  "libs \<Rightarrow> env \<Rightarrow> files \<Rightarrow> (string \<Rightarrow> kernel_result \<Rightarrow> bool) \<Rightarrow> conn \<Rightarrow> conn \<Rightarrow> bool"
  for L E F K c where
  none: "lives L E F K c c"
| another: "lives L E F K c c1 \<Longrightarrow> same_tables c1 c2 \<Longrightarrow> D (cfg_db_path cfg) = Inr c2 \<Longrightarrow>
    main L T dbg E F D B t st = Serving addr cfg w0 table log \<Longrightarrow> node_answers K w0 \<Longrightarrow>
    reaches L cfg K (w0, []) (w, ps) \<Longrightarrow> lives L E F K c (db w)"

lemma app_open_sys_inv:
  assumes "db_inv c" and "justified_inv L cfg K c" and "node_answers K (app_open L T cfg c t st)"
  shows "sys_inv L cfg K (app_open L T cfg c t st)"
  using assms by (simp add: sys_inv_def app_open_def open_with_node_def)

lemma lives_keep:
  assumes "lives L E F K c c'" and "from_env L E F = Inr cfg" and "db_inv c" and "justified_inv L cfg K c"
  shows "db_inv c' \<and> justified_inv L cfg K c' \<and> db_le c c'"
  using assms(1)
proof (induction rule: lives.induct)
  case none
  then show ?case using assms(3,4) by simp
next
  case (another c1 c2 D cfg' T dbg B t st addr w0 table log w ps)
  have start: "cfg' = cfg" "w0 = app_open L T cfg c2 t st"
    using another.hyps(3,4) assms(2) by (auto simp: main_Serving)
  have same: "tb_names c2 = tb_names c1" "tb_offers c2 = tb_offers c1" "tb_transfers c2 = tb_transfers c1"
    using another.hyps(2) by (simp_all add: same_tables_def)
  have "sys_inv L cfg K w0"
    using another.IH another.hyps(5) tables_db_inv(1) [OF same] tables_db_inv(2) [OF same, of L cfg K]
    unfolding start by (intro app_open_sys_inv) simp_all
  then have "sys_inv L cfg K w" and "evolves L cfg K w0 w"
    using service.reached_invariant [OF another.hyps(6) [unfolded start(1)]]
      service.reached_rely [OF rtranclp.rtrancl_refl another.hyps(6) [unfolded start(1)]] by simp_all
  moreover have "db w0 = c2" by (simp add: start(2) app_open_def open_with_node_def)
  ultimately show ?case
    using another.IH tables_db_inv(3) [OF same] db_le_trans unfolding sys_inv_def evolves_def by blast
qed

lemma justified_empty: "justified_inv L cfg K empty_conn"
  by (simp add: justified_inv_def empty_conn_def)

text \<open>
  C40. The service survives its processes. Whatever environment it is configured by, started
  on a fresh database and restarted on the same file any number of times, each process
  stopped or killed at any moment: the tables satisfy their invariant; every active name has
  a length the configuration allows, is made of the documented characters, is not reserved
  and belongs to one well-formed key that has no other name; no later process loses or changes
  a recorded transfer; and no kernel excess is recorded twice, although the replay set and the
  limiter start empty with each process.
\<close>

theorem restarts_keep_everything:
  assumes "from_env L E F = Inr cfg" and "lives L E F K empty_conn c" and "lives L E F K c c'"
  shows "db_inv c' \<and>
    (\<forall>name key. owned c' name = Some key \<longrightarrow>
       1 \<le> length name \<and> cfg_name_min cfg \<le> length name \<and> length name \<le> cfg_name_max cfg \<and>
       list_all ok_char name \<and> \<not> is_reserved name (cfg_extra_reserved cfg) \<and>
       valid_pubkey_hex key \<and> (\<forall>name'. owned c' name' = Some key \<longrightarrow> name' = name)) \<and>
    set (tb_transfers c) \<subseteq> set (tb_transfers c') \<and>
    (\<forall>t \<in> set (tb_transfers c). \<forall>t' \<in> set (tb_transfers c').
       t_kernel_excess t' = t_kernel_excess t \<longrightarrow> t' = t)"
proof -
  have "db_inv c" "justified_inv L cfg K c"
    using lives_keep [OF assms(2,1) db_inv_empty justified_empty] by simp_all
  note kept = lives_keep [OF assms(3,1) this]
  then have rows: "names_inv (tb_names c')" "justified_inv L cfg K c'" "db_inv c'" "db_le c c'"
    by (simp_all add: db_inv_names)
  have min: "1 \<le> cfg_name_min cfg"
    using assms(1) by (auto simp: from_env_def validate_Inr split: sum.splits)
  have one: "name' = name" if "owned c' name = Some key" "owned c' name' = Some key" for name name' key
    using inj_onD [OF owner_of_one_name [OF rows(1), unfolded one_name_per_key_def], of name' name] that
    by (auto simp: owned_def)
  have "name_row_ok cfg r" if "r \<in> set (tb_names c')" for r
    using rows(2) that by (simp add: justified_inv_def)
  then have names: "name_allowed cfg name \<and> valid_pubkey_hex key" if "owned c' name = Some key" for name key
    using that by (auto simp: owned_def owner_of_Some [OF rows(1)] name_row_ok_def)
  have kept_transfers: "set (tb_transfers c) \<subseteq> set (tb_transfers c')" using db_le_transfers [OF rows(4)] by blast
  have "t' = t" if "t \<in> set (tb_transfers c)" "t' \<in> set (tb_transfers c')"
    "t_kernel_excess t' = t_kernel_excess t" for t t'
    using rows(3) kept_transfers that by (auto simp: db_inv_def transfers_inv_def dest: distinct_map_eqD)
  moreover have "1 \<le> length name \<and> cfg_name_min cfg \<le> length name \<and> length name \<le> cfg_name_max cfg \<and>
       list_all ok_char name \<and> \<not> is_reserved name (cfg_extra_reserved cfg) \<and> valid_pubkey_hex key"
    if "owned c' name = Some key" for name key
    using names [OF that] min by (auto simp: name_allowed_def valid_name_iff [OF min])
  ultimately show ?thesis using rows(3) one kept_transfers by blast
qed

theorem restarts_keep_everything_witness:
  "\<exists>cfg w0 log. main demo_libs (\<lambda>_ _ _. TransportError []) id comma_env (\<lambda>_. Inr [])
       (\<lambda>_. Inr empty_conn) (\<lambda>_. True) 0 0 = Serving (cfg_bind_addr cfg) cfg w0 (routes demo_libs cfg) log \<and>
     db_inv (db (snd (run (serve demo_libs cfg rq_register) w0)))"
proof -
  let ?T = "\<lambda>_ _ _. TransportError []" and ?F = "\<lambda>_. Inr []" and ?K = "\<lambda>_ _. True"
  obtain cfg where cfg: "from_env demo_libs comma_env ?F = Inr cfg" by (rule comma_started)
  then obtain w0 log where start: "main demo_libs ?T id comma_env ?F (\<lambda>_. Inr empty_conn) (\<lambda>_. True) 0 0 =
      Serving (cfg_bind_addr cfg) cfg w0 (routes demo_libs cfg) log"
    by (auto simp: main_Serving)
  have answers: "node_answers ?K w" for w by (simp add: node_answers_def)
  have "lives demo_libs comma_env ?F ?K empty_conn (db (snd (run (serve demo_libs cfg rq_register) w0)))"
    by (rule lives.another [OF lives.none _ _ start answers reaches_served [where q = rq_register]])
       (simp_all add: same_tables_def)
  then have "db_inv (db (snd (run (serve demo_libs cfg rq_register) w0)))"
    using restarts_keep_everything [OF cfg _ lives.none] by blast
  then show ?thesis using start by blast
qed

end
