(* ===== verification/Lifecycle.thy ===== *)
theory Lifecycle
  imports Example
begin

text \<open>
  The life of an offer. Its status column runs through the phases open, lapsed, closed and
  never back, in every interleaving: \<open>live\<close> is open, \<open>expired\<close> is lapsed (a late claim
  may still consume it, a revocation may still close it), \<open>revoked\<close> and
  \<open>consumed\<close> are closed.
\<close>

section \<open>Phases\<close>

datatype phase = Open | Lapsed | Closed

instantiation phase :: linorder
begin

fun less_eq_phase :: "phase \<Rightarrow> phase \<Rightarrow> bool" where
  "less_eq_phase Open q = True"
| "less_eq_phase Lapsed q = (q \<noteq> Open)"
| "less_eq_phase Closed q = (q = Closed)"

definition less_phase :: "phase \<Rightarrow> phase \<Rightarrow> bool" where
  "less_phase p q = (p \<le> q \<and> \<not> q \<le> p)"

instance
proof
  fix p q r :: phase
  show "p < q \<longleftrightarrow> p \<le> q \<and> \<not> q \<le> p" by (rule less_phase_def)
  show "p \<le> p" by (cases p) simp_all
  show "p \<le> q \<Longrightarrow> q \<le> r \<Longrightarrow> p \<le> r" by (cases p; cases q; cases r) simp_all
  show "p \<le> q \<Longrightarrow> q \<le> p \<Longrightarrow> p = q" by (cases p; cases q) simp_all
  show "p \<le> q \<or> q \<le> p" by (cases p; cases q) simp_all
qed

end

definition phase_of :: "string \<Rightarrow> phase" where
  "phase_of st = (if st = ''live'' then Open else if st = ''expired'' then Lapsed else Closed)"

lemma phase_of_simps [simp]:
  "phase_of ''live'' = Open" "phase_of ''expired'' = Lapsed"
  "phase_of ''revoked'' = Closed" "phase_of ''consumed'' = Closed"
  by (simp_all add: phase_of_def)

lemma phase_bounds [simp]: "p \<le> Closed" "Open \<le> p"
  by (cases p; simp)+

section \<open>Every step moves forward\<close>

definition later_phase :: "offer_row \<Rightarrow> offer_row \<Rightarrow> bool" where
  "later_phase r r' \<longleftrightarrow> terms r = terms r' \<and> phase_of (o_status r) \<le> phase_of (o_status r')"

lemma later_phase_refl [simp]: "later_phase r r"
  by (simp add: later_phase_def)

lemma later_rows_refl [simp]: "rows_le later_phase xs xs"
  by (rule rows_le_refl) simp

lemma later_phase_trans: "later_phase a b \<Longrightarrow> later_phase b c \<Longrightarrow> later_phase a c"
  by (auto simp: later_phase_def intro: order_trans)

lemma later_rows_trans:
  assumes "rows_le later_phase xs ys" and "rows_le later_phase ys zs"
  shows "rows_le later_phase xs zs"
  by (rule rows_le_trans [OF _ assms]) (rule later_phase_trans)

lemma db_step_phase:
  "db_step L cfg K c c' \<Longrightarrow> rows_le later_phase (tb_offers c) (tb_offers c')"
proof (induction rule: db_step.induct)
  case (registers name k body req_name req_key t c)
  then show ?case by (simp add: register_name_frame rows_le_refl)
next
  case (releases k name t c)
  then show ?case by (simp add: release_name_frame rows_le_refl)
next
  case (lodges e i js name s b p a x t body c)
  then show ?case by (auto simp: insert_offer_def intro: rows_le_append rows_le_refl)
next
  case (dies st i h t c)
  then show ?case
    by (auto simp: mark_offer_dead_def later_phase_def terms_def intro!: rows_le_update rows_le_refl)
next
  case (flips i c)
  then show ?case
    by (auto simp: flip_to_revoked_def later_phase_def intro!: rows_le_update rows_le_refl)
next
  case (claims row c offer body ex kh t)
  show ?case
  proof (cases "fst (run_claim_txn offer ex kh t c)")
    case (Inl e)
    then show ?thesis by (simp add: run_claim_txn_failed rows_le_refl)
  next
    case (Inr u)
    then have "fst (run_claim_txn offer ex kh t c) = Inr ()" by simp
    from run_claim_txn_done(4) [OF this] show ?thesis
      by (auto simp: later_phase_def intro!: rows_le_update)
  qed
qed (simp add: rows_le_refl)

lemma reached_phase:
  assumes "reaches L cfg K (w0, []) x" and "reaches L cfg K x y" and "sys_inv L cfg K w0"
  shows "rows_le later_phase (tb_offers (db (fst x))) (tb_offers (db (fst y)))"
  using assms(2)
proof (induction rule: rtranclp_induct)
  case base
  show ?case by (rule rows_le_refl) simp
next
  case (step y z)
  have "reaches L cfg K (w0, []) (fst y, snd y)"
    using assms(1) step.hyps(1) by (simp add: rtranclp_trans [of _ "(w0, [])"])
  moreover have "sched (environment K) (request_handler L cfg) (fst y, snd y) (fst z, snd z)"
    using step.hyps(2) by simp
  ultimately have "handler_step L cfg K (fst y) (fst z) \<or> environment K (fst y) (fst z) \<or> fst z = fst y"
    using service.reached_step assms(3) by blast
  then have "rows_le later_phase (tb_offers (db (fst y))) (tb_offers (db (fst z)))"
    by (auto simp: handler_step_def environment_def intro: db_step_phase)
  with step.IH show ?case by (rule later_rows_trans)
qed

end
