(* ===== verification/Liveness.thy ===== *)
theory Liveness
  imports Example
begin

text \<open>
  Every request is answered, and with a response of the documented form. No handler of the
  source waits for another request or loops on the shared state: each does a bounded number
  of steps, whatever it finds at each of them, and then returns a response. The bounds give
  the measure by which the requests in flight come to rest.
\<close>

section \<open>Counting steps\<close>

text \<open>What is left of \<open>p\<close> after \<open>n\<close> steps, when its \<open>k\<close>-th step finds the state
  \<open>found k\<close>, which the others may have changed in any way since the step before.\<close>

primrec driven :: "nat \<Rightarrow> ('s, 'r) prog \<Rightarrow> (nat \<Rightarrow> 's) \<Rightarrow> ('s, 'r) prog" where
  "driven 0 p found = p"
| "driven (Suc n) p found =
     (case p of Ret r \<Rightarrow> Ret r | Step f \<Rightarrow> driven n (snd (f (found 0))) (\<lambda>k. found (Suc k)))"

definition answers :: "nat \<Rightarrow> ('r \<Rightarrow> bool) \<Rightarrow> ('s, 'r) prog \<Rightarrow> bool" where
  "answers n Q p \<longleftrightarrow> (\<forall>found. \<exists>r. driven n p found = Ret r \<and> Q r)"

lemma driven_Ret [simp]: "driven n (Ret r) found = Ret r"
  by (cases n) simp_all

lemma answers_Ret [simp]: "answers n Q (Ret r) \<longleftrightarrow> Q r"
  by (simp add: answers_def)

lemma answers_0: "answers 0 Q p \<longleftrightarrow> (\<exists>r. p = Ret r \<and> Q r)"
  by (simp add: answers_def)

lemma answers_Step [simp]: "answers (Suc n) Q (Step f) \<longleftrightarrow> (\<forall>s. answers n Q (snd (f s)))"
proof
  assume all: "answers (Suc n) Q (Step f)"
  have "\<exists>r. driven n (snd (f s)) found = Ret r \<and> Q r" for s found
    using all [unfolded answers_def, rule_format, of "\<lambda>k. case k of 0 \<Rightarrow> s | Suc j \<Rightarrow> found j"] by simp
  then show "\<forall>s. answers n Q (snd (f s))" by (simp add: answers_def)
qed (simp add: answers_def)

lemma answers_mono:
  assumes "answers m Q p" and "m \<le> n"
  shows "answers n Q p"
  using assms
proof (induction p arbitrary: m n rule: prog_induct)
  case (Step f)
  then obtain m' where m: "m = Suc m'" by (cases m) (auto simp: answers_0)
  with Step.prems(2) obtain n' where "n = Suc n'" "m' \<le> n'" by (cases n) auto
  with Step m show ?case by auto
qed simp

text \<open>A step from the budget, as introduction rules the simplifier can count with.\<close>

named_theorems budget "introduction rules for answers"

lemma answers_act [budget]:
  "0 < n \<Longrightarrow> (\<And>s. answers (n - 1) Q (k (fst (f s)))) \<Longrightarrow> answers n Q (act f k)"
  by (cases n) (simp_all add: act_def)

lemma answers_get [budget]:
  "0 < n \<Longrightarrow> (\<And>s. answers (n - 1) Q (k (f s))) \<Longrightarrow> answers n Q (get f k)"
  unfolding get_def by (rule answers_act) simp_all

lemma answers_call:
  assumes "answers m Q' p" and "m \<le> n" and "\<And>x. Q' x \<Longrightarrow> answers (n - m) Q (k x)"
  shows "answers n Q (call p k)"
  using assms
proof (induction p arbitrary: m n rule: prog_induct)
  case (Ret x)
  then show ?case using answers_mono [of "n - m" Q "k x" n] by simp
next
  case (Step f)
  then obtain m' where m: "m = Suc m'" by (cases m) (auto simp: answers_0)
  with Step.prems(2) obtain n' where n: "n = Suc n'" "m' \<le> n'" by (cases n) auto
  have "answers n' Q (call (snd (f s)) k)" for s
    by (rule Step.IH [where m = m']) (use Step.prems m n in auto)
  then show ?case by (simp add: call_Step n)
qed

section \<open>The form of a response\<close>

text \<open>The errors of the API, by status.\<close>

definition error_table :: "(nat \<times> string list) list" where
  "error_table =
     [(BAD_REQUEST, [''invalid body'', ''invalid name'', ''invalid pubkey'', ''invalid offer'', ''invalid proof'']),
      (UNAUTHORIZED, [''missing Authorization header'', ''Authorization scheme must be Nostr'',
         ''invalid base64 auth event'', ''invalid auth event json'', ''bad event signature'',
         ''auth event kind must be 27235'', ''auth event expired or post-dated'',
         ''auth event url mismatch'', ''auth event method mismatch'',
         ''auth event payload hash mismatch'', ''auth event missing payload hash'',
         ''auth event replayed'', ''auth pubkey does not match body pubkey'',
         ''auth pubkey does not match offer pubkey'', ''not the buyer'']),
      (FORBIDDEN, [''name reserved'', ''not the owner'']),
      (NOT_FOUND, [''not found'', ''name not found'']),
      (CONFLICT, [''name taken'', ''pubkey already has a name'', ''offer_exists'', ''offer_ambiguous'',
         ''offer_consumed'', ''owner_changed'', ''proof_address_mismatch'', ''proof_amount_mismatch'',
         ''payment_unconfirmed'', ''proof_reused'']),
      (GONE, [''offer_revoked'', ''offer_expired'']),
      (TOO_MANY_REQUESTS, [''rate_limited'', ''name_change_cooldown'']),
      (INTERNAL_SERVER_ERROR, [''db error''])]"

definition known_error :: "nat \<Rightarrow> string \<Rightarrow> bool" where
  "known_error c msg \<longleftrightarrow> list_ex (\<lambda>(c', msgs). c' = c \<and> msg \<in> set msgs) error_table"

text \<open>A JSON body is an object with distinct keys; it has the key \<open>error\<close> exactly when the
  status is an error, and then one of the table's texts. Text and HTML come with 200; a
  request outside the route table gets an empty 404 or 405.\<close>

definition well_typed :: "response \<Rightarrow> bool" where
  "well_typed r =
     (case resp_body r of
        Json (JObject kvs) \<Rightarrow> distinct (map fst kvs) \<and>
          (case map_of kvs ''error'' of
             None \<Rightarrow> status r \<in> {OK, CREATED}
           | Some (JString msg) \<Rightarrow> known_error (status r) msg
           | Some _ \<Rightarrow> False)
      | Json _ \<Rightarrow> False
      | Text txt \<Rightarrow> status r = OK \<or> txt = [] \<and> status r \<in> {NOT_FOUND, 405}
      | HtmlPage _ \<Rightarrow> status r = OK)"



lemma well_typed_err [simp]: "well_typed (err c msg) \<longleftrightarrow> known_error c msg"
  by (simp add: well_typed_def err_def json_response_def)

lemma well_typed_json [simp]:
  "well_typed (json_response c kvs) \<longleftrightarrow> distinct (map fst kvs) \<and>
     (case map_of kvs ''error'' of
        None \<Rightarrow> c \<in> {OK, CREATED} | Some (JString msg) \<Rightarrow> known_error c msg | Some _ \<Rightarrow> False)"
  by (simp add: well_typed_def json_response_def cong: option.case_cong json.case_cong)

lemma well_typed_limited [simp]:
  "well_typed \<lparr>status = TOO_MANY_REQUESTS, resp_headers = hs,
     resp_body = Json (JObject [(''error'', JString ''rate_limited'')])\<rparr>"
  by (simp add: well_typed_def known_error_def error_table_def)

lemma well_typed_public [simp]: "well_typed (public_json L v)"
  by (simp add: well_typed_def public_json_def)

lemma well_typed_plain [simp]: "well_typed (plain_status NOT_FOUND)" "well_typed (plain_status 405)"
  by (simp_all add: well_typed_def plain_status_def)

lemma known_errors [simp]:
  "known_error BAD_REQUEST ''invalid body''" "known_error BAD_REQUEST ''invalid name''"
  "known_error BAD_REQUEST ''invalid pubkey''" "known_error BAD_REQUEST ''invalid offer''"
  "known_error BAD_REQUEST ''invalid proof''"
  "known_error UNAUTHORIZED ''missing Authorization header''"
  "known_error UNAUTHORIZED ''Authorization scheme must be Nostr''"
  "known_error UNAUTHORIZED ''invalid base64 auth event''"
  "known_error UNAUTHORIZED ''invalid auth event json''"
  "known_error UNAUTHORIZED ''bad event signature''"
  "known_error UNAUTHORIZED ''auth event kind must be 27235''"
  "known_error UNAUTHORIZED ''auth event expired or post-dated''"
  "known_error UNAUTHORIZED ''auth event url mismatch''"
  "known_error UNAUTHORIZED ''auth event method mismatch''"
  "known_error UNAUTHORIZED ''auth event payload hash mismatch''"
  "known_error UNAUTHORIZED ''auth event missing payload hash''"
  "known_error UNAUTHORIZED ''auth event replayed''"
  "known_error UNAUTHORIZED ''auth pubkey does not match body pubkey''"
  "known_error UNAUTHORIZED ''auth pubkey does not match offer pubkey''"
  "known_error UNAUTHORIZED ''not the buyer''" "known_error FORBIDDEN ''name reserved''"
  "known_error FORBIDDEN ''not the owner''" "known_error NOT_FOUND ''not found''"
  "known_error NOT_FOUND ''name not found''" "known_error CONFLICT ''name taken''"
  "known_error CONFLICT ''pubkey already has a name''" "known_error CONFLICT ''offer_exists''"
  "known_error CONFLICT ''offer_ambiguous''" "known_error CONFLICT ''offer_consumed''"
  "known_error CONFLICT ''owner_changed''" "known_error CONFLICT ''proof_address_mismatch''"
  "known_error CONFLICT ''proof_amount_mismatch''"
  "known_error CONFLICT ''payment_unconfirmed''" "known_error CONFLICT ''proof_reused''"
  "known_error GONE ''offer_revoked''" "known_error GONE ''offer_expired''"
  "known_error TOO_MANY_REQUESTS ''rate_limited''"
  "known_error TOO_MANY_REQUESTS ''name_change_cooldown''"
  "known_error INTERNAL_SERVER_ERROR ''db error''"
  by (simp_all add: known_error_def error_table_def)

lemma verify_nip98_error:
  "verify_nip98 L now hs m p body base age = Inl (c, msg) \<Longrightarrow> known_error c msg"
  unfolding verify_nip98_def unauthorized_def Let_def
  by (auto split: option.splits if_splits)

lemma claim_request_error: "claim_request L body = Inl (c, msg) \<Longrightarrow> known_error c msg"
  unfolding claim_request_def Let_def by (auto split: option.splits if_splits)

lemma check_offer_error: "check_offer L cfg key body = Inl (c, msg) \<Longrightarrow> known_error c msg"
  unfolding check_offer_def invalid_offer_def Let_def
  by (auto split: option.splits if_splits)

lemma death_gate_error: "death_gate cfg offer now = Inl (c, msg) \<Longrightarrow> known_error c msg"
  unfolding death_gate_def dead_err_def Let_def by (auto split: option.splits if_splits)

lemma proof_gate_error: "proof_gate L offer pf = Inl (c, msg) \<Longrightarrow> known_error c msg"
  unfolding proof_gate_def by (auto split: if_splits)

lemma kernel_gate_error: "kernel_gate cfg offer d a = Inl (c, msg) \<Longrightarrow> known_error c msg"
  unfolding kernel_gate_def dead_err_def Let_def
  by (auto split: option.splits if_splits sum.splits)

lemmas gate_errors = verify_nip98_error claim_request_error check_offer_error death_gate_error
  proof_gate_error kernel_gate_error

section \<open>The handlers\<close>

abbreviation "replies n \<equiv> answers n well_typed"

lemma answers_authenticate [budget]:
  "2 \<le> n \<Longrightarrow> (\<And>key. replies (n - 2) (k key)) \<Longrightarrow> replies n (authenticate L cfg hs m p body k)"
  unfolding authenticate_def
  by (auto intro!: budget dest!: gate_errors split: sum.split simp: numeral_2_eq_2)

lemma answers_register_claim: "replies 3 (register_claim cfg name key)"
  unfolding register_claim_def registered_body_def
  by (auto intro!: budget split: option.split sum.split sql_error.split nat.split)

lemma answers_register: "replies 7 (register L cfg hs body)"
  unfolding register_def Let_def
  by (auto intro!: budget answers_register_claim split: option.split)

lemma answers_unregister: "replies 6 (unregister L cfg n hs)"
  unfolding unregister_def release_owned_def Let_def
  by (auto intro!: budget split: option.split sum.split)

lemma answers_lodge: "replies 8 (lodge_offer L cfg hs body)"
  unfolding lodge_offer_def lodge_checked_def lodge_terms_def Let_def
  by (auto intro!: budget dest!: gate_errors split: option.split sum.split sql_error.split)

lemma answers_revoke: "replies 7 (revoke_offer L cfg i hs)"
  unfolding revoke_offer_def revoke_owned_def revoked_response_def
  by (auto intro!: budget split: option.split)

lemma answers_settle: "answers 3 (\<lambda>_. True) (settle_expiry row now)"
  unfolding settle_expiry_def by (auto intro!: budget)

lemma answers_read_offer: "replies 6 (read_offer L cfg i hs)"
  unfolding read_offer_def Let_def
  by (auto intro!: budget answers_call [OF answers_settle] split: option.split)

lemma answers_claim_offer: "replies 6 (claim_offer L cfg key offer pf now)"
  unfolding claim_offer_def claim_execute_def claim_success_def
  by (auto intro!: budget dest!: gate_errors split: option.split sum.split tx_err.split)

lemma answers_claim_consumed: "replies 6 (claim_consumed cfg i pf)"
  unfolding claim_consumed_def claim_success_def by (auto intro!: budget split: option.split)

lemma answers_claim: "replies 14 (claim L cfg hs body)"
  unfolding claim_def claim_authenticated_def Let_def
  by (auto intro!: budget answers_call [OF answers_settle] answers_claim_offer answers_claim_consumed
      dest!: gate_errors split: option.split sum.split)

lemma answers_read:
  "replies 2 (well_known L cfg hs n)" "replies 2 (availability L cfg hs path)"
  "replies 2 (profile L cfg hs path)" "replies 2 (by_pubkey L cfg hs path)"
  unfolding well_known_def availability_def profile_def by_pubkey_def Let_def
  by (auto intro!: budget split: option.split)

lemma answers_pages: "replies 0 health" "replies 0 (landing cfg)"
  by (simp_all add: health_def landing_def Let_def well_typed_def)

lemmas endpoint_bounds =
  answers_claim
  answers_register [THEN answers_mono, of 14, simplified]
  answers_unregister [THEN answers_mono, of 14, simplified]
  answers_lodge [THEN answers_mono, of 14, simplified]
  answers_revoke [THEN answers_mono, of 14, simplified]
  answers_read_offer [THEN answers_mono, of 14, simplified]
  answers_read [THEN answers_mono, of 14, simplified]
  answers_pages [THEN answers_mono, of 14, simplified]

lemma answers_serve: "replies 14 (serve L cfg q)"
  by (auto simp: serve_def routes_def base_routes_def transfer_routes_def endpoint_bounds
      split: option.split)

text \<open>The others' steps do not use up a request's budget, its own lower it.\<close>

definition spends :: "nat list \<Rightarrow> handler list \<Rightarrow> bool" where
  "spends ns ps \<longleftrightarrow> list_all2 (\<lambda>n p. n \<le> 14 \<and> replies n p) ns ps"

lemma spends_exec:
  assumes "spends ns ps" and "i < length ps" and "ps ! i = Step f"
  obtains n where "ns ! i = Suc n" and "spends (ns[i := n]) (ps[i := snd (f w)])"
proof -
  have "ns ! i \<le> 14" "replies (ns ! i) (Step f)"
    using assms list_all2_nthD2 [of _ ns ps i] by (auto simp: spends_def)
  then obtain n where n: "ns ! i = Suc n" "n \<le> 14" "replies n (snd (f w))"
    by (cases "ns ! i") (auto simp: answers_0)
  then have "spends (ns[i := n]) (ps[i := snd (f w)])"
    using assms(1) by (auto simp: spends_def intro: list_all2_update_cong)
  with n(1) show ?thesis by (rule that)
qed

lemma reached_spends:
  assumes "reaches L cfg K (w0, []) (w, ps)"
  shows "\<exists>ns. spends ns ps"
proof -
  have "\<exists>ns. spends ns (snd c)" if "reaches L cfg K (w0, []) c" for c
    using that
  proof (induction rule: rtranclp_induct)
    case base
    show ?case by (simp add: spends_def)
  next
    case (step c c')
    then obtain ns where ns: "spends ns (snd c)" by blast
    from step.hyps(2) show ?case
    proof cases
      case (arrive p w ps)
      then have "spends (ns @ [14]) (ps @ [p])"
        using ns answers_serve by (auto simp: spends_def request_handler_def intro: list_all2_appendI)
      then show ?thesis using arrive by auto
    next
      case (exec i ps f w)
      then show ?thesis using spends_exec [of ns ps i f w] ns by (metis snd_conv)
    next
      case (environ w w' ps)
      then show ?thesis using ns by auto
    qed
  qed
  then show ?thesis using assms by fastforce
qed

lemma spends_replies: "spends ns ps \<Longrightarrow> p \<in> set ps \<Longrightarrow> replies 14 p"
  by (auto simp: spends_def in_set_conv_nth dest!: list_all2_nthD2 intro: answers_mono)

section \<open>Coming to rest\<close>

text \<open>Any number of steps of the requests in flight and of the environment, with no new
  request; the number counts the requests' steps.\<close>

inductive turns ::
  "(world \<Rightarrow> world \<Rightarrow> bool) \<Rightarrow> nat \<Rightarrow> world \<times> handler list \<Rightarrow> world \<times> handler list \<Rightarrow> bool"
  for E where
  none: "turns E 0 c c"
| own: "turns E n c (w, ps) \<Longrightarrow> i < length ps \<Longrightarrow> ps ! i = Step f \<Longrightarrow>
     turns E (Suc n) c (fst (f w), ps[i := snd (f w)])"
| other: "turns E n c (w, ps) \<Longrightarrow> E w w' \<Longrightarrow> turns E n c (w', ps)"

lemma turns_act: "turns E 1 (w, [act f k]) (snd (f w), [k (fst (f w))])"
  using turns.own [OF turns.none, of 0 "[act f k]" _ E w] by (simp add: act_def)

inductive_cases turnsE: "turns E n c c'"

lemma turns_spend:
  assumes "turns E n c c'" and "spends ns (snd c)"
  shows "\<exists>ns'. spends ns' (snd c') \<and> sum_list ns' + n \<le> sum_list ns \<and> length (snd c') = length (snd c)"
  using assms
proof (induction rule: turns.induct)
  case (none c)
  then show ?case by auto
next
  case (own n c w ps i f)
  then obtain ns' where ns': "spends ns' ps" "sum_list ns' + n \<le> sum_list ns" "length ps = length (snd c)" by auto
  obtain m where m: "ns' ! i = Suc m" "spends (ns'[i := m]) (ps[i := snd (f w)])"
    using spends_exec [OF ns'(1) own.hyps(2,3)] by blast
  have len: "i < length ns'" using ns'(1) own.hyps(2) by (auto simp: spends_def dest: list_all2_lengthD)
  have "sum_list (ns'[i := m]) + 1 = sum_list ns'"
    using sum_list_update [OF len, of m] m(1) elem_le_sum_list [OF len] by simp
  then show ?case using m(2) ns'(2,3) by auto
next
  case (other n c w ps w')
  then show ?case by auto
qed

lemma spends_sum: "spends ns ps \<Longrightarrow> sum_list ns \<le> 14 * length ps"
proof -
  assume a: "spends ns ps"
  then have "length ns = length ps" "\<forall>n \<in> set ns. n \<le> 14"
    by (auto simp: spends_def in_set_conv_nth list_all2_conv_all_nth)
  then show ?thesis using sum_list_mono [of ns id "\<lambda>_. 14"] by (simp add: sum_list_triv)
qed

text \<open>Requests that are not all answered can move; so every schedule can be continued to the end.\<close>

lemma turns_rest:
  assumes "turns E n c (w, ps)" and "spends ns ps"
  shows "\<exists>m w' rs. turns E (n + m) c (w', map Ret rs)"
  using assms
proof (induction "sum_list ns" arbitrary: n w ps ns rule: less_induct)
  case less
  show ?case
  proof (cases "\<exists>i f. i < length ps \<and> ps ! i = Step f")
    case True
    then obtain i f where i: "i < length ps" "ps ! i = Step f" by blast
    obtain k where k: "ns ! i = Suc k" "spends (ns[i := k]) (ps[i := snd (f w)])"
      using spends_exec [OF less.prems(2) i] by blast
    have len: "i < length ns" using less.prems(2) i(1) by (auto simp: spends_def dest: list_all2_lengthD)
    have "sum_list (ns[i := k]) < sum_list ns"
      using sum_list_update [OF len, of k] k(1) elem_le_sum_list [OF len] by simp
    then obtain m w' rs where "turns E (Suc n + m) c (w', map Ret rs)"
      using less.hyps [OF _ turns.own [OF less.prems(1) i] k(2)] by blast
    then show ?thesis by (intro exI [of _ "Suc m"] exI [of _ w'] exI [of _ rs]) simp
  next
    case False
    have "\<exists>r. p = Ret r" if "p \<in> set ps" for p
      using that False by (metis in_set_conv_nth prog.exhaust)
    then have "ps \<in> range (map Ret)"
      by (metis ex_map_conv rangeI)
    then show ?thesis using less.prems(1) by (metis add_0_right imageE)
  qed
qed

section \<open>The properties\<close>

text \<open>
  C30. Every request is answered: in every state the service reaches, what is left of any
  request in flight returns a response after at most fourteen further steps of its own,
  whatever each of these steps finds, so however other requests, failing statements and the
  node interfere between them.
\<close>

theorem every_request_answered:
  assumes "reaches L cfg K (w0, []) (w, ps)" and "p \<in> set ps"
  shows "\<exists>r. driven 14 p found = Ret r"
  using reached_spends [OF assms(1)] spends_replies [OF _ assms(2)] by (auto simp: answers_def)

theorem every_request_answered_witness:
  "\<exists>r. driven 14 register_waiting (\<lambda>k. if even k then demo_world [] [] else demo_world [alice_row] []) = Ret r"
  using every_request_answered [OF register_reached] by simp



text \<open>
  C31. The service comes to rest: from any state it reaches, with \<open>k\<close> requests answered or
  in flight and no new one arriving, the requests can take at most \<open>14 * k\<close> more steps
  between them, in whatever order they run and however often the environment moves: no
  schedule keeps them running for ever. Nor does one get stuck: however far it has run, it can be
  continued, within the same bound, until every request has its response, so that a graceful
  shutdown, which waits for the requests in flight, ends.
\<close>

theorem requests_come_to_rest:
  assumes "reaches L cfg K (w0, []) (w, ps)" and "turns (environment K) n (w, ps) (w', ps')"
  shows "n \<le> 14 * length ps \<and> length ps' = length ps \<and>
    (\<exists>m w'' rs. turns (environment K) (n + m) (w, ps) (w'', map Ret rs) \<and>
       n + m \<le> 14 * length ps \<and> length rs = length ps)"
proof -
  obtain ns where ns: "spends ns ps" using reached_spends [OF assms(1)] by blast
  have bound: "k \<le> 14 * length ps \<and> length qs = length ps"
    if "turns (environment K) k (w, ps) (v, qs)" for k v qs
    using turns_spend [OF that] ns spends_sum [OF ns] by fastforce
  obtain ns' where "spends ns' ps'" using turns_spend [OF assms(2)] ns by auto
  then obtain m w'' rs where done': "turns (environment K) (n + m) (w, ps) (w'', map Ret rs)"
    using turns_rest [OF assms(2)] by blast
  then show ?thesis using bound [OF assms(2)] bound [OF done'] by auto
qed

theorem requests_come_to_rest_witness:
  "\<exists>ps'. turns (environment demo_chain) 1 (register_world, [register_waiting])
      (snd (auth_event_fresh demo_cfg ''e1'' register_world), ps') \<and> length ps' = 1"
proof -
  obtain k where "register_waiting = act (auth_event_fresh demo_cfg ''e1'') k"
    by (rule register_waiting_act)
  then have "turns (environment demo_chain) 1 (register_world, [register_waiting])
      (snd (auth_event_fresh demo_cfg ''e1'' register_world), [k (fst (auth_event_fresh demo_cfg ''e1'' register_world))])"
    using turns_act by metis
  then show ?thesis using requests_come_to_rest [OF register_reached] by fastforce
qed

end
