(* ===== verification/Wallet.thy ===== *)
theory Wallet
  imports Example
begin

text \<open>
  The other side of a sale: the wallet that exports a payment proof. \<open>src/src/proof.rs\<close>
  holds it in its tests (\<open>make_proof\<close>, "exactly as the wallet exports it"). Here it is a
  function of the two key pairs, the amount and the kernel excess, and the lemmas follow the
  exported proof through parsing and the signature check. What they use of the hex, bech32 and
  ed25519 libraries is that decoding inverts encoding and that a key's own signatures verify
  (\<open>wallet_libs\<close>, \<open>honest_key\<close>). The last theorem puts the wallet in front of the
  claim handler: a buyer who paid what the offer asks gets the name.
\<close>

section \<open>Keys and the exported proof\<close>

text \<open>A signing key is what it signs; the random choice of a key is left to the caller.\<close>

record keypair =
  kp_sign :: "bytes \<Rightarrow> bytes"
  kp_public :: bytes

text \<open>The JSON of a proof and the recipient's address; \<open>None\<close> is a panic of \<open>unwrap\<close> or
  \<open>expect\<close>.\<close>

definition wallet_proof ::
  "libs \<Rightarrow> keypair \<Rightarrow> keypair \<Rightarrow> u64 \<Rightarrow> bytes \<Rightarrow> (json \<times> string) option" where
  "wallet_proof L recipient sender amount excess =
     (let excess_hex = hex_encode L excess in
      Option.bind (payment_proof_message L amount excess_hex (kp_public sender)) (\<lambda>msg.
      let recipient_sig = hex_encode L (kp_sign recipient msg);
          sender_sig = hex_encode L (kp_sign sender msg)
      in
      Option.bind (grin_address_from_pubkey L (kp_public recipient) ''grin'') (\<lambda>recipient_address.
      Option.bind (grin_address_from_pubkey L (kp_public sender) ''grin'') (\<lambda>sender_address.
        Some (JObject
          [(''amount'', JString (show_nat (unat amount))),
           (''excess'', JString excess_hex),
           (''recipient_address'', JString recipient_address),
           (''recipient_sig'', JString recipient_sig),
           (''sender_address'', JString sender_address),
           (''sender_sig'', JString sender_sig)], recipient_address)))))"

text \<open>The fixture of the tests: the excess is the recipient's key and a byte 8.\<close>

definition make_proof :: "libs \<Rightarrow> keypair \<Rightarrow> keypair \<Rightarrow> u64 \<Rightarrow> (json \<times> string) option" where
  "make_proof L recipient sender amount =
     (let zeros = replicate 33 0;
          filled = kp_public recipient @ drop 32 zeros;
          excess = filled[32 := 8]
      in wallet_proof L recipient sender amount excess)"

section \<open>What the wallet uses of its libraries\<close>

definition wallet_libs :: "libs \<Rightarrow> bool" where
  "wallet_libs L \<longleftrightarrow>
     (\<forall>bs. hex_decode L (hex_encode L bs) = Some bs \<and> lowercase_hex (hex_encode L bs) \<and>
        length (hex_encode L bs) = 2 * length bs) \<and>
     (\<forall>key. length key = 32 \<longrightarrow> from_base32 L (to_base32 L key) = Some key \<and>
        (\<exists>d. bech32_encode L ''grin'' (to_base32 L key) = Some (''grin1'' @ d) \<and>
           list_all is_graphic d \<and> map to_ascii_lowercase d = d \<and>
           bech32_decode L (''grin1'' @ d) = Some (''grin'', to_base32 L key)))"

definition honest_key :: "libs \<Rightarrow> keypair \<Rightarrow> bool" where
  "honest_key L kp \<longleftrightarrow> length (kp_public kp) = 32 \<and> ed25519_key_ok L (kp_public kp) \<and>
     (\<forall>msg. length (kp_sign kp msg) = 64 \<and> ed25519_verify L (kp_public kp) msg (kp_sign kp msg))"

section \<open>Addresses\<close>

text \<open>Slatepack addresses round trip, also when they are written in capitals.\<close>

lemma address_roundtrip:
  assumes "wallet_libs L" and "length key = 32"
  obtains a where "grin_address_from_pubkey L key ''grin'' = Some a" and "take 5 a = ''grin1''"
    and "\<And>b. map to_ascii_lowercase b = a \<Longrightarrow> list_all is_graphic b \<Longrightarrow> decode_grin_address L b = Some key"
    and "decode_grin_address L a = Some key" and "normalize_grin_address L a = a"
proof -
  obtain d where d: "bech32_encode L ''grin'' (to_base32 L key) = Some (''grin1'' @ d)"
      "list_all is_graphic d" "map to_ascii_lowercase d = d"
      "bech32_decode L (''grin1'' @ d) = Some (''grin'', to_base32 L key)"
    and base32: "from_base32 L (to_base32 L key) = Some key"
    using assms unfolding wallet_libs_def by blast
  have low: "map to_ascii_lowercase (''grin1'' @ d) = ''grin1'' @ d"
    using d(3) by (simp add: to_ascii_lowercase_def is_ascii_uppercase_def)
  have vis: "list_all is_graphic (''grin1'' @ d)" using d(2) by (simp add: is_graphic_def)
  have decode: "decode_grin_address L b = Some key"
    if "map to_ascii_lowercase b = ''grin1'' @ d" "list_all is_graphic b" for b
    using d(4) base32 assms(2) normalize_graphic [OF that(2)] that(1)
    by (simp add: decode_grin_address_Some)
  show ?thesis
  proof (rule that)
    show "grin_address_from_pubkey L key ''grin'' = Some (''grin1'' @ d)"
      by (simp add: grin_address_from_pubkey_def d(1))
    show "normalize_grin_address L (''grin1'' @ d) = ''grin1'' @ d"
      unfolding normalize_graphic [OF vis] by (rule low)
  qed (use decode [OF low vis] decode in simp_all)
qed

section \<open>The exported proof is accepted\<close>

text \<open>The proof as the service reads it.\<close>

definition exported :: "libs \<Rightarrow> keypair \<Rightarrow> keypair \<Rightarrow> u64 \<Rightarrow> bytes \<Rightarrow> bytes \<Rightarrow> string \<Rightarrow> string \<Rightarrow> parsed_payment_proof" where
  "exported L recipient sender amount excess msg ra sa =
     \<lparr>pp_amount = amount, pp_excess_hex = hex_encode L excess, pp_recipient_address = ra,
      pp_recipient_sig_hex = hex_encode L (kp_sign recipient msg), pp_sender_address = sa,
      pp_sender_sig_hex = hex_encode L (kp_sign sender msg)\<rparr>"

lemma wallet_proof_exported:
  assumes laws: "wallet_libs L" and keys: "length (kp_public recipient) = 32" "length (kp_public sender) = 32"
    and excess: "length excess = 33"
  obtains ra sa msg v where "wallet_proof L recipient sender amount excess = Some (v, ra)"
    and "parse_payment_proof L v = Some (exported L recipient sender amount excess msg ra sa)"
    and "v = proof_to_json (exported L recipient sender amount excess msg ra sa)"
    and "msg = amount_to_be_u64 amount @ excess @ kp_public sender"
    and "decode_grin_address L ra = Some (kp_public recipient)"
    and "decode_grin_address L sa = Some (kp_public sender)"
    and "normalize_grin_address L ra = ra"
proof -
  obtain ra where ra: "grin_address_from_pubkey L (kp_public recipient) ''grin'' = Some ra"
    "decode_grin_address L ra = Some (kp_public recipient)" "normalize_grin_address L ra = ra"
    by (rule address_roundtrip [OF laws keys(1)])
  obtain sa where sa: "grin_address_from_pubkey L (kp_public sender) ''grin'' = Some sa"
    "decode_grin_address L sa = Some (kp_public sender)"
    by (rule address_roundtrip [OF laws keys(2)])
  have hex: "hex_decode L (hex_encode L bs) = Some bs" "lowercase_hex (hex_encode L bs)" for bs
    using laws unfolding wallet_libs_def by blast+
  let ?msg = "amount_to_be_u64 amount @ excess @ kp_public sender"
  let ?p = "exported L recipient sender amount excess ?msg ra sa"
  have "payment_proof_message L amount (hex_encode L excess) (kp_public sender) = Some ?msg"
    by (simp add: payment_proof_message_def hex excess)
  then have "wallet_proof L recipient sender amount excess = Some (proof_to_json ?p, ra)"
    by (simp add: wallet_proof_def Let_def ra sa proof_to_json_def exported_def)
  moreover have "parse_payment_proof L (proof_to_json ?p) = Some ?p"
    by (rule parse_proof_to_json) (simp_all add: exported_def hex)
  ultimately show ?thesis using that ra sa by blast
qed

text \<open>The service checks an exported proof by asking ed25519 about its two signatures, whatever
  the key pairs are and whatever amount is claimed.\<close>

lemma verify_exported:
  assumes laws: "wallet_libs L" and excess: "length excess = 33"
    and keys: "decode_grin_address L ra = Some (kp_public recipient)" "decode_grin_address L sa = Some (kp_public sender)"
  shows "verify_signatures L
      ((exported L recipient sender amount excess msg ra sa)\<lparr>pp_amount := claimed\<rparr>) \<longleftrightarrow>
    (let m = amount_to_be_u64 claimed @ excess @ kp_public sender in
     verify_ed25519 L (kp_public recipient) m (kp_sign recipient msg) \<and>
     verify_ed25519 L (kp_public sender) m (kp_sign sender msg))"
proof -
  have hex: "hex_decode L (hex_encode L bs) = Some bs" for bs
    using laws unfolding wallet_libs_def by blast
  then show ?thesis
    by (simp add: verify_signatures_def exported_def keys payment_proof_message_def excess Let_def)
qed

lemma exported_verifies:
  assumes "wallet_libs L" and "honest_key L recipient" and "honest_key L sender" and "length excess = 33"
    and "decode_grin_address L ra = Some (kp_public recipient)"
    and "decode_grin_address L sa = Some (kp_public sender)"
    and "msg = amount_to_be_u64 amount @ excess @ kp_public sender"
  shows "verify_signatures L (exported L recipient sender amount excess msg ra sa)"
  using verify_exported [OF assms(1,4-6), where amount = amount and claimed = amount and msg = msg] assms(2,3,7)
  by (simp add: exported_def Let_def verify_ed25519_iff honest_key_def)

section \<open>Libraries that decode what they encode\<close>

text \<open>
  A concrete instance of \<open>wallet_libs\<close>: hexadecimal digits, and addresses that spell each
  byte with two letters of the bech32 alphabet.
\<close>

definition value_in :: "string \<Rightarrow> char \<Rightarrow> nat" where
  "value_in alphabet c = length (takeWhile (\<lambda>x. x \<noteq> c) alphabet)"

lemma value_in_nth: "distinct alphabet \<Longrightarrow> n < length alphabet \<Longrightarrow> value_in alphabet (alphabet ! n) = n"
proof (induction alphabet arbitrary: n)
  case (Cons c cs)
  then show ?case by (cases n) (auto simp: value_in_def)
qed simp

fun in_pairs :: "('a \<Rightarrow> 'a \<Rightarrow> 'b) \<Rightarrow> 'a list \<Rightarrow> 'b list" where
  "in_pairs f (x # y # zs) = f x y # in_pairs f zs"
| "in_pairs f _ = []"

definition hex_digits :: string where "hex_digits = ''0123456789abcdef''"
definition bech32_letters :: string where "bech32_letters = ''qpzry9x8gf2tvdw0s3jn54khce6mua7l''"

definition hex_pair :: "u8 \<Rightarrow> string" where
  "hex_pair b = [hex_digits ! (unat b div 16), hex_digits ! (unat b mod 16)]"

definition base32_pair :: "u8 \<Rightarrow> u5 list" where
  "base32_pair b = [of_nat (unat b div 32), of_nat (unat b mod 32)]"

definition coding_libs :: libs where
  "coding_libs = demo_libs\<lparr>
     hex_encode := (\<lambda>bs. concat (map hex_pair bs)),
     hex_decode := (\<lambda>s. Some (in_pairs (\<lambda>x y. of_nat (16 * value_in hex_digits x + value_in hex_digits y)) s)),
     sha256_digest := (\<lambda>_. [0]),
     bech32_encode := (\<lambda>hrp d. Some (hrp @ ''1'' @ map (\<lambda>w. bech32_letters ! unat w) d)),
     bech32_decode := (\<lambda>s. Some (take 4 s, map (\<lambda>c. of_nat (value_in bech32_letters c)) (drop 5 s))),
     to_base32 := (\<lambda>bs. concat (map base32_pair bs)),
     from_base32 := (\<lambda>d. Some (in_pairs (\<lambda>x y. of_nat (32 * unat x + unat y)) d)),
     ed25519_verify := (\<lambda>key msg s. s = replicate 64 0)\<rparr>"

lemma pair_bounds: "unat (b :: u8) div 16 < 16" "unat b mod 16 < 16" "unat b div 32 < 8" "unat b mod 32 < 32"
proof -
  have "unat b < 256" using unsigned_less [of b] by simp
  then show "unat b div 16 < 16" "unat b mod 16 < 16" "unat b div 32 < 8" "unat b mod 32 < 32" by auto
qed

lemma pair_joins: "16 * of_nat (unat b div 16) + of_nat (unat b mod 16) = (b :: u8)"
proof -
  have "of_nat (16 * (unat b div 16) + unat b mod 16) = b" by (simp only: mult_div_mod_eq of_nat_unat ucast_id)
  then show ?thesis by (simp only: of_nat_add of_nat_mult of_nat_numeral)
qed

lemma base32_joins:
  "of_nat (32 * unat (of_nat (unat b div 32) :: u5) + unat (of_nat (unat b mod 32) :: u5)) = (b :: u8)"
proof -
  have "unat (of_nat (unat b div 32) :: u5) = unat b div 32" "unat (of_nat (unat b mod 32) :: u5) = unat b mod 32"
    using pair_bounds [of b] by (simp_all add: unat_of_nat)
  then show ?thesis by (simp only: mult_div_mod_eq of_nat_unat ucast_id)
qed

lemma letters:
  "distinct hex_digits" "length hex_digits = 16" "distinct bech32_letters" "length bech32_letters = 32"
  "list_all (\<lambda>c. is_ascii_hexdigit c \<and> \<not> is_ascii_uppercase c) hex_digits"
  "list_all (\<lambda>c. is_graphic c \<and> \<not> is_ascii_uppercase c) bech32_letters"
  by (simp_all add: hex_digits_def bech32_letters_def str_defs is_graphic_def)

lemma in_pairs_concat:
  assumes "\<And>b. b \<in> set bs \<Longrightarrow> \<exists>x y. e b = [x, y] \<and> f x y = b"
  shows "in_pairs f (concat (map e bs)) = bs"
  using assms by (induction bs) fastforce+

lemma wallet_libs_coding: "wallet_libs coding_libs"
proof -
  have hex: "in_pairs (\<lambda>x y. of_nat (16 * value_in hex_digits x + value_in hex_digits y)) (concat (map hex_pair bs)) = bs"
    for bs :: bytes
    by (rule in_pairs_concat) (simp add: hex_pair_def value_in_nth letters pair_bounds pair_joins)
  have base32: "in_pairs (\<lambda>x y. of_nat (32 * unat x + unat y)) (concat (map base32_pair bs)) = bs" for bs :: bytes
    by (rule in_pairs_concat) (intro exI conjI, rule base32_pair_def, rule base32_joins)
  have low: "lowercase_hex (concat (map hex_pair bs))" for bs
    using letters(2,5) by (auto simp: lowercase_hex_def list_all_iff hex_pair_def pair_bounds)
  have len: "length (concat (map hex_pair bs)) = 2 * length bs" for bs
    by (induction bs) (simp_all add: hex_pair_def)
  have "unat w < 32" for w :: u5 using unsigned_less [of w] by simp
  then have word: "value_in bech32_letters (bech32_letters ! unat w) = unat w" "unat w < 32" for w :: u5
    by (simp_all add: value_in_nth letters)
  then have plain: "is_graphic (bech32_letters ! unat w)" "\<not> is_ascii_uppercase (bech32_letters ! unat w)" for w :: u5
    using letters(4,6) by (simp_all add: list_all_iff)
  show ?thesis
    unfolding wallet_libs_def using hex base32
    by (simp add: coding_libs_def low len word plain list_all_iff o_def to_ascii_lowercase_def)
qed

section \<open>The paid claim is honoured\<close>

text \<open>
  C18. A buyer who paid gets the name. Let the wallet export a proof for the price and the
  payment address of a live offer of which the requester is the buyer, and let the node
  confirm its kernel deeply enough; then the claim is answered 201 with the buyer's new name,
  the name belongs to the buyer, and exactly this transfer is recorded, provided the seller
  still owns the name, the buyer owns none, and neither kernel nor offer is on record. It needs
  of the libraries that decoding inverts encoding and that ed25519 accepts a key's own
  signatures.
\<close>

theorem honest_buyer_served:
  assumes libs: "wallet_libs L" "honest_key L recipient" "honest_key L sender" "length excess = 33"
    and exported: "wallet_proof L recipient sender (i64_as_u64 (o_price_nanogrin offer)) excess = Some (v, address)"
    and login: "prologue L cfg ''transfer'' hs ''POST'' ''/api/v1/transfer/claim'' body w = Inr (buyer, w2)"
    and body: "json_from_slice L body = Some (JObject [(''offer_id'', JString i), (''proof'', v)])" "is_offer_id i"
    and offer: "get_offer (to_lowercase (unicode_lower L) i) (db w) = Some offer"
      "o_status offer = ''live''" "unix_now w \<le> o_expiration offer" "0 \<le> o_price_nanogrin offer"
      "o_proof_address offer = address" "o_buyer_pubkey offer = buyer"
    and owners: "owned (db w) (o_name offer) = Some (o_seller_pubkey offer)" "buyer \<notin> ran (owned (db w))"
    and fresh: "\<And>t. t \<in> set (tb_transfers (db w)) \<Longrightarrow>
      t_kernel_excess t \<noteq> hex_encode L excess \<and> t_offer_id t \<noteq> o_offer_id offer"
    and paid: "node w = Some nd" "cs_kernel nd (hex_encode L excess) = Inr krn" "k_found krn"
      "cfg_transfer_min_conf cfg \<le> k_confirmations krn"
    and healthy: "db_inv (db w)" "\<And>k. \<not> io_err (db w) k"
  shows "fst (run (claim L cfg hs body) w) =
      json_response CREATED (claim_success (o_name offer) (cfg_domain cfg) buyer) \<and>
    owned (db (snd (run (claim L cfg hs body) w))) = (owned (db w))(o_name offer \<mapsto> buyer) \<and>
    tb_transfers (db (snd (run (claim L cfg hs body) w))) = tb_transfers (db w) @
      [transfer_record offer (hex_encode L excess) (map_option u64_as_i64 (k_height krn)) (unix_now w)]"
proof -
  let ?price = "i64_as_u64 (o_price_nanogrin offer)" and ?hex = "hex_encode L excess"
  have keys: "length (kp_public recipient) = 32" "length (kp_public sender) = 32"
    using libs(2,3) by (simp_all add: honest_key_def)
  obtain ra sa msg v' where made: "wallet_proof L recipient sender ?price excess = Some (v', ra)"
    and parsed: "parse_payment_proof L v' = Some (exported L recipient sender ?price excess msg ra sa)"
    and msg: "msg = amount_to_be_u64 ?price @ excess @ kp_public sender"
    and addresses: "decode_grin_address L ra = Some (kp_public recipient)"
      "decode_grin_address L sa = Some (kp_public sender)" "normalize_grin_address L ra = ra"
    using wallet_proof_exported [OF libs(1) keys libs(4)] by metis
  let ?pf = "exported L recipient sender ?price excess msg ra sa"
  have v: "v = v'" "address = ra" using made exported by simp_all
  have pf: "pp_excess_hex ?pf = ?hex" "pp_recipient_address ?pf = ra" "pp_amount ?pf = ?price"
    by (simp_all add: exported_def)
  have asked: "claim_asked L cfg hs body w buyer offer ?pf"
    using login body offer(1) parsed by (simp add: claim_asked_def claim_request_def Let_def v)
  have st: "settled offer w = offer" "o_status offer \<noteq> ''consumed''"
    using offer(2,3) by (simp_all add: settled_def settle_expiry_def)
  have "verify_signatures L ?pf" by (rule exported_verifies [OF libs addresses(1,2) msg])
  then have "claim_ok L cfg buyer offer ?pf (unix_now w) w (map_option u64_as_i64 (k_height krn))"
    using offer owners fresh paid addresses(3)
    by (simp add: claim_ok_def death_gate_def proof_gate_def kernel_gate_def observed_kernel_def pf v Let_def)
  from run_claim_ok [OF healthy asked st this] show ?thesis by (simp add: offer(6) pf)
qed

text \<open>The buyer of the example pays with keys of the tests' shape, and sends the exported proof.\<close>

definition shop_key :: keypair where "shop_key = \<lparr>kp_sign = (\<lambda>_. replicate 64 0), kp_public = replicate 32 7\<rparr>"
definition buyer_key :: keypair where "buyer_key = \<lparr>kp_sign = (\<lambda>_. replicate 64 0), kp_public = replicate 32 9\<rparr>"

definition shop_address :: string where
  "shop_address = snd (the (wallet_proof coding_libs shop_key buyer_key 5 (replicate 33 0)))"

definition shop_libs :: libs where
  "shop_libs = coding_libs\<lparr>json_from_slice := (\<lambda>bs.
     map_option (\<lambda>(v, _). JObject [(''offer_id'', JString offer_c), (''proof'', v)])
       (wallet_proof coding_libs shop_key buyer_key 5 (replicate 33 0)))\<rparr>"

definition shop_row :: offer_row where
  "shop_row = demo_row\<lparr>o_proof_address := shop_address\<rparr>"

lemma shop_login:
  "\<exists>w2. prologue shop_libs demo_cfg ''transfer'' (demo_headers 4) ''POST'' ''/api/v1/transfer/claim''
    (demo_body 4) (demo_world [alice_row] [shop_row]) = Inr (key_b, w2)"
proof -
  have same: "base64_decode shop_libs = base64_decode demo_libs" "event_from_json shop_libs = event_from_json demo_libs"
    "event_verify shop_libs = event_verify demo_libs"
    "hex_encode shop_libs (sha256_digest shop_libs body) = hex_encode demo_libs (sha256_digest demo_libs body)" for body
    by (simp_all add: shop_libs_def coding_libs_def hex_pair_def hex_digits_def) (simp add: demo_libs_def)
  have "verify_nip98 shop_libs now hs meth path body url age = verify_nip98 demo_libs now hs meth path body url age"
    for now hs meth path body url age
    unfolding verify_nip98_def same by (rule refl)
  note verify = this
  have "prologue shop_libs demo_cfg b hs m p body w = prologue demo_libs demo_cfg b hs m p body w"
    for b hs m p body w
    unfolding prologue_def authorised_by_def verify by (rule refl)
  then show ?thesis using demo_logins(4) by simp
qed

theorem honest_buyer_served_witness:
  "owned (db (snd (run (claim shop_libs demo_cfg (demo_headers 4) (demo_body 4))
     (demo_world [alice_row] [shop_row])))) = [''alice'' \<mapsto> key_b]"
proof -
  let ?w = "demo_world [alice_row] [shop_row]" and ?ex = "replicate 33 0 :: bytes"
  have libs: "wallet_libs shop_libs"
    using wallet_libs_coding by (simp add: wallet_libs_def shop_libs_def)
  have keys: "honest_key shop_libs shop_key" "honest_key shop_libs buyer_key"
    by (simp_all add: honest_key_def shop_key_def buyer_key_def shop_libs_def coding_libs_def)
       (simp_all add: demo_libs_def)
  have same: "wallet_proof shop_libs = wallet_proof coding_libs"
    by (simp add: fun_eq_iff wallet_proof_def payment_proof_message_def grin_address_from_pubkey_def shop_libs_def)
  have "length (kp_public shop_key) = 32" "length (kp_public buyer_key) = 32" "length ?ex = 33"
    by (simp_all add: shop_key_def buyer_key_def)
  then obtain v ra where made: "wallet_proof coding_libs shop_key buyer_key 5 ?ex = Some (v, ra)"
    using wallet_proof_exported [OF wallet_libs_coding] by metis
  then have v: "wallet_proof coding_libs shop_key buyer_key 5 ?ex = Some (v, shop_address)"
    by (simp add: shop_address_def)
  obtain w2 where login: "prologue shop_libs demo_cfg ''transfer'' (demo_headers 4) ''POST''
      ''/api/v1/transfer/claim'' (demo_body 4) ?w = Inr (key_b, w2)"
    using shop_login by blast
  have body: "json_from_slice shop_libs (demo_body 4) = Some (JObject [(''offer_id'', JString offer_c), (''proof'', v)])"
    by (simp add: shop_libs_def v)
  have row: "get_offer (to_lowercase (unicode_lower shop_libs) offer_c) (db ?w) = Some shop_row"
    by (simp add: get_offer_row query_row_def shop_row_def demo_lowercase_hex)
  have fields: "o_price_nanogrin shop_row = 5" "o_status shop_row = ''live''" "o_expiration shop_row = 2000"
    "o_proof_address shop_row = shop_address" "o_buyer_pubkey shop_row = key_b" "o_name shop_row = ''alice''"
    "o_seller_pubkey shop_row = key_a"
    by (simp_all add: shop_row_def demo_row_def)
  have hex: "hex_encode shop_libs ?ex = excess_0"
    by (simp add: shop_libs_def coding_libs_def hex_pair_def hex_digits_def excess_0_def) code_simp
  have inv: "db_inv (db ?w)" and io: "\<And>k. \<not> io_err (db ?w) k"
    by (simp_all add: shop_row_def demo_row_def db_inv_def names_inv_def offers_inv_def transfers_inv_def
        consumed_recorded_def offer_statuses_def)
  have krn: "cs_kernel demo_node excess_0 = Inr \<lparr>k_found = True, k_confirmations = 20, k_height = Some 500\<rparr>"
    by (simp add: demo_node_def test_chain_def set_kernel_def)
  have price: "i64_as_u64 (o_price_nanogrin shop_row) = 5" by (simp add: fields i64_as_u64_def)
  have proof_made: "wallet_proof shop_libs shop_key buyer_key (i64_as_u64 (o_price_nanogrin shop_row)) ?ex =
      Some (v, shop_address)"
    unfolding same price by (rule v)
  have state: "unix_now ?w \<le> o_expiration shop_row" "0 \<le> o_price_nanogrin shop_row"
    "owned (db ?w) (o_name shop_row) = Some (o_seller_pubkey shop_row)" "key_b \<notin> ran (owned (db ?w))"
    "node ?w = Some demo_node"
    by (simp_all add: fields)
  have fresh: "t_kernel_excess t \<noteq> hex_encode shop_libs ?ex \<and> t_offer_id t \<noteq> o_offer_id shop_row"
    if "t \<in> set (tb_transfers (db ?w))" for t
    using that by simp
  have deep: "k_found \<lparr>k_found = True, k_confirmations = 20, k_height = Some 500\<rparr>"
    "cfg_transfer_min_conf demo_cfg \<le> k_confirmations \<lparr>k_found = True, k_confirmations = 20, k_height = Some 500\<rparr>"
    by (simp_all add: demo_cfg_def)
  have "owned (db (snd (run (claim shop_libs demo_cfg (demo_headers 4) (demo_body 4)) ?w))) =
      (owned (db ?w))(o_name shop_row \<mapsto> key_b)"
    by (rule honest_buyer_served [OF libs keys length_replicate proof_made login body demo_lowercase_hex(3) row
          fields(2) state(1,2) fields(4,5) state(3,4) fresh state(5) krn [folded hex] deep
          inv io, THEN conjunct2, THEN conjunct1])
  then show ?thesis by (simp add: fields)
qed

end
