(* ===== verification/Unit_Tests.thy ===== *)
theory Unit_Tests
  imports Wallet
begin

text \<open>
  The unit tests that stand in the source files (\<open>names.rs\<close>, \<open>config.rs\<close>, \<open>db.rs\<close>,
  \<open>ratelimit.rs\<close>, \<open>node.rs\<close>, \<open>proof.rs\<close>), translated: a test is an executable
  definition with the test's name, the conjunction of its assertions with the state passed along,
  and its lemma \<open>..._passes\<close> says when the assertions hold on the model. What a test draws at
  random or reads of its environment (keys, libraries, clocks, the time between two calls) is an
  argument.
\<close>

section \<open>names.rs\<close>

lemmas name_eval =
  valid_name_def valid_name_checked_def ok_char_def str_defs Let_def is_reserved_def RESERVED_def
  fold_lookalike_def fold_char_def map_filter_simps valid_pubkey_hex_def char_count_def is_cont_byte_def
  trim_graphic is_graphic_def trim_end_matches_def to_lowercase_def to_ascii_lowercase_def char_eval

definition name_validation :: bool where
  "name_validation \<longleftrightarrow> (let lo = 3; hi = 20 in
     valid_name ''ada'' lo hi \<and>
     valid_name ''ada.wren-99_x'' lo hi \<and>
     \<not> valid_name ''ab'' lo hi \<and>
     \<not> valid_name ''Ada'' lo hi \<and>
     \<not> valid_name ''.ada'' lo hi \<and>
     \<not> valid_name ''ada.'' lo hi \<and>
     \<not> valid_name ''a d a'' lo hi \<and>
     \<not> valid_name (replicate 21 (CHR ''a'')) lo hi \<and>
     valid_name (replicate 20 (CHR ''a'')) lo hi \<and>
     \<not> valid_name [CHR ''p'', CHR 0xC3, CHR 0xA4, CHR ''g'', CHR ''e''] lo hi)"

lemma name_validation_passes: "name_validation"
  unfolding name_validation_def Let_def
  by (intro conjI; simp add: name_eval eval_nat_numeral(2,3))

definition reserved_and_lookalikes :: bool where
  "reserved_and_lookalikes \<longleftrightarrow>
     is_reserved ''support'' [] \<and>
     is_reserved ''supp0rt'' [] \<and>
     is_reserved ''adm1n'' [] \<and>
     \<not> is_reserved ''goblin'' [] \<and>
     is_reserved ''acme'' [''acme''] \<and>
     is_reserved ''acm3'' [''acme''] \<and>
     \<not> is_reserved ''acmecorp'' [''acme'']"

lemma reserved_and_lookalikes_passes: "reserved_and_lookalikes"
  unfolding reserved_and_lookalikes_def by (intro conjI; simp add: name_eval)

definition domain_labels_reserved :: "(string \<Rightarrow> string) \<Rightarrow> bool" where
  "domain_labels_reserved ul \<longleftrightarrow>
     domain_reserved ul ''goblin.st'' = [''goblin''] \<and>
     domain_reserved ul ''acme.example'' = [''acme''] \<and>
     domain_reserved ul ''names.acme.example'' = [''names'', ''acme''] \<and>
     domain_reserved ul ''GOBLIN.ST'' = [''goblin''] \<and>
     domain_reserved ul ''localhost'' = [''localhost''] \<and>
     (let extra = domain_reserved ul ''goblin.st'' in
      is_reserved ''goblin'' extra \<and>
      is_reserved ''g0blin'' extra \<and>
      is_reserved ''g-o-b-l-i-n'' extra \<and>
      \<not> is_reserved ''goblinfan'' extra)"

lemma goblin_labels: "domain_reserved ul ''goblin.st'' = [''goblin'']"
  by (simp add: domain_reserved_def name_eval)

lemma domain_labels_reserved_passes: "domain_labels_reserved ul"
  unfolding domain_labels_reserved_def goblin_labels Let_def
  by (intro conjI; simp add: domain_reserved_def name_eval)

definition pubkey_validation :: bool where
  "pubkey_validation \<longleftrightarrow>
     valid_pubkey_hex ''91cf9dbbea5e6511fd2bbb190b112055ee4131c5d2bbb9faedf3ee8cbeac0d05'' \<and>
     \<not> valid_pubkey_hex ''91CF9DBBEA5E6511FD2BBB190B112055EE4131C5D2BBB9FAEDF3EE8CBEAC0D05'' \<and>
     \<not> valid_pubkey_hex ''abc''"

lemma pubkey_validation_passes: "pubkey_validation"
  unfolding pubkey_validation_def by (intro conjI; simp add: name_eval)

section \<open>config.rs\<close>

lemmas config_eval = validate_def config_for_test_def str_defs Let_def strip_prefix_def

definition rejects_non_https_base_url :: "libs \<Rightarrow> bool" where
  "rejects_non_https_base_url L \<longleftrightarrow>
     (let c = config_for_test L; c = c\<lparr>cfg_base_url := ''http://goblin.st''\<rparr>
      in isl (validate c))"

lemma rejects_non_https_base_url_passes: "rejects_non_https_base_url L"
  by (simp add: rejects_non_https_base_url_def config_eval)

definition rejects_base_url_domain_mismatch :: "libs \<Rightarrow> bool" where
  "rejects_base_url_domain_mismatch L \<longleftrightarrow>
     (let c = config_for_test L; c = c\<lparr>cfg_base_url := ''https://example.com''\<rparr>
      in isl (validate c))"

lemma rejects_base_url_domain_mismatch_passes: "rejects_base_url_domain_mismatch L"
  by (simp add: rejects_base_url_domain_mismatch_def config_eval)

definition accepts_matching_base_url_with_port :: "libs \<Rightarrow> bool" where
  "accepts_matching_base_url_with_port L \<longleftrightarrow>
     (let c = config_for_test L;
          c = c\<lparr>cfg_domain := ''names.example''\<rparr>;
          c = c\<lparr>cfg_base_url := ''https://names.example:8443''\<rparr>
      in \<not> isl (validate c))"

lemma accepts_matching_base_url_with_port_passes: "accepts_matching_base_url_with_port L"
  by (simp add: accepts_matching_base_url_with_port_def config_eval)

definition rejects_bad_name_bounds :: "libs \<Rightarrow> bool" where
  "rejects_bad_name_bounds L \<longleftrightarrow>
     (let c = config_for_test L; c = c\<lparr>cfg_name_min := 10\<rparr>; c = c\<lparr>cfg_name_max := 5\<rparr>
      in isl (validate c))"

lemma rejects_bad_name_bounds_passes: "rejects_bad_name_bounds L"
  by (simp add: rejects_bad_name_bounds_def config_eval)

definition transfers_on_without_node_url_fails_fast :: "libs \<Rightarrow> bool" where
  "transfers_on_without_node_url_fails_fast L \<longleftrightarrow>
     (let c = config_for_test L;
          c = c\<lparr>cfg_allow_transfers := True\<rparr>;
          c = c\<lparr>cfg_grin_node_url := None\<rparr>
      in isl (validate c) \<and>
         (let c = c\<lparr>cfg_grin_node_url := Some ''https://node.example/v2/foreign''\<rparr>
          in \<not> isl (validate c) \<and>
             grin_node_endpoints c = [''https://node.example/v2/foreign'']))"

lemma transfers_on_without_node_url_fails_fast_passes: "transfers_on_without_node_url_fails_fast L"
  by (simp add: transfers_on_without_node_url_fails_fast_def config_eval grin_node_endpoints_def trim_graphic is_graphic_def)

text \<open>Not a test of the source: the line \<open>Config::summary\<close> prints for the test configuration.\<close>

lemma summary_of_test_configuration:
  "summary dbg (config_for_test L) =
   ''domain=goblin.st base_url=https://goblin.st relays=['' @ [CHR 0x22] @ ''wss://relay.floonet.dev'' @ [CHR 0x22] @
   ''] bind=127.0.0.1:0 db=:memory: name_len=3..=20 cooldown=600s auth_max_age=60s '' @
   ''read=100000req/60s write=100000req/3600s reserved_extra=1 transfers=off''"
proof -
  have "debug_str dbg ''wss://relay.floonet.dev'' = [CHR 0x22] @ ''wss://relay.floonet.dev'' @ [CHR 0x22]"
    by (simp add: debug_str_def escape_debug_def str_defs)
  moreover have "show_nat 3 = ''3''" "show_nat 20 = ''20''" "show_nat 600 = ''600''" "show_nat 60 = ''60''"
    "show_nat 100000 = ''100000''" "show_nat 3600 = ''3600''" "show_nat (Suc 0) = ''1''"
    by (simp_all add: show_nat.simps char_eval)
  ultimately show ?thesis
    by (simp add: summary_def config_for_test_def as_secs_def from_secs_def show_i64_def goblin_labels)
qed

section \<open>db.rs\<close>

definition released_name_immediately_reclaimable :: bool where
  "released_name_immediately_reclaimable \<longleftrightarrow>
     (let c = empty_conn;
          a = concat (replicate 32 ''aa'');
          b = concat (replicate 32 ''bb'');
          c = c\<lparr>tb_names := tb_names c @
            [\<lparr>n_name = ''alice'', n_pubkey = a, n_created_at = 1, n_released_at = Some 5\<rparr>]\<rparr>;
          (n, c) = register_name ''alice'' b 6 c
      in n = Inr 1 \<and> lookup ''alice'' c = Some b)"

lemma released_name_immediately_reclaimable_passes: "released_name_immediately_reclaimable"
  unfolding released_name_immediately_reclaimable_def Let_def
  by (simp add: sql_defs pubkey_active_elsewhere_def active_def update_rows_def empty_conn_def)

section \<open>ratelimit.rs\<close>

lemma recent_simps [simp]:
  "recent win key now [] = []"
  "recent win key now ((k, t) # hist) =
     (if k = key \<and> now - t < win then t # recent win key now hist else recent win key now hist)"
  by (simp_all add: recent_def)

text \<open>\<open>app()\<close>, on an empty in-memory database; the clock moves on between two calls.\<close>

definition test_app :: "libs \<Rightarrow> transport \<Rightarrow> nat \<Rightarrow> int \<Rightarrow> world" where
  "test_app L T t st = app_open L T (config_for_test L) empty_conn t st"

definition later :: "nat \<Rightarrow> world \<Rightarrow> world" where
  "later d w = w\<lparr>instant := instant w + d\<rparr>"

definition allow_caps_at_max :: "libs \<Rightarrow> transport \<Rightarrow> nat \<Rightarrow> int \<Rightarrow> nat \<times> nat \<times> nat \<times> nat \<Rightarrow> bool" where
  "allow_caps_at_max L T t st delays \<longleftrightarrow>
     (let (d1, d2, d3, d4) = delays;
          app = test_app L T t st;
          w = from_secs 60;
          (ok1, app) = allow ''b'' ''1.2.3.4'' 3 w app;
          (ok2, app) = allow ''b'' ''1.2.3.4'' 3 w (later d1 app);
          (ok3, app) = allow ''b'' ''1.2.3.4'' 3 w (later d2 app);
          (ok4, app) = allow ''b'' ''1.2.3.4'' 3 w (later d3 app);
          (other, app) = allow ''b'' ''5.6.7.8'' 3 w (later d4 app)
      in ok1 \<and> ok2 \<and> ok3 \<and> \<not> ok4 \<and> other)"

definition auth_replay_detected :: "libs \<Rightarrow> transport \<Rightarrow> nat \<Rightarrow> int \<Rightarrow> nat \<Rightarrow> bool" where
  "auth_replay_detected L T t st d \<longleftrightarrow>
     (let app = test_app L T t st;
          (first, app) = auth_event_fresh (config_for_test L) ''eventid'' app;
          (again, app) = auth_event_fresh (config_for_test L) ''eventid'' (later d app)
      in first \<and> \<not> again)"

definition cooldown_records_and_clears :: "libs \<Rightarrow> transport \<Rightarrow> nat \<Rightarrow> int \<Rightarrow> nat \<Rightarrow> nat \<Rightarrow> bool" where
  "cooldown_records_and_clears L T t st d1 d2 \<longleftrightarrow>
     (let app = test_app L T t st;
          w = from_secs 600;
          (before, app) = cooldown_active ''nc'' ''pk'' w app;
          (_, app) = record_op ''nc'' ''pk'' app;
          (during, app) = cooldown_active ''nc'' ''pk'' w (later d1 app);
          (zero, app) = cooldown_active ''nc'' ''pk'' 0 (later d2 app)
      in \<not> before \<and> during \<and> \<not> zero)"

text \<open>The tests pass when they run in less than the windows they set: a minute, sixty-five
  seconds, ten minutes.\<close>

lemma fourth_call_refused:
  assumes "bucket_key b ip' \<noteq> bucket_key b ip" and "t4 - t < win" and "t \<le> t2" "t2 \<le> t3" "t3 \<le> t4"
  shows "window_run win [] [(b, ip, 3, t), (b, ip, 3, t2), (b, ip, 3, t3), (b, ip, 3, t4), (b, ip', 3, t5)] =
    [True, True, True, False, True]"
proof -
  have young: "t2 - t < win" "t3 - t < win" "t3 - t2 < win" "t4 - t2 < win" "t4 - t3 < win" "0 < win"
    using assms(2-5) by linarith+
  show ?thesis using assms(1,2) by (simp add: young Let_def)
qed

lemma allow_caps_at_max_passes:
  assumes "d1 + d2 + d3 < from_secs 60"
  shows "allow_caps_at_max L T t st (d1, d2, d3, d4)"
proof -
  let ?app = "test_app L T t st" and ?b = "''b''" and ?ip = "''1.2.3.4''"
  let ?calls = "[(?b, ?ip, 3, t), (?b, ?ip, 3, t + d1), (?b, ?ip, 3, t + d1 + d2),
    (?b, ?ip, 3, t + d1 + d2 + d3), (?b, ''5.6.7.8'', 3, t + d1 + d2 + d3 + d4)]"
  have "agrees (from_secs 60) 0 ?app []"
    by (rule agrees_start) (simp add: test_app_def app_open_def open_with_node_def)
  then have "limiter_run (from_secs 60) ?app ?calls = window_run (from_secs 60) [] ?calls"
    by (rule limiter_agrees) (simp_all add: call_time_def)
  also have "\<dots> = [True, True, True, False, True]"
    by (rule fourth_call_refused) (use assms in \<open>simp_all add: bucket_key_def\<close>)
  finally have run: "limiter_run (from_secs 60) ?app ?calls = [True, True, True, False, True]" .
  have start: "instant ?app = t" "?app\<lparr>instant := t\<rparr> = ?app"
    by (simp_all add: test_app_def app_open_def open_with_node_def)
  show ?thesis
    using run by (simp add: allow_caps_at_max_def case_prod_beta Let_def later_def allow_frame start)
qed

lemma auth_replay_detected_passes:
  assumes "d < from_secs 65"
  shows "auth_replay_detected L T t st d"
proof -
  have "replay_window (config_for_test L) = from_secs 65"
    by (simp add: replay_window_def config_for_test_def from_secs_def i64_as_u64_def)
  then show ?thesis
    using assms
    by (simp add: auth_replay_detected_def later_def test_app_def auth_event_fresh_def app_open_def
        open_with_node_def Let_def Mapping.lookup_filter Mapping.lookup_update')
qed

lemma cooldown_records_and_clears_passes:
  "d1 < from_secs 600 \<Longrightarrow> cooldown_records_and_clears L T t st d1 d2"
  by (simp add: cooldown_records_and_clears_def later_def test_app_def cooldown_active_def record_op_def
      app_open_def open_with_node_def retain_def Let_def Mapping.lookup_default_empty Mapping.lookup_update')

section \<open>node.rs\<close>

definition test_source_reports_kernels_and_tip :: "libs \<Rightarrow> bool" where
  "test_source_reports_kernels_and_tip L \<longleftrightarrow>
     (let src = test_source_new 1000;
          src = set_kernel L ''ab'' 900 101 src
      in (case cs_kernel (test_chain L src) ''AB'' of
            Inl _ \<Rightarrow> False
          | Inr k \<Rightarrow> k_found k \<and> k_height k = Some 900 \<and> k_confirmations k = 101) \<and>
         cs_tip_height (test_chain L src) = Inr 1000 \<and>
         (case cs_kernel (test_chain L src) ''cd'' of Inl _ \<Rightarrow> False | Inr k \<Rightarrow> \<not> k_found k) \<and>
         (let src = fail_tip True src in isl (cs_tip_height (test_chain L src))))"

lemma test_source_reports_kernels_and_tip_passes: "test_source_reports_kernels_and_tip L"
  by (simp add: test_source_reports_kernels_and_tip_def test_chain_def set_kernel_def test_source_new_def
      fail_tip_def kernel_not_found_def str_defs to_lowercase_def to_ascii_lowercase_def char_eval)

section \<open>proof.rs\<close>

text \<open>The tests on a proof start from \<open>make_proof\<close> and what the service parses of it.\<close>

definition with_parsed ::
  "libs \<Rightarrow> keypair \<Rightarrow> keypair \<Rightarrow> u64 \<Rightarrow> (parsed_payment_proof \<Rightarrow> bool) \<Rightarrow> bool" where
  "with_parsed L recipient sender amount check \<longleftrightarrow>
     (case make_proof L recipient sender amount of
        None \<Rightarrow> False
      | Some (json, _) \<Rightarrow>
          (case parse_payment_proof L json of None \<Rightarrow> False | Some p \<Rightarrow> check p))"

definition grin_address_round_trips :: "libs \<Rightarrow> keypair \<Rightarrow> bool" where
  "grin_address_round_trips L kp \<longleftrightarrow>
     (case grin_address_from_pubkey L (kp_public kp) ''grin'' of
        None \<Rightarrow> False
      | Some grin \<Rightarrow> take 5 grin = ''grin1'' \<and> decode_grin_address L grin = Some (kp_public kp))"

definition message_layout_is_amount_excess_sender :: "libs \<Rightarrow> keypair \<Rightarrow> bool" where
  "message_layout_is_amount_excess_sender L kp \<longleftrightarrow>
     (let sender = kp_public kp; excess_hex = hex_encode L (replicate 33 7) in
      case payment_proof_message L 5 excess_hex sender of
        None \<Rightarrow> False
      | Some msg \<Rightarrow>
          length msg = 73 \<and> take 8 msg = [0, 0, 0, 0, 0, 0, 0, 5] \<and> drop 41 msg = sender)"

definition message_rejects_wrong_length_excess :: "libs \<Rightarrow> keypair \<Rightarrow> bool" where
  "message_rejects_wrong_length_excess L kp \<longleftrightarrow>
     payment_proof_message L 5 (hex_encode L (replicate 10 0)) (kp_public kp) = None"

definition parse_requires_all_six_fields :: "libs \<Rightarrow> keypair \<Rightarrow> keypair \<Rightarrow> bool" where
  "parse_requires_all_six_fields L recipient sender \<longleftrightarrow>
     (case make_proof L recipient sender 1500000000 of
        None \<Rightarrow> False
      | Some (good, _) \<Rightarrow>
          parse_payment_proof L good \<noteq> None \<and>
          (case as_object good of
             None \<Rightarrow> False
           | Some obj \<Rightarrow>
               (let obj = filter (\<lambda>(k, _). k \<noteq> ''sender_sig'') obj
                in parse_payment_proof L (JObject obj) = None)))"

definition genuine_proof_verifies_both_signatures :: "libs \<Rightarrow> keypair \<Rightarrow> keypair \<Rightarrow> bool" where
  "genuine_proof_verifies_both_signatures L recipient sender \<longleftrightarrow>
     with_parsed L recipient sender 1500000000 (verify_signatures L)"

definition tampered_recipient_signature_is_rejected :: "libs \<Rightarrow> keypair \<Rightarrow> keypair \<Rightarrow> bool" where
  "tampered_recipient_signature_is_rejected L recipient sender \<longleftrightarrow>
     with_parsed L recipient sender 1500000000 (\<lambda>p.
       \<not> verify_signatures L (p\<lparr>pp_recipient_sig_hex := ''ff'' @ drop 2 (pp_recipient_sig_hex p)\<rparr>))"

definition tampered_sender_signature_is_rejected :: "libs \<Rightarrow> keypair \<Rightarrow> keypair \<Rightarrow> bool" where
  "tampered_sender_signature_is_rejected L recipient sender \<longleftrightarrow>
     with_parsed L recipient sender 1500000000 (\<lambda>p.
       \<not> verify_signatures L (p\<lparr>pp_sender_sig_hex := ''ff'' @ drop 2 (pp_sender_sig_hex p)\<rparr>))"

definition wrong_amount_breaks_the_signature :: "libs \<Rightarrow> keypair \<Rightarrow> keypair \<Rightarrow> bool" where
  "wrong_amount_breaks_the_signature L recipient sender \<longleftrightarrow>
     with_parsed L recipient sender 1500000000 (\<lambda>p.
       \<not> verify_signatures L (p\<lparr>pp_amount := pp_amount p + 1\<rparr>))"

text \<open>The proof of the fixture is the wallet's proof for its excess.\<close>

lemma make_proof_exported:
  assumes laws: "wallet_libs L" and keys: "length (kp_public recipient) = 32" "length (kp_public sender) = 32"
  obtains ra sa msg v excess where "make_proof L recipient sender amount = Some (v, ra)"
    and "length excess = 33"
    and "parse_payment_proof L v = Some (exported L recipient sender amount excess msg ra sa)"
    and "v = proof_to_json (exported L recipient sender amount excess msg ra sa)"
    and "msg = amount_to_be_u64 amount @ excess @ kp_public sender"
    and "decode_grin_address L ra = Some (kp_public recipient)"
    and "decode_grin_address L sa = Some (kp_public sender)"
proof -
  let ?excess = "(kp_public recipient @ drop 32 (replicate 33 0))[32 := 8]"
  have len: "length ?excess = 33" using keys(1) by simp
  show ?thesis
    by (rule wallet_proof_exported [OF laws keys len, of amount])
       (rule that [OF _ len]; simp add: make_proof_def Let_def)
qed

lemma grin_address_round_trips_passes:
  assumes "wallet_libs L" and "length (kp_public kp) = 32"
  shows "grin_address_round_trips L kp"
  by (rule address_roundtrip [OF assms])
     (simp add: grin_address_round_trips_def)

lemma message_layout_is_amount_excess_sender_passes:
  assumes "wallet_libs L" and "length (kp_public kp) = 32"
  shows "message_layout_is_amount_excess_sender L kp"
proof -
  have "hex_decode L (hex_encode L (replicate 33 7)) = Some (replicate 33 7)"
    using assms(1) unfolding wallet_libs_def by blast
  then show ?thesis
    using assms(2)
    by (simp add: message_layout_is_amount_excess_sender_def payment_proof_message_def amount_to_be_u64_def upt_rec)
qed

lemma message_rejects_wrong_length_excess_passes:
  assumes "wallet_libs L"
  shows "message_rejects_wrong_length_excess L kp"
proof -
  have "hex_decode L (hex_encode L (replicate 10 0)) = Some (replicate 10 0)"
    using assms unfolding wallet_libs_def by blast
  then show ?thesis by (simp add: message_rejects_wrong_length_excess_def payment_proof_message_def)
qed

lemma parse_requires_all_six_fields_passes:
  assumes "wallet_libs L" and "length (kp_public recipient) = 32" and "length (kp_public sender) = 32"
  shows "parse_requires_all_six_fields L recipient sender"
  by (rule make_proof_exported [OF assms, of 1500000000])
     (simp add: parse_requires_all_six_fields_def proof_to_json_def parse_payment_proof_def Let_def)

lemma genuine_proof_verifies_both_signatures_passes:
  assumes "wallet_libs L" and "honest_key L recipient" and "honest_key L sender"
  shows "genuine_proof_verifies_both_signatures L recipient sender"
proof -
  have keys: "length (kp_public recipient) = 32" "length (kp_public sender) = 32"
    using assms(2,3) by (simp_all add: honest_key_def)
  show ?thesis
    by (rule make_proof_exported [OF assms(1) keys, of 1500000000])
       (simp add: genuine_proof_verifies_both_signatures_def with_parsed_def exported_verifies [OF assms])
qed

text \<open>No signature of one message verifies for another: then the amount is bound.\<close>

lemma wrong_amount_breaks_the_signature_passes:
  assumes "wallet_libs L" and "honest_key L recipient" and "honest_key L sender"
    and "\<And>m m'. m \<noteq> m' \<Longrightarrow> \<not> ed25519_verify L (kp_public sender) m' (kp_sign sender m)"
  shows "wrong_amount_breaks_the_signature L recipient sender"
proof -
  have keys: "length (kp_public recipient) = 32" "length (kp_public sender) = 32"
    using assms(2,3) by (simp_all add: honest_key_def)
  obtain ra sa msg v excess where made: "make_proof L recipient sender 1500000000 = Some (v, ra)"
      "length excess = 33"
      "parse_payment_proof L v = Some (exported L recipient sender 1500000000 excess msg ra sa)"
      "msg = amount_to_be_u64 1500000000 @ excess @ kp_public sender"
      "decode_grin_address L ra = Some (kp_public recipient)"
      "decode_grin_address L sa = Some (kp_public sender)"
    using make_proof_exported [OF assms(1) keys] by metis
  have "amount_to_be_u64 1500000001 @ excess @ kp_public sender \<noteq> msg"
    by (simp add: made(4) amount_to_be_u64_inj)
  then have "\<not> verify_ed25519 L (kp_public sender) (amount_to_be_u64 1500000001 @ excess @ kp_public sender)
      (kp_sign sender msg)"
    using assms(4) by (metis verify_ed25519_iff)
  then have "\<not> verify_signatures L ((exported L recipient sender 1500000000 excess msg ra sa)\<lparr>pp_amount := 1500000001\<rparr>)"
    unfolding verify_exported [OF assms(1) made(2,5,6)] by (simp add: Let_def)
  then show ?thesis
    by (simp add: wrong_amount_breaks_the_signature_def with_parsed_def made(1,3)) (simp add: exported_def)
qed

text \<open>
  The two tests with a tampered signature replace its first byte by \<open>ff\<close>. They pass exactly
  when ed25519 refuses the result; if the drawn signature begins with that byte already, nothing
  is tampered with and the assertion fails.
\<close>

definition fixture_message :: "keypair \<Rightarrow> keypair \<Rightarrow> bytes" where
  "fixture_message recipient sender =
     amount_to_be_u64 1500000000 @ (kp_public recipient @ [8]) @ kp_public sender"

definition tampered_accepted :: "libs \<Rightarrow> keypair \<Rightarrow> bytes \<Rightarrow> bool" where
  "tampered_accepted L kp msg \<longleftrightarrow>
     (\<exists>sg. hex_decode L (''ff'' @ drop 2 (hex_encode L (kp_sign kp msg))) = Some sg \<and>
        verify_ed25519 L (kp_public kp) msg sg)"

lemma tampered_signature_iff:
  assumes "wallet_libs L" and "honest_key L recipient" and "honest_key L sender"
  shows "tampered_recipient_signature_is_rejected L recipient sender \<longleftrightarrow>
      \<not> tampered_accepted L recipient (fixture_message recipient sender)"
    and "tampered_sender_signature_is_rejected L recipient sender \<longleftrightarrow>
      \<not> tampered_accepted L sender (fixture_message recipient sender)"
proof -
  let ?msg = "fixture_message recipient sender" and ?excess = "kp_public recipient @ [8]"
  have keys: "length (kp_public recipient) = 32" "length (kp_public sender) = 32"
    using assms(2,3) by (simp_all add: honest_key_def)
  have len: "length ?excess = 33" using keys(1) by simp
  have filled: "(kp_public recipient @ drop 32 (replicate 33 0))[32 := 8] = ?excess"
    using keys(1) by (simp add: list_update_append)
  obtain ra sa v where made: "make_proof L recipient sender 1500000000 = Some (v, ra)"
      "parse_payment_proof L v = Some (exported L recipient sender 1500000000 ?excess ?msg ra sa)"
      "decode_grin_address L ra = Some (kp_public recipient)"
      "decode_grin_address L sa = Some (kp_public sender)"
    using wallet_proof_exported [OF assms(1) keys len, of 1500000000]
    unfolding make_proof_def Let_def filled fixture_message_def by metis
  have hex: "hex_decode L (hex_encode L bs) = Some bs" for bs
    using assms(1) unfolding wallet_libs_def by blast
  have message: "payment_proof_message L 1500000000 (hex_encode L ?excess) (kp_public sender) = Some ?msg"
    by (simp add: payment_proof_message_def hex keys fixture_message_def)
  have honest: "verify_ed25519 L (kp_public recipient) ?msg (kp_sign recipient ?msg)"
    "verify_ed25519 L (kp_public sender) ?msg (kp_sign sender ?msg)"
    using assms(2,3) by (simp_all add: honest_key_def verify_ed25519_iff)
  show "tampered_recipient_signature_is_rejected L recipient sender \<longleftrightarrow> \<not> tampered_accepted L recipient ?msg"
    and "tampered_sender_signature_is_rejected L recipient sender \<longleftrightarrow> \<not> tampered_accepted L sender ?msg"
    by (simp_all add: tampered_recipient_signature_is_rejected_def tampered_sender_signature_is_rejected_def
        with_parsed_def made tampered_accepted_def)
       (simp_all add: exported_def verify_signatures_def made message hex honest split: option.split)
qed

lemma tampered_signature_is_rejected_passes:
  assumes "wallet_libs L" and "honest_key L recipient" and "honest_key L sender"
    and "\<And>kp msg sg. kp \<in> {recipient, sender} \<Longrightarrow> ed25519_verify L (kp_public kp) msg sg \<Longrightarrow> sg = kp_sign kp msg"
    and "\<And>kp msg sg. kp \<in> {recipient, sender} \<Longrightarrow>
      hex_decode L (''ff'' @ drop 2 (hex_encode L (kp_sign kp msg))) \<noteq> Some (kp_sign kp msg)"
  shows "tampered_recipient_signature_is_rejected L recipient sender"
    and "tampered_sender_signature_is_rejected L recipient sender"
  unfolding tampered_signature_iff [OF assms(1-3)] tampered_accepted_def verify_ed25519_iff
  using assms(4,5) by blast+

lemma tampered_signature_unchanged:
  assumes "wallet_libs L" and "honest_key L recipient" and "honest_key L sender"
  shows "take 2 (hex_encode L (kp_sign recipient (fixture_message recipient sender))) = ''ff'' \<Longrightarrow>
      \<not> tampered_recipient_signature_is_rejected L recipient sender"
    and "take 2 (hex_encode L (kp_sign sender (fixture_message recipient sender))) = ''ff'' \<Longrightarrow>
      \<not> tampered_sender_signature_is_rejected L recipient sender"
proof -
  have "tampered_accepted L kp msg"
    if "take 2 (hex_encode L (kp_sign kp msg)) = ''ff''" "honest_key L kp" for kp msg
  proof -
    have "''ff'' @ drop 2 (hex_encode L (kp_sign kp msg)) = hex_encode L (kp_sign kp msg)"
      using append_take_drop_id [of 2 "hex_encode L (kp_sign kp msg)"] that(1) by metis
    moreover have "hex_decode L (hex_encode L (kp_sign kp msg)) = Some (kp_sign kp msg)"
      using assms(1) unfolding wallet_libs_def by blast
    ultimately show ?thesis
      using that(2) by (simp add: tampered_accepted_def verify_ed25519_iff honest_key_def)
  qed
  then show "take 2 (hex_encode L (kp_sign recipient (fixture_message recipient sender))) = ''ff'' \<Longrightarrow>
      \<not> tampered_recipient_signature_is_rejected L recipient sender"
    "take 2 (hex_encode L (kp_sign sender (fixture_message recipient sender))) = ''ff'' \<Longrightarrow>
      \<not> tampered_sender_signature_is_rejected L recipient sender"
    unfolding tampered_signature_iff [OF assms] using assms(2,3) by blast+
qed

end
