(* ===== verification/Spec2Isabelle.thy ===== *)
theory Spec2Isabelle
  imports Endpoints Refusals Races Authority Write_Errors Parts Startup Lifecycle Liveness Wallet Unit_Tests
begin

text \<open>
  goblin-nip05d, a self-hostable NIP-05 name authority with an optional market for names,
  as it stands under \<open>src/src\<close>. The program maps \<open>name@domain\<close> to Nostr keys,
  lets a key register and release one name, and, when transfers are on, lets a seller offer
  a name for a Grin payment that a buyer claims with a payment proof.

  Parts of the program and where they are modelled.

  \<^item> \<open>Prelude\<close>, \<open>Rust_Str\<close>, \<open>Externals\<close>: machine integers, the parts of Rust's
    \<open>str\<close> the source uses, and the libraries. A \<open>u64\<close> is a 64-bit word, an \<open>i64\<close> an
    integer whose arithmetic goes through \<open>wrap_i64\<close>: the release profile leaves overflow
    checks off. A library function (base64, hex, SHA-256, bech32, ed25519, event parsing and
    verification, JSON, Unicode's case table) is a field of the record \<open>libs\<close>, an
    argument of all that uses it.
  \<^item> \<open>Names\<close> (\<open>names.rs\<close>): the reserved list, \<open>valid_name\<close>, look-alike folding,
    the labels of the operator's domain, keys.
  \<^item> \<open>Config\<close> (\<open>config.rs\<close>): the environment, the startup checks, the node's
    endpoints, the reserved file, the startup log line.
  \<^item> \<open>Name_Store_Spec\<close>, \<open>Database\<close> (\<open>db.rs\<close> and the SQL in
    \<open>handlers/registry.rs\<close> and \<open>handlers/transfer.rs\<close>): the three tables as lists of
    rows, one definition for each query, each statement and the claim transaction. The
    abstract registry is a map from names to owners; the locales \<open>name_store\<close> and
    \<open>transfer_store\<close> say what its clients rely on, and the interpretation \<open>db\<close> proves it
    of the SQL.
  \<^item> \<open>Node\<close> (\<open>node.rs\<close>): the chain source interface (locale
    \<open>chain_source_laws\<close>), the JSON-RPC client with its failover, the scripted source.
  \<^item> \<open>App_State\<close>, \<open>Limiter\<close> (\<open>db.rs\<close>, \<open>ratelimit.rs\<close>, \<open>util.rs\<close>): the shared
    \<open>App\<close> with the limiter, the cooldowns and the replay set; the clocks, in nanoseconds,
    are part of the state.
  \<^item> \<open>Auth\<close> (\<open>auth.rs\<close>) and \<open>Proof_Check\<close> (\<open>proof.rs\<close>): NIP-98 authorization and
    payment proofs, both pure.
  \<^item> \<open>Lookup\<close>, \<open>Registry\<close>, \<open>Offers\<close>, \<open>Claim\<close>, \<open>Router\<close> (\<open>handlers/\<close>,
    \<open>main.rs\<close>): every handler, with all its guards in the order of the source, the route
    table, and the start of the process (\<open>main\<close>).
  \<^item> \<open>Wallet\<close> (the fixture of \<open>proof.rs\<close>): the wallet that exports a payment
    proof, with what it relies on of its libraries. \<open>Unit_Tests\<close>: the unit tests of the
    source files as executable definitions, each with a lemma that it passes.

  How the parts interact. A handler is a \<open>prog\<close> of \<open>Interleaving\<close>: a sequence of
  atomic steps on the shared state, one for each access the source makes under a mutex, for
  each reading of a clock and for each answer awaited from the node. \<open>sched\<close> interleaves
  the steps of any number of requests with steps of the environment: clocks move, SQLite
  fails, the node changes its answers. \<open>Steps\<close> lists what a step may do to the database
  and with which authority (the inductive \<open>db_step\<close>); \<open>System\<close> shows that every
  handler of the route table does nothing else, whatever runs in between, and interprets the
  locale \<open>rely_guarantee\<close> with it as \<open>service\<close>; its facts give the invariant
  \<open>sys_inv\<close> of every reachable state and the order \<open>evolves\<close> in which states follow
  one another. \<open>Undisturbed\<close> gives the complete behaviour of a request that runs alone,
  \<open>Replay\<close> relates the two clocks, \<open>Example\<close> holds a concrete instance (libraries,
  configuration, requests, states) on which witnesses and counterexamples run.

  What the theorems show.

  \<^item> This theory, for all interleavings: the database is always consistent (C1), every
    transfer was paid (C2), a kernel is spent once (C3), ownership moves only as the registry
    allows (C5, a refinement), what was answered stays true (C6), history is kept (C7), auth
    events are used once (C8, C9), and where that ends (C10). \<open>Authority\<close>: no name changes
    hands without the signatures for it (C4). \<open>Lifecycle\<close>: the phases of an offer, which
    only advance.
  \<^item> \<open>Endpoints\<close>, for a request served alone: when exactly each endpoint succeeds, what
    it then changes, and which refusal it gives otherwise (C11 to C24), and a price no claim
    can match (C29). \<open>Refusal_Tables\<close> lists the checks of each write endpoint in their
    order with their answers, \<open>Refusals\<close> those of a claim (C17).
  \<^item> \<open>Wallet\<close>: wallet and service together, a buyer who paid gets the name (C18).
  \<^item> \<open>Races\<close>: three interleavings with an unwanted outcome (C25 to C27);
    \<open>Write_Errors\<close>: what follows when a statement fails whose result is not looked at (C28).
  \<^item> \<open>Liveness\<close>, for all interleavings: every request is answered within fourteen of
    its own steps (C30), all requests together come to rest with all of them answered (C31,
    what a graceful shutdown waits for), and every answer has the documented form (C32).
  \<^item> \<open>Parts\<close>: the limiter against its textbook definition (C33, C34), payment
    messages and proofs (C35, C36), the node client (C37).
  \<^item> \<open>Startup\<close>: names and the reserved list (C38), the configuration (C39), and
    a sequence of processes on one database, each killed at any moment (C40).

  Bounds. Nothing here uses fuel: the loops of the source are folds and recursions over
  lists, and a handler is a finite tree of steps, so \<open>run\<close> is total. Interleavings are
  reachability by any number of steps of any number of requests. Where a clock matters the
  assumption is stated (\<open>sane_clock\<close>: between the epoch and the year 2262). An allocation
  failure and a poisoned mutex are not modelled; SQLite runs a transaction as a whole or not
  at all, so that a crash leaves the tables of the last completed step (\<open>lives\<close>).

  Not modelled. The log subscriber and the graceful shutdown of \<open>main.rs\<close>;
  \<open>lib.rs\<close>, which only re-exports; the construction of the \<open>reqwest\<close> client;
  the matching of a URL against the route templates and the extraction of its parameter
  (axum: a request names its template); the JSON body parser that \<open>serde\<close> derives for
  \<open>RegisterBody\<close> (a field of \<open>libs\<close>); the HTTP exchange with the node (the parameter
  \<open>transport\<close>); the integration tests under \<open>src/tests\<close>.
\<close>

section \<open>Every state the service reaches\<close>

text \<open>
  C1. Whatever requests arrive and however their steps interleave with one another, with
  failing SQLite statements and with changing node answers, every database the service
  reaches from a consistent start (a fresh database is one) is consistent: its tables
  satisfy the invariant, no key owns two names, and every active name is a valid,
  unreserved name owned by a well-formed key.
\<close>

theorem reachable_database_consistent:
  assumes "sys_inv L cfg K w0" and "reaches L cfg K (w0, []) (w, ps)"
  shows "db_inv (db w) \<and> one_name_per_key (owned (db w)) \<and>
    (\<forall>name key. owned (db w) name = Some key \<longrightarrow> name_allowed cfg name \<and> valid_pubkey_hex key)"
proof -
  have inv: "sys_inv L cfg K w" using service.reached_invariant [OF assms(2,1)] .
  then have rows: "names_inv (tb_names (db w))" "justified_inv L cfg K (db w)" "db_inv (db w)"
    by (simp_all add: sys_inv_def db_inv_names)
  have "name_allowed cfg name \<and> valid_pubkey_hex key" if "owned (db w) name = Some key" for name key
    using that rows(2)
    by (auto simp: owned_def owner_of_Some [OF rows(1)] justified_inv_def name_row_ok_def)
  then show ?thesis using rows by (simp add: owned_def owner_of_one_name)
qed

theorem reachable_database_consistent_witness:
  "db_inv sold_conn \<and> one_name_per_key (owned sold_conn) \<and> valid_pubkey_hex key_b"
  using reachable_database_consistent [OF demo_sys_inv(3) sold_world_reached]
  by (simp add: sold_conn_facts)

text \<open>
  C2. Every transfer the service has ever recorded was earned: the seller signed a kind-3402
  offer event with exactly the recorded name, buyer and price; the payment proof for the
  recorded kernel excess carries valid signatures of recipient and sender over the amount
  of the offer, paid to the address of the offer; and the Grin node has reported the kernel
  found with at least the configured confirmations, at the recorded height.
\<close>

theorem every_transfer_paid:
  assumes "sys_inv L cfg K w0" and "reaches L cfg K (w0, []) (w, ps)" and "t \<in> set (tb_transfers (db w))"
  shows "(\<exists>e row prf. offer_of_event L cfg e row \<and> ev_id e = t_offer_id t \<and>
      ev_pubkey e = t_seller_pubkey t \<and> o_name row = t_name t \<and>
      o_buyer_pubkey row = t_buyer_pubkey t \<and> o_price_nanogrin row = t_price_nanogrin t \<and>
      verify_signatures L prf \<and> pp_excess_hex prf = t_kernel_excess t \<and>
      normalize_grin_address L (pp_recipient_address prf) = o_proof_address row \<and>
      0 \<le> t_price_nanogrin t \<and> pp_amount prf = i64_as_u64 (t_price_nanogrin t)) \<and>
    (\<exists>krn. K (t_kernel_excess t) krn \<and> k_found krn \<and>
      cfg_transfer_min_conf cfg \<le> k_confirmations krn \<and>
      t_kernel_height t = map_option u64_as_i64 (k_height krn))"
proof -
  have inv: "justified_inv L cfg K (db w)"
    using service.reached_invariant [OF assms(2,1)] by (simp add: sys_inv_def)
  then have just: "transfer_justified L cfg K (tb_offers (db w)) t"
    using assms(3) by (simp add: justified_inv_def)
  then obtain row where row: "row \<in> set (tb_offers (db w))" "o_offer_id row = t_offer_id t"
    "o_name row = t_name t" "o_seller_pubkey row = t_seller_pubkey t"
    "o_buyer_pubkey row = t_buyer_pubkey t" "o_price_nanogrin row = t_price_nanogrin t"
    "payment_proved L row (t_kernel_excess t)"
    by (auto simp: transfer_justified_def)
  obtain e where "offer_of_event L cfg e row"
    using inv row(1) by (auto simp: justified_inv_def offer_authentic_def)
  moreover from this have "ev_id e = t_offer_id t" "ev_pubkey e = t_seller_pubkey t"
    using row(2,4) by (simp_all add: offer_of_event_def)
  moreover have "kernel_confirmed cfg K (t_kernel_excess t) (t_kernel_height t)"
    using just by (simp add: transfer_justified_def)
  ultimately show ?thesis
    using row(3,5,6,7) unfolding payment_proved_def kernel_confirmed_def by metis
qed

theorem every_transfer_paid_witness:
  "\<exists>krn. demo_chain excess_0 krn \<and> k_found krn \<and>
      cfg_transfer_min_conf demo_cfg \<le> k_confirmations krn \<and>
      Some 500 = map_option u64_as_i64 (k_height krn)"
  using every_transfer_paid [OF demo_sys_inv(3) sold_world_reached,
      of "transfer_record demo_row excess_0 (Some 500) 1000"]
  by (simp add: sold_conn_facts) (simp add: transfer_record_def)

text \<open>
  C3. A kernel excess is spent once, for ever: of two transfers recorded at any two moments
  of the service's life, if they name the same kernel excess, or the same offer, they are the
  same record; and a recorded transfer is never changed or lost.
\<close>

theorem excess_spent_once:
  assumes "sys_inv L cfg K w0" and "reaches L cfg K (w0, []) (w, ps)"
    and "reaches L cfg K (w, ps) (w', ps')"
    and "t \<in> set (tb_transfers (db w))" and "t' \<in> set (tb_transfers (db w'))"
    and "t_kernel_excess t = t_kernel_excess t' \<or> t_offer_id t = t_offer_id t'"
  shows "t' = t \<and> t \<in> set (tb_transfers (db w'))"
proof -
  have "evolves L cfg K w w'"
    using service.reached_rely [OF assms(2,3,1)] by simp
  then have "t \<in> set (tb_transfers (db w'))"
    using assms(4) db_le_transfers by (auto simp: evolves_def)
  moreover have "transfers_inv (tb_transfers (db w'))"
    using service.reached_invariant [OF rtranclp_trans [OF assms(2,3)] assms(1)]
    by (simp add: sys_inv_def db_inv_def)
  ultimately show ?thesis
    using assms(5,6) by (auto simp: transfers_inv_def dest: distinct_map_eqD)
qed

theorem excess_spent_once_witness:
  "\<exists>t. t \<in> set (tb_transfers (db sold_world)) \<and> t_kernel_excess t = excess_0"
  using excess_spent_once [OF demo_sys_inv(3) sold_world_reached rtranclp.rtrancl_refl,
      of "transfer_record demo_row excess_0 (Some 500) 1000"
         "transfer_record demo_row excess_0 (Some 500) 1000"]
  by (intro exI [of _ "transfer_record demo_row excess_0 (Some 500) 1000"])
     (simp add: sold_conn_facts, simp add: transfer_record_def)

text \<open>
  C5. Ownership moves only as the abstract registry allows, in every single step of every
  interleaving: a name is registered by a key that has none, released, or passed on; and if
  one step makes a name's owner another key, that step has recorded the transfer of this
  name from the old key to the new one; and the other way round, a step that records a
  transfer has made its buyer the owner of a name its seller owned.
\<close>

theorem ownership_changes:
  assumes "sys_inv L cfg K w0" and "reaches L cfg K (w0, []) (w, ps)"
    and "sched (environment K) (request_handler L cfg) (w, ps) (w', ps')"
  shows "registry_step (owned (db w)) (owned (db w')) \<and>
    (\<forall>name k k'. owned (db w) name = Some k \<longrightarrow> owned (db w') name = Some k' \<longrightarrow> k' \<noteq> k \<longrightarrow>
      (\<exists>t. t \<in> set (tb_transfers (db w')) \<and> t \<notin> set (tb_transfers (db w)) \<and>
           t_name t = name \<and> t_seller_pubkey t = k \<and> t_buyer_pubkey t = k')) \<and>
    (\<forall>t \<in> set (tb_transfers (db w')) - set (tb_transfers (db w)).
      owned (db w) (t_name t) = Some (t_seller_pubkey t) \<and>
      owned (db w') (t_name t) = Some (t_buyer_pubkey t))"
proof -
  have inv: "db_inv (db w)"
    using service.reached_invariant [OF assms(2,1)] by (simp add: sys_inv_def)
  consider "handler_step L cfg K w w'"
    | "owned (db w') = owned (db w)" "tb_transfers (db w') = tb_transfers (db w)"
    using service.reached_step [OF assms(2,1,3)] by (auto simp: environment_def owned_def)
  then show ?thesis
  proof cases
    case 1
    then have "db_step L cfg K (db w) (db w')" by (simp add: handler_step_def)
    then show ?thesis
      using db_step_registry [OF _ inv] db_step_transfer [OF _ inv] db_step_recorded [OF _ inv] by blast
  qed (simp add: registry_step.stay)
qed

theorem ownership_changes_witness:
  "\<exists>(w :: world) (w' :: world) t. owned (db w) = [''alice'' \<mapsto> key_a] \<and> owned (db w') = [''alice'' \<mapsto> key_b] \<and>
     registry_step (owned (db w)) (owned (db w')) \<and>
     t \<in> set (tb_transfers (db w')) \<and> t_name t = ''alice'' \<and> t_seller_pubkey t = key_a \<and> t_buyer_pubkey t = key_b"
proof -
  obtain w1 k where reached: "reaches demo_libs demo_cfg demo_chain (demo_world [alice_row] [demo_row], [])
      (w1, [act demo_sale k])"
    and w1: "db w1 = demo_conn [alice_row] [demo_row]" and sold: "db (snd (demo_sale w1)) = sold_conn"
    by (rule demo_claim_committing)
  note moved = ownership_changes [OF demo_sys_inv(3) reached sched_act, unfolded sold w1 sold_conn_facts demo_owned]
  obtain t where "t \<in> set (tb_transfers sold_conn)" "t_name t = ''alice''" "t_seller_pubkey t = key_a"
    "t_buyer_pubkey t = key_b"
    using moved [THEN conjunct2, THEN conjunct1, rule_format, of "''alice''" key_a key_b] by auto
  with moved [THEN conjunct1] have "registry_step (owned (db w1)) (owned (db (snd (demo_sale w1)))) \<and>
      t \<in> set (tb_transfers (db (snd (demo_sale w1)))) \<and> t_name t = ''alice'' \<and> t_seller_pubkey t = key_a \<and>
      t_buyer_pubkey t = key_b"
    unfolding sold w1 sold_conn_facts(2) demo_owned(2) by simp
  moreover have "owned (db w1) = [''alice'' \<mapsto> key_a]" "owned (db (snd (demo_sale w1))) = [''alice'' \<mapsto> key_b]"
    unfolding sold w1 sold_conn_facts(2) demo_owned(2) by simp_all
  ultimately show ?thesis by blast
qed

text \<open>
  C6. What the service has answered stays true, whatever it did meanwhile and whichever
  statements failed: after an answer that names a registered name, a row of this name is on
  record; after an answer that gives an offer's id, name and expiration, the offer is on record
  with exactly these; after an answer that a claim succeeded, now or on a retry, a transfer of
  this name to this buyer is on record (and was paid, C2).
\<close>

theorem answers_are_kept:
  assumes "sys_inv L cfg K w0" and "reaches L cfg K (w0, []) (w, ps)" and "Ret r \<in> set ps"
  shows "(\<forall>name. resp_body r = Json (JObject (registered_body cfg name)) \<longrightarrow>
        (\<exists>row \<in> set (tb_names (db w)). n_name row = name)) \<and>
     (\<forall>i name x. resp_body r = Json (JObject [(''offer_id'', JString i), (''name'', JString name),
           (''expires_at'', x)]) \<longrightarrow>
        (\<exists>row \<in> set (tb_offers (db w)). o_offer_id row = i \<and> o_name row = name \<and>
           x = json_i64 (o_expiration row))) \<and>
     (\<forall>name buyer. resp_body r = Json (JObject (claim_success name (cfg_domain cfg) buyer)) \<longrightarrow>
        (\<exists>t \<in> set (tb_transfers (db w)). t_name t = name \<and> t_buyer_pubkey t = buyer))"
proof -
  obtain w1 where "evolves L cfg K w1 w" "promised cfg r w1"
    by (rule service.reached_answer [OF assms(2,1,3)])
  then have "promised cfg r w" by (rule promised_stable [rotated])
  then show ?thesis unfolding promised_def .
qed

theorem answers_are_kept_witness:
  "\<exists>t \<in> set (tb_transfers sold_conn). t_name t = ''alice'' \<and> t_buyer_pubkey t = key_b"
  using answers_are_kept [OF demo_sys_inv(3) sold_world_reached list.set_intros(1)]
  by (simp add: sold_answer_body json_response_def demo_cfg_def)



section \<open>Authorization\<close>

text \<open>
  C8. Within the replay window an auth event is used once: after a handler's step has
  accepted an event id, whatever else runs, no state reached less than
  \<open>auth_max_age_secs + 5\<close> seconds (of the monotonic clock) later accepts it again.
\<close>

theorem event_refused_within_window:
  assumes "sys_inv L cfg K w0" and "reaches L cfg K (w0, []) (w, ps)"
    and "fst (auth_event_fresh cfg i w)"
    and "sched (environment K) (request_handler L cfg) (w, ps) (snd (auth_event_fresh cfg i w), ps1)"
    and "reaches L cfg K (snd (auth_event_fresh cfg i w), ps1) (w2, ps2)"
    and "instant w2 - instant w < replay_window cfg"
  shows "\<not> fst (auth_event_fresh cfg i w2)"
proof -
  have "evolves L cfg K (snd (auth_event_fresh cfg i w)) w2"
    using service.reached_rely [OF rtranclp.rtrancl_into_rtrancl [OF assms(2,4)] assms(5,1)] by simp
  then have "seen_kept cfg (snd (auth_event_fresh cfg i w)) w2" by (simp add: evolves_def)
  then show ?thesis
    by (rule seen_refused [OF _ auth_event_fresh_records [OF assms(3)] assms(6)])
qed

theorem event_refused_within_window_witness:
  "\<not> fst (auth_event_fresh demo_cfg ''e1'' (snd (auth_event_fresh demo_cfg ''e1'' register_world)))"
proof -
  obtain k where waiting: "register_waiting = act (auth_event_fresh demo_cfg ''e1'') k"
    and fresh: "fst (auth_event_fresh demo_cfg ''e1'' register_world)"
    by (rule register_waiting_act)
  show ?thesis
    by (rule event_refused_within_window [OF demo_sys_inv(1) register_reached fresh
        register_step [OF waiting] rtranclp.rtrancl_refl])
       (simp add: demo_replay_window)
qed



text \<open>
  C10. The bound of C9 is needed: an event post-dated by five seconds is accepted, and
  accepted again when 65.5 seconds have passed, since its id is dropped after 65 seconds
  while its age, in whole seconds, is still 60.
\<close>

theorem postdated_token_used_twice:
  "\<exists>w w1 w2 w3.
     prologue demo_libs demo_cfg ''reg'' (demo_headers 1) ''POST'' ''/api/v1/register'' (demo_body 1) w
       = Inr (key_a, w1) \<and>
     environment demo_chain w1 w2 \<and>
     instant w2 = instant w1 + 65500000000 \<and> sys_time w2 = sys_time w1 + 65500000000 \<and>
     prologue demo_libs demo_cfg ''reg'' (demo_headers 1) ''POST'' ''/api/v1/register'' (demo_body 1) w2
       = Inr (key_a, w3)"
proof -
  let ?w = "at_time 0 995000000000 (demo_world [] [])"
  have unused: "demo_unused ''reg'' ''e1'' ?w"
    by (simp add: demo_unused_def at_time_def hits_of_def Mapping.lookup_default_empty)
  obtain w1 where first: "prologue demo_libs demo_cfg ''reg'' (demo_headers 1) ''POST''
      ''/api/v1/register'' (demo_body 1) ?w = Inr (key_a, w1)"
    using demo_register_token [OF _ _ _ unused] by (auto simp: sane_clock_def at_time_def)
  let ?w2 = "at_time (instant w1 + 65500000000) (sys_time w1 + 65500000000) w1"
  have w1: "instant w1 = 0" "sys_time w1 = 995000000000"
    using prologue_Inr(4,6) [OF first] by (simp_all add: at_time_def)
  have "demo_unused ''reg'' ''e1'' ?w2"
    using demo_unused_again [OF first] w1
    by (simp add: at_time_def demo_unused_def demo_replay_window hits_of_def Mapping.lookup_default_empty)
  then obtain w3 where "prologue demo_libs demo_cfg ''reg'' (demo_headers 1) ''POST''
      ''/api/v1/register'' (demo_body 1) ?w2 = Inr (key_a, w3)"
    using demo_register_token [of ?w2] by (auto simp: sane_clock_def at_time_def w1)
  moreover have "environment demo_chain w1 ?w2"
    by (simp add: environment_def at_time_def node_answers_def)
  moreover have "instant ?w2 = instant w1 + 65500000000" "sys_time ?w2 = sys_time w1 + 65500000000"
    by (simp_all add: at_time_def)
  ultimately show ?thesis using first by blast
qed

end
